(* ===== verification/Ib_Prelude.thy ===== *)
theory Ib_Prelude
  imports Main "HOL-Library.Word"
begin

unbundle bit_operations_syntax

text \<open>
  Shared vocabulary of the development: the fixed-width integer types of \<^verbatim>\<open>stdint.h\<close>, the
  little-endian object representation of integers (the only byte order the sources accept, see the
  \<^verbatim>\<open>#error\<close> branches of \<^verbatim>\<open>src/raw_packet.h\<close>), the byte-order conversions of
  \<^verbatim>\<open>arpa/inet.h\<close>, the outcome of a piece of C code, and generic lemmas on lists and words.
\<close>

section \<open>Types and collections\<close>

type_synonym byte = "8 word"
type_synonym u16 = "16 word"
type_synonym u32 = "32 word"
type_synonym u64 = "64 word"

text \<open>\<open>layout_simps\<close> collects object sizes, \<open>bytes_simps\<close> the equations that compute object
  representations, \<open>outcome_simps\<close> the equations of the outcome monad.\<close>

named_theorems layout_simps
named_theorems bytes_simps
named_theorems outcome_simps

section \<open>Outcomes of C code\<close>

text \<open>
  A call either returns, leaves the process through \<^verbatim>\<open>exit(code)\<close>, or has no meaning because the
  code reached undefined behaviour (an access outside an object, a null dereference, a signed
  overflow). Undefined behaviour is a value of its own, so that its absence can be proved.
\<close>

datatype 'a outcome = Ok 'a | Exit int | UB

primrec bind_outcome :: "'a outcome \<Rightarrow> ('a \<Rightarrow> 'b outcome) \<Rightarrow> 'b outcome" where
  "bind_outcome (Ok x) f = f x"
| "bind_outcome (Exit c) f = Exit c"
| "bind_outcome UB f = UB"

declare bind_outcome.simps [outcome_simps]

lemma bind_outcome_assoc:
  "bind_outcome (bind_outcome m f) g = bind_outcome m (\<lambda>x. bind_outcome (f x) g)"
  by (cases m) simp_all

lemma bind_outcome_eq_Ok:
  "bind_outcome m f = Ok y \<longleftrightarrow> (\<exists>x. m = Ok x \<and> f x = Ok y)"
  by (cases m) simp_all

definition EXIT_SUCCESS :: int where "EXIT_SUCCESS = 0"
definition EXIT_FAILURE :: int where "EXIT_FAILURE = 1"

section \<open>Little-endian object representations\<close>

definition le16 :: "u16 \<Rightarrow> byte list" where
  "le16 w = [ucast w, ucast (drop_bit 8 w)]"

definition le32 :: "u32 \<Rightarrow> byte list" where
  "le32 w = [ucast w, ucast (drop_bit 8 w), ucast (drop_bit 16 w), ucast (drop_bit 24 w)]"

definition le64 :: "u64 \<Rightarrow> byte list" where
  "le64 w = map (\<lambda>i. ucast (drop_bit (8 * i) w)) [0..<8]"

fun of_le16 :: "byte list \<Rightarrow> u16" where
  "of_le16 [a, b] = ucast a OR push_bit 8 (ucast b)"
| "of_le16 _ = 0"

fun of_le32 :: "byte list \<Rightarrow> u32" where
  "of_le32 [a, b, c, d] =
     ucast a OR push_bit 8 (ucast b) OR push_bit 16 (ucast c) OR push_bit 24 (ucast d)"
| "of_le32 _ = 0"

lemma length_le16 [simp]: "length (le16 w) = 2"
  by (simp add: le16_def)

lemma length_le32 [simp]: "length (le32 w) = 4"
  by (simp add: le32_def)

lemma length_le64 [simp]: "length (le64 w) = 8"
  by (simp add: le64_def)

lemma of_le16_le16 [simp]: "of_le16 (le16 w) = w"
  by (rule bit_word_eqI) (auto simp: le16_def bit_simps)

lemma of_le32_le32 [simp]: "of_le32 (le32 w) = w"
proof (rule bit_word_eqI)
  fix n assume n: "n < LENGTH(32)"
  have "n < 24 \<or> (\<exists>k. n = 24 + k)" by presburger
  with n show "bit (of_le32 (le32 w)) n = bit w n"
    by (auto simp: le32_def bit_simps)
qed

lemma le16_of_le16: "length bs = 2 \<Longrightarrow> le16 (of_le16 bs) = bs"
proof -
  assume "length bs = 2"
  then obtain a b where bs: "bs = [a, b]"
    by (auto simp: length_Suc_conv eval_nat_numeral)
  have "ucast (ucast a OR push_bit 8 (ucast b) :: u16) = a"
    by (rule bit_word_eqI) (auto simp: bit_simps)
  moreover have "ucast (drop_bit 8 (ucast a OR push_bit 8 (ucast b) :: u16)) = b"
    by (rule bit_word_eqI) (auto simp: bit_simps dest: bit_imp_le_length)
  ultimately show ?thesis by (simp add: bs le16_def)
qed

lemma le32_of_le32: "length bs = 4 \<Longrightarrow> le32 (of_le32 bs) = bs"
proof -
  assume "length bs = 4"
  then obtain a b c d where bs: "bs = [a, b, c, d]"
    by (auto simp: length_Suc_conv eval_nat_numeral)
  let ?w = "of_le32 [a, b, c, d]"
  have "ucast ?w = a" by (rule bit_word_eqI) (auto simp: bit_simps)
  moreover have "ucast (drop_bit 8 ?w) = b"
    by (rule bit_word_eqI) (auto simp: bit_simps dest: bit_imp_le_length)
  moreover have "ucast (drop_bit 16 ?w) = c"
    by (rule bit_word_eqI) (auto simp: bit_simps dest: bit_imp_le_length)
  moreover have "ucast (drop_bit 24 ?w) = d"
    by (rule bit_word_eqI) (auto simp: bit_simps dest: bit_imp_le_length)
  ultimately show ?thesis by (simp add: bs le32_def)
qed

section \<open>Byte order\<close>

text \<open>\<^verbatim>\<open>htons\<close>, \<^verbatim>\<open>ntohs\<close>, \<^verbatim>\<open>htonl\<close> and \<^verbatim>\<open>ntohl\<close> reverse the bytes of their argument on a
  little-endian host.\<close>

definition htons :: "u16 \<Rightarrow> u16" where "htons w = of_le16 (rev (le16 w))"
definition htonl :: "u32 \<Rightarrow> u32" where "htonl w = of_le32 (rev (le32 w))"
definition ntohs :: "u16 \<Rightarrow> u16" where "ntohs w = of_le16 (rev (le16 w))"
definition ntohl :: "u32 \<Rightarrow> u32" where "ntohl w = of_le32 (rev (le32 w))"

lemma le16_htons [bytes_simps]: "le16 (htons w) = rev (le16 w)"
  by (simp add: htons_def le16_of_le16)

lemma le32_htonl [bytes_simps]: "le32 (htonl w) = rev (le32 w)"
  by (simp add: htonl_def le32_of_le32)

lemma ntohs_htons [simp]: "ntohs (htons w) = w"
  by (simp add: ntohs_def le16_htons)

lemma ntohl_htonl [simp]: "ntohl (htonl w) = w"
  by (simp add: ntohl_def le32_htonl)

section \<open>Generic lemmas\<close>

lemma bit_times_2: "bit (x * 2) n \<longleftrightarrow> n < LENGTH('a) \<and> n \<noteq> 0 \<and> bit x (n - Suc 0)"
  for x :: "'a::len word"
  using bit_double_iff [of x n] by (auto simp: mult.commute)

lemma list_split_at: "drop k bs = take m (drop k bs) @ drop (k + m) bs"
  by (metis append_take_drop_id drop_drop add.commute)

end
