(* ===== verification/Interruptible.thy ===== *)
theory Interruptible
  imports Ib_Prelude
begin

text \<open>
  Loops of the form \<^verbatim>\<open>while (flag) { ... }\<close> whose flag is cleared by a signal handler, as the six
  endless loops of the programs are. The rest of the development has each of them as a recursion over
  the answers of the environment before the interrupt. Here such a loop is a transition system in which
  the handler may run between any two steps of the program, also after the flag was tested and while
  the body waits in a system call, which then fails. The condition of the loop, the handler, the body and
  the answer of an interrupted call are parameters that each program gives from its own text; the contract
  of the locale says that the recursion has exactly the outcomes of the transition system, and that a
  loop is over at most one iteration after the handler has run.
\<close>

section \<open>The loop as a transition system\<close>

definition SIGINT :: int where "SIGINT = 2"

text \<open>Where the program is: at the test of the flag, in the body before its system call, in that call, or
  out of the loop with a result. What follows the call in the body does not look at the flag, so it is one
  step with the return of the call.\<close>

datatype ('s, 'r) phase = At_test 's | In_body 's | In_call 's | Left 'r

text \<open>A state: the flag, the answers of the environment the body has used, and the phase. The body goes on
  with a new state or leaves the loop; \<open>finish\<close> is what follows the loop.\<close>

type_synonym ('s, 'a, 'r) loop_state = "int \<times> 'a list \<times> ('s, 'r) phase"

fun after_call :: "'s + 'r \<Rightarrow> ('s, 'r) phase" where
  "after_call (Inl s) = At_test s"
| "after_call (Inr r) = Left r"

text \<open>The effect of the signal. The handlers are installed without \<^verbatim>\<open>SA_RESTART\<close>, so a call the body waits
  in returns with the answer \<open>eintr\<close>; a body that never waits has none.\<close>

fun on_signal ::
  "(int \<Rightarrow> int) \<Rightarrow> 'a option \<Rightarrow> ('s \<Rightarrow> 'a \<Rightarrow> 's + 'r) \<Rightarrow> ('s, 'a, 'r) loop_state \<Rightarrow> ('s, 'a, 'r) loop_state" where
  "on_signal handler (Some a) body (flag, as, In_call s) = (handler flag, as @ [a], after_call (body s a))"
| "on_signal handler eintr body (flag, as, ph) = (handler flag, as, ph)"

inductive loop_step ::
  "(int \<Rightarrow> bool) \<Rightarrow> (int \<Rightarrow> int) \<Rightarrow> 'a option \<Rightarrow> ('s \<Rightarrow> 'a \<Rightarrow> 's + 'r) \<Rightarrow> ('s \<Rightarrow> 'r) \<Rightarrow>
     ('s, 'a, 'r) loop_state \<Rightarrow> ('s, 'a, 'r) loop_state \<Rightarrow> bool"
  for test handler eintr body finish where
  signal: "loop_step test handler eintr body finish x (on_signal handler eintr body x)"
| enter: "test flag \<Longrightarrow> loop_step test handler eintr body finish (flag, as, At_test s) (flag, as, In_body s)"
| leave: "\<not> test flag \<Longrightarrow>
    loop_step test handler eintr body finish (flag, as, At_test s) (flag, as, Left (finish s))"
| call: "loop_step test handler eintr body finish (flag, as, In_body s) (flag, as, In_call s)"
| answer: "loop_step test handler eintr body finish (flag, as, In_call s) (flag, as @ [a], after_call (body s a))"

inductive_cases loop_step_elim: "loop_step test handler eintr body finish x y"

abbreviation loop_steps where
  "loop_steps test handler eintr body finish \<equiv> (loop_step test handler eintr body finish)\<^sup>*\<^sup>*"

lemma step_then:
  "loop_step test handler eintr body finish x y \<Longrightarrow> loop_steps test handler eintr body finish y z \<Longrightarrow>
     loop_steps test handler eintr body finish x z"
  by (rule converse_rtranclp_into_rtranclp)

lemma step_once:
  "loop_step test handler eintr body finish x y \<Longrightarrow> loop_steps test handler eintr body finish x y"
  by (rule r_into_rtranclp)

lemma one_iteration:
  assumes "test flag"
  shows "loop_steps test handler eintr body finish (flag, as, At_test s) (flag, as @ [a], after_call (body s a))"
  by (rule step_then [OF enter [of test, OF assms]], rule step_then [OF call], rule step_once [OF answer])

text \<open>A complete run: from the start of the loop in state \<open>s\<close>, it has used the answers \<open>as\<close> and was left
  with the result \<open>r\<close>, the flag then being \<open>flag\<close>.\<close>

definition loop_run ::
  "(int \<Rightarrow> bool) \<Rightarrow> (int \<Rightarrow> int) \<Rightarrow> 'a option \<Rightarrow> ('s \<Rightarrow> 'a \<Rightarrow> 's + 'r) \<Rightarrow> ('s \<Rightarrow> 'r) \<Rightarrow> int \<Rightarrow> 's \<Rightarrow>
     int \<Rightarrow> 'a list \<Rightarrow> 'r \<Rightarrow> bool" where
  "loop_run test handler eintr body finish start s flag as r \<longleftrightarrow>
     loop_steps test handler eintr body finish (start, [], At_test s) (flag, as, Left r)"

section \<open>What the recursion promises\<close>

text \<open>\<open>run\<close> has exactly the outcomes of the loop that starts with the flag \<open>start\<close>: a loop that was left
  has the outcome of the recursion on the answers it used, and every outcome of the recursion is one of
  the loop.\<close>

definition loop_outcomes ::
  "(int \<Rightarrow> bool) \<Rightarrow> (int \<Rightarrow> int) \<Rightarrow> 'a option \<Rightarrow> ('s \<Rightarrow> 'a \<Rightarrow> 's + 'r) \<Rightarrow> ('s \<Rightarrow> 'r) \<Rightarrow> int \<Rightarrow>
     ('s \<Rightarrow> 'a list \<Rightarrow> 'r) \<Rightarrow> bool" where
  "loop_outcomes test handler eintr body finish start run \<longleftrightarrow>
     (\<forall>s flag as r. loop_run test handler eintr body finish start s flag as r \<longrightarrow> r = run s as) \<and>
     (\<forall>s as. \<exists>flag as'. loop_run test handler eintr body finish start s flag as' (run s as))"

text \<open>The loop is not left without a reason, and is over soon after the handler has run: with the flag
  still set only the body can have left it; once the handler has run the body uses at most one more
  answer, and any answer brings the loop to its end.\<close>

definition stops_when_interrupted ::
  "(int \<Rightarrow> bool) \<Rightarrow> (int \<Rightarrow> int) \<Rightarrow> 'a option \<Rightarrow> ('s \<Rightarrow> 'a \<Rightarrow> 's + 'r) \<Rightarrow> ('s \<Rightarrow> 'r) \<Rightarrow> int \<Rightarrow> bool" where
  "stops_when_interrupted test handler eintr body finish start \<longleftrightarrow>
     (\<forall>s flag as r. loop_run test handler eintr body finish start s flag as r \<and> test flag \<longrightarrow>
        (\<exists>s' a. body s' a = Inr r)) \<and>
     (\<forall>flag as ph flag' as' ph'.
        loop_steps test handler eintr body finish (handler flag, as, ph) (flag', as', ph') \<longrightarrow>
        length as' \<le> Suc (length as)) \<and>
     (\<forall>flag as ph a. \<exists>as' r. set as' \<subseteq> {a} \<and>
        loop_steps test handler eintr body finish (handler flag, as, ph) (handler flag, as @ as', Left r))"

section \<open>The contract\<close>

locale interruptible_loop =
  fixes test :: "int \<Rightarrow> bool"
    and handler :: "int \<Rightarrow> int"
    and eintr :: "'a option"
    and body :: "'s \<Rightarrow> 'a \<Rightarrow> 's + 'r"
    and finish :: "'s \<Rightarrow> 'r"
    and start :: int
    and run :: "'s \<Rightarrow> 'a list \<Rightarrow> 'r"
  assumes start_set: "test start"
    and handler_clears: "\<not> test (handler flag)"
    and run_Nil: "run s [] = finish s"
    and run_Cons: "run s (a # as) = (case body s a of Inl s' \<Rightarrow> run s' as | Inr r \<Rightarrow> r)"
begin

text \<open>The outcome that is still to come after the answers used so far.\<close>

fun agrees :: "'s \<Rightarrow> ('s, 'a, 'r) loop_state \<Rightarrow> bool" where
  "agrees s0 (flag, as, Left r) \<longleftrightarrow> run s0 as = r"
| "agrees s0 (flag, as, At_test s) \<longleftrightarrow> (\<forall>more. run s0 (as @ more) = run s more)"
| "agrees s0 (flag, as, In_body s) \<longleftrightarrow> (\<forall>more. run s0 (as @ more) = run s more)"
| "agrees s0 (flag, as, In_call s) \<longleftrightarrow> (\<forall>more. run s0 (as @ more) = run s more)"

lemma agrees_answer:
  assumes "\<forall>more. run s0 (as @ more) = run s more"
  shows "agrees s0 (flag, as @ [a], after_call (body s a))"
  using spec [OF assms, of "a # more" for more] spec [OF assms, of "[a]"]
  by (cases "body s a") (simp_all add: run_Cons)

lemma agrees_flag: "agrees s0 (handler flag, as, ph) = agrees s0 (flag, as, ph)"
  by (cases ph) simp_all

lemma agrees_signal: "agrees s0 x \<Longrightarrow> agrees s0 (on_signal handler eintr body x)"
  by (cases "(handler, eintr, body, x)" rule: on_signal.cases) (auto intro: agrees_answer simp: agrees_flag)

lemma agrees_step:
  assumes "loop_step test handler eintr body finish x y" and "agrees s0 x"
  shows "agrees s0 y"
  using assms
proof (cases rule: loop_step.cases)
  case signal
  then show ?thesis using assms(2) by (simp add: agrees_signal)
next
  case (leave flag as s)
  with assms(2) have "\<forall>more. run s0 (as @ more) = run s more" by simp
  from spec [OF this, of "[]"] leave show ?thesis by (simp add: run_Nil)
next
  case (answer flag as s a)
  then show ?thesis using assms(2) by (simp add: agrees_answer)
qed (use assms(2) in simp_all)

lemma agrees_steps:
  "loop_steps test handler eintr body finish x y \<Longrightarrow> agrees s0 x \<Longrightarrow> agrees s0 y"
  by (induction rule: rtranclp_induct) (auto intro: agrees_step)

text \<open>Two runs: the handler runs before the loop, and after one iteration.\<close>

lemma signal_at_test:
  "loop_steps test handler eintr body finish (start, as, At_test s) (handler start, as, Left (finish s))"
proof -
  have "loop_step test handler eintr body finish (start, as, At_test s) (handler start, as, At_test s)"
    using signal [of test handler eintr body finish "(start, as, At_test s)"] by (cases eintr) simp_all
  then show ?thesis by (rule step_then [OF _ step_once [OF leave [of test, OF handler_clears]]])
qed

lemma signal_after_one:
  assumes "body s a = Inl s'"
  shows "loop_run test handler eintr body finish start s (handler start) [a] (finish s')"
  using rtranclp_trans [OF one_iteration [of test start, OF start_set, where s = s and a = a and body = body
      and handler = handler and eintr = eintr and finish = finish and as = "[]"]]
    signal_at_test [of "[a]" s'] assms by (simp add: loop_run_def)

text \<open>The schedule that lets the handler run after the last answer.\<close>

lemma left_reachable:
  "\<exists>flag as'. loop_steps test handler eintr body finish (start, pre, At_test s) (flag, as', Left (run s as))"
proof (induction as arbitrary: s pre)
  case Nil
  from signal_at_test [of pre s] show ?case by (auto simp: run_Nil)
next
  case (Cons a as)
  note once = one_iteration [of test start, OF start_set, where s = s and a = a and body = body
      and handler = handler and eintr = eintr and finish = finish and as = pre]
  show ?case
  proof (cases "body s a")
    case (Inl s')
    obtain flag as' where
      "loop_steps test handler eintr body finish (start, pre @ [a], At_test s') (flag, as', Left (run s' as))"
      using Cons.IH [of "pre @ [a]" s'] by blast
    from rtranclp_trans [OF once this [folded after_call.simps(1), folded Inl]] Inl
    show ?thesis by (simp add: run_Cons) blast
  next
    case (Inr r)
    then show ?thesis using once by (auto simp: run_Cons)
  qed
qed

theorem outcomes: "loop_outcomes test handler eintr body finish start run"
  using agrees_steps [of "(start, [], At_test s)" for s] left_reachable
  unfolding loop_outcomes_def loop_run_def by fastforce

lemma loop_run_result: "loop_run test handler eintr body finish start s flag as r \<Longrightarrow> r = run s as"
  using outcomes unfolding loop_outcomes_def by blast

text \<open>How many answers may still be used with the flag cleared.\<close>

fun pending :: "('s, 'a, 'r) loop_state \<Rightarrow> nat" where
  "pending (flag, as, At_test s) = length as"
| "pending (flag, as, Left r) = length as"
| "pending (flag, as, ph) = Suc (length as)"

lemma pending_bounds: "length as \<le> pending (flag, as, ph)" "pending (flag, as, ph) \<le> Suc (length as)"
  by (cases ph; simp)+

lemma pending_after: "pending (flag, as, after_call r) = length as"
  by (cases r) simp_all

lemma pending_flag: "pending (handler flag, as, ph) = pending (flag, as, ph)"
  by (cases ph) simp_all

lemma pending_signal:
  "\<not> test (fst (on_signal handler eintr body x)) \<and> pending (on_signal handler eintr body x) \<le> pending x"
  by (cases "(handler, eintr, body, x)" rule: on_signal.cases)
    (auto simp: handler_clears pending_after pending_flag)

lemma cleared_step:
  assumes "loop_step test handler eintr body finish x y" and "\<not> test (fst x)"
  shows "\<not> test (fst y) \<and> pending y \<le> pending x"
  using assms
proof (cases rule: loop_step.cases)
  case signal
  then show ?thesis using pending_signal [of x] by simp
qed (simp_all add: pending_after)

lemma cleared_steps:
  "loop_steps test handler eintr body finish x y \<Longrightarrow> \<not> test (fst x) \<Longrightarrow> \<not> test (fst y) \<and> pending y \<le> pending x"
  by (induction rule: rtranclp_induct) (auto dest!: cleared_step intro: order_trans)

lemma left_by_body:
  assumes "loop_steps test handler eintr body finish (start, [], At_test s) x"
  shows "test (fst x) \<longrightarrow> (\<forall>flag as r. x = (flag, as, Left r) \<longrightarrow> (\<exists>s' a. body s' a = Inr r))"
  using assms
proof (induction rule: rtranclp_induct)
  case (step y z)
  from step.hyps(2) show ?case
  proof (cases rule: loop_step.cases)
    case signal
    then show ?thesis using pending_signal [of y] by simp
  next
    case (answer flag as s a)
    then show ?thesis by (cases "body s a") auto
  qed (use step.IH in auto)
qed simp

text \<open>A result the body never gives is that of a loop left through its test, after the handler has run.\<close>

lemma left_by_test:
  assumes "loop_run test handler eintr body finish start s flag as r" and "\<And>s' a. body s' a \<noteq> Inr r"
  shows "\<not> test flag"
  using left_by_body [OF assms(1) [unfolded loop_run_def]] assms(2) by auto

lemma cleared_ends:
  assumes "\<not> test flag"
  shows "\<exists>as' r. set as' \<subseteq> {a} \<and> loop_steps test handler eintr body finish (flag, as, ph) (flag, as @ as', Left r)"
proof -
  let ?S = "loop_steps test handler eintr body finish"
  have after: "\<exists>r. ?S (flag, as, after_call x) (flag, as, Left r)" for x as
    using step_once [OF leave [of test flag, OF assms, where handler = handler and eintr = eintr and body = body
      and finish = finish and as = as]] by (cases x) auto
  have in_call: "\<exists>r. ?S (flag, as, In_call s) (flag, as @ [a], Left r)" for s
    using after step_then [OF answer] by metis
  show ?thesis
  proof (cases ph)
    case (At_test s)
    then show ?thesis using after [of as "Inl s"] by (intro exI [of _ "[]"]) auto
  next
    case (In_body s)
    then show ?thesis using in_call [of s] step_then [OF call [of test handler eintr body finish flag as s]]
      by (intro exI [of _ "[a]"]) auto
  next
    case (In_call s)
    then show ?thesis using in_call [of s] by (intro exI [of _ "[a]"]) auto
  next
    case (Left r)
    then show ?thesis by (intro exI [of _ "[]"]) auto
  qed
qed

theorem stops: "stops_when_interrupted test handler eintr body finish start"
proof -
  have few: "length as' \<le> Suc (length as)"
    if "loop_steps test handler eintr body finish (handler flag, as, ph) (flag', as', ph')"
    for as as' :: "'a list" and flag flag' and ph ph' :: "('s, 'r) phase"
    using cleared_steps [OF that] handler_clears pending_bounds(1) [of as' flag' ph']
      pending_bounds(2) [of "handler flag" as ph] by auto
  show ?thesis
    unfolding stops_when_interrupted_def loop_run_def
    using left_by_body few cleared_ends [OF handler_clears] by auto
qed

end

text \<open>The body of a loop whose step gives an outcome: a value goes on, an exit or undefined behaviour leaves.\<close>

fun outcome_body :: "'s outcome \<Rightarrow> 's + 't outcome" where
  "outcome_body (Ok s) = Inl s"
| "outcome_body (Exit c) = Inr (Exit c)"
| "outcome_body UB = Inr UB"

lemma outcome_body_not_Ok [simp]: "outcome_body x \<noteq> Inr (Ok s)"
  by (cases x) simp_all

end
