(* ===== verification/C_Library.thy ===== *)
theory C_Library
  imports Ib_Prelude
begin

text \<open>
  The parts of the C standard library that the sources call on their own data: the conversions
  \<^verbatim>\<open>%d\<close> and \<^verbatim>\<open>%x\<close> of \<^verbatim>\<open>printf\<close>, \<^verbatim>\<open>snprintf\<close> into a buffer, \<^verbatim>\<open>atoi\<close>, the
  division and remainder operators on \<^verbatim>\<open>int\<close>, which truncate towards zero, the
  cast of a 64-bit unsigned value to \<^verbatim>\<open>int\<close>, and a store at an offset of a buffer.
\<close>

section \<open>Number conversions\<close>

definition digit_char :: "nat \<Rightarrow> char" where
  "digit_char d = char_of (if d < 10 then 48 + d else 87 + d)"

fun num_string :: "nat \<Rightarrow> nat \<Rightarrow> string" where
  "num_string b n =
     (if n < b \<or> b < 2 then [digit_char n]
      else num_string b (n div b) @ [digit_char (n mod b)])"

declare num_string.simps [simp del]

definition fmt_d :: "int \<Rightarrow> string" where
  "fmt_d i = (if i < 0 then CHR ''-'' # num_string 10 (nat (- i)) else num_string 10 (nat i))"

definition fmt_x :: "nat \<Rightarrow> string" where
  "fmt_x n = num_string 16 n"

text \<open>The newline character of the printed texts.\<close>

definition nl :: string where "nl = [CHR 0x0A]"

lemma num_string_nonempty: "num_string b n \<noteq> []"
  by (subst num_string.simps) simp

lemma length_num_string_mono:
  "2 \<le> b \<Longrightarrow> n \<le> m \<Longrightarrow> length (num_string b n) \<le> length (num_string b m)"
proof (induction b m arbitrary: n rule: num_string.induct)
  case (1 b m)
  show ?case
  proof (cases "n < b")
    case True
    then show ?thesis
      using num_string_nonempty [of b m] by (subst num_string.simps [of b n]) (simp add: Suc_le_eq)
  next
    case False
    then have "\<not> m < b" using "1.prems" by simp
    with False "1.prems" "1.IH" [of "n div b"] show ?thesis
      by (simp add: num_string.simps [of b n] num_string.simps [of b m] div_le_mono)
  qed
qed

lemma length_num_string_le: "2 \<le> b \<Longrightarrow> n < b ^ k \<Longrightarrow> 0 < k \<Longrightarrow> length (num_string b n) \<le> k"
proof (induction k arbitrary: n)
  case (Suc k)
  show ?case
  proof (cases "n < b")
    case True
    then show ?thesis by (simp add: num_string.simps [of b n])
  next
    case False
    then have "0 < k" using Suc.prems by (cases k) auto
    moreover have "n div b < b ^ k"
      using Suc.prems by (simp add: less_mult_imp_div_less mult.commute)
    ultimately have "length (num_string b (n div b)) \<le> k" using Suc by simp
    with False Suc.prems(1) show ?thesis by (simp add: num_string.simps [of b n])
  qed
qed simp

section \<open>snprintf into a buffer\<close>

text \<open>\<open>snprintf_to dst n text\<close> writes at most \<open>n - 1\<close> characters and a terminating zero to the front
  of \<open>dst\<close> and returns the length of the whole text.\<close>

definition snprintf_to :: "byte list \<Rightarrow> nat \<Rightarrow> string \<Rightarrow> byte list \<times> int" where
  "snprintf_to dst n text =
     (if n = 0 then dst
      else (let out = map of_char (take (n - 1) text) @ [0] in out @ drop (length out) dst),
      int (length text))"

lemma length_snprintf_to:
  "n \<le> length dst \<Longrightarrow> length (fst (snprintf_to dst n text)) = length dst"
  by (auto simp: snprintf_to_def Let_def)

text \<open>The text every sender of the repository writes: \<^verbatim>\<open>"Message: %d"\<close>.\<close>

definition message_text :: "int \<Rightarrow> string" where
  "message_text count = ''Message: '' @ fmt_d count"

lemma length_message_text:
  assumes "0 \<le> count" and "count < 2 ^ 31"
  shows "length (message_text count) \<le> 19"
proof -
  have "nat count < 10 ^ 10" using assms by simp
  then have "length (num_string 10 (nat count)) \<le> 10"
    by (intro length_num_string_le) simp_all
  with assms show ?thesis by (simp add: message_text_def fmt_d_def)
qed

section \<open>atoi\<close>

text \<open>\<^verbatim>\<open>atoi\<close> skips white space, takes an optional sign and the longest run of digits; a value
  that does not fit an \<^verbatim>\<open>int\<close> is undefined.\<close>

definition is_digit :: "char \<Rightarrow> bool" where
  "is_digit c \<longleftrightarrow> 48 \<le> (of_char c :: nat) \<and> (of_char c :: nat) \<le> 57"

definition digits_value :: "string \<Rightarrow> int" where
  "digits_value s = foldl (\<lambda>v c. 10 * v + (of_char c - 48)) 0 s"

definition atoi_value :: "string \<Rightarrow> int" where
  "atoi_value s =
     (let t = dropWhile (\<lambda>c. (of_char c :: nat) = 32 \<or> 9 \<le> (of_char c :: nat) \<and> (of_char c :: nat) \<le> 13) s
      in case t of
           [] \<Rightarrow> 0
         | c # cs \<Rightarrow>
             if c = CHR ''-'' then - digits_value (takeWhile is_digit cs)
             else if c = CHR ''+'' then digits_value (takeWhile is_digit cs)
             else digits_value (takeWhile is_digit t))"

definition atoi :: "string \<Rightarrow> int outcome" where
  "atoi s = (if - (2 ^ 31) \<le> atoi_value s \<and> atoi_value s < 2 ^ 31 then Ok (atoi_value s) else UB)"

lemma of_char_digit_char: "d < 10 \<Longrightarrow> (of_char (digit_char d) :: nat) = 48 + d"
  by (simp add: digit_char_def)

lemma num_string_10_digits: "\<forall>c \<in> set (num_string 10 n). is_digit c"
proof (induction "10 :: nat" n rule: num_string.induct)
  case (1 n)
  then show ?case
    by (subst num_string.simps) (auto simp: is_digit_def of_char_digit_char)
qed

lemma digits_value_num_string: "digits_value (num_string 10 n) = int n"
proof (induction "10 :: nat" n rule: num_string.induct)
  case (1 n)
  have "(of_char (digit_char d) :: int) = 48 + int d" if "d < 10" for d
    using of_char_digit_char [OF that] by (metis of_nat_add of_nat_numeral of_nat_of_char)
  moreover have "10 * int (n div 10) + int (n mod 10) = int n" by presburger
  ultimately show ?case
    using 1 by (subst num_string.simps) (auto simp: digits_value_def)
qed

lemma atoi_fmt_d:
  assumes "- (2 ^ 31) \<le> i" and "i < 2 ^ 31"
  shows "atoi (fmt_d i) = Ok i"
proof -
  have tw: "takeWhile is_digit (num_string 10 n) = num_string 10 n" for n
    using num_string_10_digits [of n] by (simp add: takeWhile_eq_all_conv)
  have "atoi_value (num_string 10 n) = int n" for n
  proof -
    obtain c cs where ns: "num_string 10 n = c # cs"
      using num_string_nonempty [of 10 n] by (cases "num_string 10 n") auto
    then have "is_digit c" using num_string_10_digits [of n] by simp
    then have "\<not> ((of_char c :: nat) = 32 \<or> 9 \<le> (of_char c :: nat) \<and> (of_char c :: nat) \<le> 13)"
      and "c \<noteq> CHR ''-''" and "c \<noteq> CHR ''+''" by (auto simp: is_digit_def)
    with ns tw [of n] digits_value_num_string [of n] show ?thesis
      by (auto simp: atoi_value_def Let_def)
  qed
  moreover have "atoi_value (CHR ''-'' # num_string 10 n) = - int n" for n
    by (simp add: atoi_value_def tw digits_value_num_string)
  ultimately show ?thesis using assms by (simp add: atoi_def fmt_d_def)
qed

section \<open>Stores into a buffer\<close>

text \<open>The bytes \<open>bs\<close> written at offset \<open>off\<close>, inside the buffer.\<close>

definition store_at :: "nat \<Rightarrow> byte list \<Rightarrow> byte list \<Rightarrow> byte list" where
  "store_at off bs buf = take off buf @ bs @ drop (off + length bs) buf"

lemma length_store_at [simp]:
  "off + length bs \<le> length buf \<Longrightarrow> length (store_at off bs buf) = length buf"
  by (simp add: store_at_def)

lemma store_at_append:
  "length pre = off \<Longrightarrow> length old = length bs \<Longrightarrow> store_at off bs (pre @ old @ post) = pre @ bs @ post"
  by (simp add: store_at_def)

lemma store_at_skip: "store_at (length pre + k) bs (pre @ buf) = pre @ store_at k bs buf"
  by (simp add: store_at_def)

lemma store_at_front:
  "off + length bs \<le> length xs \<Longrightarrow> store_at off bs (xs @ ys) = store_at off bs xs @ ys"
  by (simp add: store_at_def)

section \<open>Division and remainder on int\<close>

definition c_div :: "int \<Rightarrow> int \<Rightarrow> int" where
  "c_div a b = sgn a * sgn b * (\<bar>a\<bar> div \<bar>b\<bar>)"

lemma c_div_nonneg: "0 \<le> a \<Longrightarrow> 0 < b \<Longrightarrow> c_div a b = a div b"
  by (cases "a = 0") (simp_all add: c_div_def)

definition c_rem :: "int \<Rightarrow> int \<Rightarrow> int" where
  "c_rem a b = sgn a * (\<bar>a\<bar> mod \<bar>b\<bar>)"

lemma c_rem_nonneg: "0 \<le> a \<Longrightarrow> 0 < b \<Longrightarrow> c_rem a b = a mod b"
  by (cases "a = 0") (simp_all add: c_rem_def)

section \<open>Conversions to int\<close>

text \<open>The cast \<^verbatim>\<open>(int) size\<close> of a 64-bit \<^verbatim>\<open>size_t\<close> keeps the low 32 bits, read as signed.\<close>

definition int_of_size :: "u64 \<Rightarrow> int" where
  "int_of_size sz = sint (ucast sz :: u32)"

lemma int_of_size_small: "unat sz < 2 ^ 31 \<Longrightarrow> int_of_size sz = int (unat sz)"
proof -
  assume "unat sz < 2 ^ 31"
  then have "int (unat sz) < int (2 ^ 31)" by (simp only: of_nat_less_iff)
  then have "uint sz < 2147483648" by simp
  then have "signed_take_bit 31 (uint sz) = uint sz"
    by (intro signed_take_bit_int_eq_self) (simp_all add: order.trans [OF _ uint_ge_0])
  then show ?thesis by (simp add: int_of_size_def signed_ucast_eq)
qed

text \<open>A size computed as a difference: the wrap-around of \<^verbatim>\<open>size_t\<close> and the cast to \<^verbatim>\<open>int\<close> give
  the signed difference.\<close>

lemma int_of_size_diff:
  assumes "m < 2 ^ 31" and "k \<le> 2 ^ 31" and "sz = word_of_nat m - word_of_nat k"
  shows "int_of_size sz = int m - int k"
proof -
  have "sz = word_of_int (int m - int k)" using assms(3) by simp
  then have "ucast sz = (ucast (word_of_int (int m - int k) :: u64) :: u32)" by simp
  also have "\<dots> = word_of_int (int m - int k)" by (rule ucast_down_wi) (simp add: is_down)
  finally have "ucast sz = (word_of_int (int m - int k) :: u32)" .
  then have "int_of_size sz = sint (word_of_int (int m - int k) :: u32)"
    by (simp only: int_of_size_def)
  also have "\<dots> = signed_take_bit 31 (int m - int k)" by (simp only: sint_sbintrunc') simp
  also have "\<dots> = int m - int k"
    using assms(1,2) by (intro signed_take_bit_int_eq_self) simp_all
  finally show ?thesis .
qed

end
