(* ===== verification/Crc32.thy ===== *)
theory Crc32
  imports C_Library
begin

text \<open>
  Model of \<^verbatim>\<open>src/crc32.h\<close>: the 256-entry table, the loop of \<^verbatim>\<open>crc32\<close> with its cast of the
  size to \<^verbatim>\<open>int\<close> and its reads through the data pointer, and the properties the packet code relies
  on. The table-driven loop computes the bitwise reflected CRC-32 (generator 0xEDB88320); checksums
  chain over concatenated buffers; every change confined to four consecutive bytes is detected;
  appending the checksum in little-endian order gives a constant residue. The two contracts that
  clients use are the locales \<open>stream_checksum\<close> and \<open>detecting_checksum\<close>.
\<close>

section \<open>Checksum interfaces\<close>

locale stream_checksum =
  fixes upd :: "'c \<Rightarrow> byte list \<Rightarrow> 'c"
  assumes upd_Nil: "upd c [] = c"
    and upd_append: "upd c (xs @ ys) = upd (upd c xs) ys"
begin

lemma upd_concat: "foldl upd c parts = upd c (concat parts)"
  by (induction parts arbitrary: c) (simp_all add: upd_Nil upd_append)

end

locale detecting_checksum = stream_checksum upd
  for upd :: "'c \<Rightarrow> byte list \<Rightarrow> 'c" +
  fixes window :: nat
  assumes upd_state_inj: "upd c xs = upd d xs \<Longrightarrow> c = d"
    and upd_window_inj: "length xs = length ys \<Longrightarrow> length xs \<le> window \<Longrightarrow>
      upd c xs = upd c ys \<Longrightarrow> xs = ys"
begin

lemma detects_burst:
  assumes "length xs = length ys" and "length xs \<le> window" and "xs \<noteq> ys"
  shows "upd c (pre @ xs @ post) \<noteq> upd c (pre @ ys @ post)"
proof
  assume "upd c (pre @ xs @ post) = upd c (pre @ ys @ post)"
  then have "upd (upd c pre) xs = upd (upd c pre) ys"
    by (auto simp: upd_append dest: upd_state_inj)
  with assms show False by (blast dest: upd_window_inj)
qed

end

section \<open>The table and the loop\<close>

definition crc32table :: "u32 list" where
  "crc32table =
     [0x00000000, 0x77073096, 0xEE0E612C, 0x990951BA,
      0x076DC419, 0x706AF48F, 0xE963A535, 0x9E6495A3,
      0x0EDB8832, 0x79DCB8A4, 0xE0D5E91E, 0x97D2D988,
      0x09B64C2B, 0x7EB17CBD, 0xE7B82D07, 0x90BF1D91,
      0x1DB71064, 0x6AB020F2, 0xF3B97148, 0x84BE41DE,
      0x1ADAD47D, 0x6DDDE4EB, 0xF4D4B551, 0x83D385C7,
      0x136C9856, 0x646BA8C0, 0xFD62F97A, 0x8A65C9EC,
      0x14015C4F, 0x63066CD9, 0xFA0F3D63, 0x8D080DF5,
      0x3B6E20C8, 0x4C69105E, 0xD56041E4, 0xA2677172,
      0x3C03E4D1, 0x4B04D447, 0xD20D85FD, 0xA50AB56B,
      0x35B5A8FA, 0x42B2986C, 0xDBBBC9D6, 0xACBCF940,
      0x32D86CE3, 0x45DF5C75, 0xDCD60DCF, 0xABD13D59,
      0x26D930AC, 0x51DE003A, 0xC8D75180, 0xBFD06116,
      0x21B4F4B5, 0x56B3C423, 0xCFBA9599, 0xB8BDA50F,
      0x2802B89E, 0x5F058808, 0xC60CD9B2, 0xB10BE924,
      0x2F6F7C87, 0x58684C11, 0xC1611DAB, 0xB6662D3D,
      0x76DC4190, 0x01DB7106, 0x98D220BC, 0xEFD5102A,
      0x71B18589, 0x06B6B51F, 0x9FBFE4A5, 0xE8B8D433,
      0x7807C9A2, 0x0F00F934, 0x9609A88E, 0xE10E9818,
      0x7F6A0DBB, 0x086D3D2D, 0x91646C97, 0xE6635C01,
      0x6B6B51F4, 0x1C6C6162, 0x856530D8, 0xF262004E,
      0x6C0695ED, 0x1B01A57B, 0x8208F4C1, 0xF50FC457,
      0x65B0D9C6, 0x12B7E950, 0x8BBEB8EA, 0xFCB9887C,
      0x62DD1DDF, 0x15DA2D49, 0x8CD37CF3, 0xFBD44C65,
      0x4DB26158, 0x3AB551CE, 0xA3BC0074, 0xD4BB30E2,
      0x4ADFA541, 0x3DD895D7, 0xA4D1C46D, 0xD3D6F4FB,
      0x4369E96A, 0x346ED9FC, 0xAD678846, 0xDA60B8D0,
      0x44042D73, 0x33031DE5, 0xAA0A4C5F, 0xDD0D7CC9,
      0x5005713C, 0x270241AA, 0xBE0B1010, 0xC90C2086,
      0x5768B525, 0x206F85B3, 0xB966D409, 0xCE61E49F,
      0x5EDEF90E, 0x29D9C998, 0xB0D09822, 0xC7D7A8B4,
      0x59B33D17, 0x2EB40D81, 0xB7BD5C3B, 0xC0BA6CAD,
      0xEDB88320, 0x9ABFB3B6, 0x03B6E20C, 0x74B1D29A,
      0xEAD54739, 0x9DD277AF, 0x04DB2615, 0x73DC1683,
      0xE3630B12, 0x94643B84, 0x0D6D6A3E, 0x7A6A5AA8,
      0xE40ECF0B, 0x9309FF9D, 0x0A00AE27, 0x7D079EB1,
      0xF00F9344, 0x8708A3D2, 0x1E01F268, 0x6906C2FE,
      0xF762575D, 0x806567CB, 0x196C3671, 0x6E6B06E7,
      0xFED41B76, 0x89D32BE0, 0x10DA7A5A, 0x67DD4ACC,
      0xF9B9DF6F, 0x8EBEEFF9, 0x17B7BE43, 0x60B08ED5,
      0xD6D6A3E8, 0xA1D1937E, 0x38D8C2C4, 0x4FDFF252,
      0xD1BB67F1, 0xA6BC5767, 0x3FB506DD, 0x48B2364B,
      0xD80D2BDA, 0xAF0A1B4C, 0x36034AF6, 0x41047A60,
      0xDF60EFC3, 0xA867DF55, 0x316E8EEF, 0x4669BE79,
      0xCB61B38C, 0xBC66831A, 0x256FD2A0, 0x5268E236,
      0xCC0C7795, 0xBB0B4703, 0x220216B9, 0x5505262F,
      0xC5BA3BBE, 0xB2BD0B28, 0x2BB45A92, 0x5CB36A04,
      0xC2D7FFA7, 0xB5D0CF31, 0x2CD99E8B, 0x5BDEAE1D,
      0x9B64C2B0, 0xEC63F226, 0x756AA39C, 0x026D930A,
      0x9C0906A9, 0xEB0E363F, 0x72076785, 0x05005713,
      0x95BF4A82, 0xE2B87A14, 0x7BB12BAE, 0x0CB61B38,
      0x92D28E9B, 0xE5D5BE0D, 0x7CDCEFB7, 0x0BDBDF21,
      0x86D3D2D4, 0xF1D4E242, 0x68DDB3F8, 0x1FDA836E,
      0x81BE16CD, 0xF6B9265B, 0x6FB077E1, 0x18B74777,
      0x88085AE6, 0xFF0F6A70, 0x66063BCA, 0x11010B5C,
      0x8F659EFF, 0xF862AE69, 0x616BFFD3, 0x166CCF45,
      0xA00AE278, 0xD70DD2EE, 0x4E048354, 0x3903B3C2,
      0xA7672661, 0xD06016F7, 0x4969474D, 0x3E6E77DB,
      0xAED16A4A, 0xD9D65ADC, 0x40DF0B66, 0x37D83BF0,
      0xA9BCAE53, 0xDEBB9EC5, 0x47B2CF7F, 0x30B5FFE9,
      0xBDBDF21C, 0xCABAC28A, 0x53B39330, 0x24B4A3A6,
      0xBAD03605, 0xCDD70693, 0x54DE5729, 0x23D967BF,
      0xB3667A2E, 0xC4614AB8, 0x5D681B02, 0x2A6F2B94,
      0xB40BBE37, 0xC30C8EA1, 0x5A05DF1B, 0x2D02EF8D]"

text \<open>The body of the loop: \<^verbatim>\<open>crc32table[(((int) crc) & 0xFF) ^ data[i]] ^ (crc >> 8)\<close>.\<close>

definition crc32_step :: "u32 \<Rightarrow> byte \<Rightarrow> u32" where
  "crc32_step crc d = crc32table ! unat ((crc AND 0xFF) XOR ucast d) XOR drop_bit 8 crc"

text \<open>
  The loop \<^verbatim>\<open>for (int i = 0; i < n; i++)\<close>; the pointer argument is the list of bytes that may be
  read through it, and a read past its end is undefined.
\<close>

function crc32_loop :: "int \<Rightarrow> int \<Rightarrow> byte list \<Rightarrow> u32 \<Rightarrow> u32 outcome" where
  "crc32_loop i n data crc =
     (if i < n then
        (if nat i < length data then crc32_loop (i + 1) n data (crc32_step crc (data ! nat i))
         else UB)
      else Ok crc)"
  by pat_completeness auto
termination
  by (relation "measure (\<lambda>(i, n, data, crc). nat (n - i))") auto

declare crc32_loop.simps [simp del]

definition crc32 :: "u32 \<Rightarrow> byte list \<Rightarrow> u64 \<Rightarrow> u32 outcome" where
  "crc32 crc data sz =
     bind_outcome (crc32_loop 0 (int_of_size sz) data (crc XOR 0xFFFFFFFF))
       (\<lambda>crc. Ok (crc XOR 0xFFFFFFFF))"

section \<open>The bitwise reference\<close>

text \<open>
  The textbook description of the reflected CRC-32: shift the register right by one bit and subtract
  the generator when a one falls out; absorb a byte by XOR into the low bits and eight shifts.
\<close>

definition crc_bit :: "u32 \<Rightarrow> u32" where
  "crc_bit c = (if bit c 0 then drop_bit 1 c XOR 0xEDB88320 else drop_bit 1 c)"

definition crc_adv :: "u32 \<Rightarrow> u32" where
  "crc_adv c = (crc_bit ^^ 8) c"

definition crc_byte :: "u32 \<Rightarrow> byte \<Rightarrow> u32" where
  "crc_byte c d = crc_adv (c XOR ucast d)"

definition crc32_spec :: "u32 \<Rightarrow> byte list \<Rightarrow> u32" where
  "crc32_spec c bs = foldl crc_byte (c XOR 0xFFFFFFFF) bs XOR 0xFFFFFFFF"

lemma crc_bit_xor: "crc_bit (a XOR b) = crc_bit a XOR crc_bit b"
  by (simp add: crc_bit_def bit_xor_iff drop_bit_xor ac_simps)

lemma crc_bit_inj: "crc_bit a = crc_bit b \<Longrightarrow> a = b"
proof -
  assume eq: "crc_bit a = crc_bit b"
  have top: "bit (crc_bit x) 31 = bit x 0" for x
    by (auto simp: crc_bit_def bit_simps dest: bit_imp_le_length)
  from eq top [of a] top [of b] have b0: "bit a 0 = bit b 0" by simp
  have "drop_bit 1 a = drop_bit 1 b"
  proof (cases "bit a 0")
    case True
    with eq b0 have "drop_bit 1 a XOR 0xEDB88320 = drop_bit 1 b XOR 0xEDB88320"
      by (simp add: crc_bit_def)
    then have "(drop_bit 1 a XOR 0xEDB88320) XOR 0xEDB88320
        = (drop_bit 1 b XOR 0xEDB88320) XOR (0xEDB88320 :: u32)" by simp
    then show ?thesis by (simp only: xor.assoc xor_self_eq xor.right_neutral)
  next
    case False
    with eq b0 show ?thesis by (simp add: crc_bit_def)
  qed
  then have "bit a (Suc n) = bit b (Suc n)" for n
    by (metis bit_drop_bit_eq comp_apply plus_1_eq_Suc)
  with b0 have "bit a n = bit b n" for n by (cases n) simp_all
  then show "a = b" by (simp add: bit_eq_iff)
qed

lemma crc_bit_pow_xor: "(crc_bit ^^ n) (a XOR b) = (crc_bit ^^ n) a XOR (crc_bit ^^ n) b"
  by (induction n) (simp_all add: crc_bit_xor)

lemma crc_bit_pow_shift:
  "(\<And>i. i < n \<Longrightarrow> \<not> bit x i) \<Longrightarrow> (crc_bit ^^ n) x = drop_bit n x"
proof (induction n)
  case (Suc n)
  then have "(crc_bit ^^ n) x = drop_bit n x" and "\<not> bit (drop_bit n x) 0"
    by (simp_all add: bit_drop_bit_eq)
  then show ?case by (simp add: crc_bit_def [of "drop_bit n x"])
qed simp

lemma crc_adv_xor: "crc_adv (a XOR b) = crc_adv a XOR crc_adv b"
  by (simp only: crc_adv_def crc_bit_pow_xor)

lemma crc_adv_shift: "(\<And>i. i < 8 \<Longrightarrow> \<not> bit x i) \<Longrightarrow> crc_adv x = drop_bit 8 x"
  unfolding crc_adv_def by (rule crc_bit_pow_shift)

lemma crc_adv_inj: "crc_adv a = crc_adv b \<Longrightarrow> a = b"
proof -
  have "inj crc_bit" by (rule injI) (rule crc_bit_inj)
  then have "inj (crc_bit ^^ 8)" by (rule inj_fn)
  then show "crc_adv a = crc_adv b \<Longrightarrow> a = b" by (simp add: crc_adv_def inj_eq)
qed

section \<open>The table holds the reference's values\<close>

text \<open>By linearity the table is built by doubling: entry \<open>2 ^ k + i\<close> is entry \<open>i\<close> XOR entry
  \<open>2 ^ k\<close>, so only the eight entries at powers of two are computed from the reference.\<close>

definition crc_table_upto :: "nat \<Rightarrow> u32 list" where
  "crc_table_upto k = map (\<lambda>i. crc_adv (word_of_nat i)) [0..<2 ^ k]"

lemma word_of_nat_plus_pow:
  "k < 32 \<Longrightarrow> i < 2 ^ k \<Longrightarrow> (word_of_nat (2 ^ k + i) :: u32) = 2 ^ k XOR word_of_nat i"
proof -
  assume "k < 32" and i: "i < 2 ^ k"
  have "\<not> bit i n \<or> n < k" for n
  proof (cases "n < k")
    case False
    then have "i < 2 ^ n" using i by (meson leI less_le_trans one_le_numeral power_increasing)
    then show ?thesis by (simp add: bit_iff_odd)
  qed simp
  then have "2 ^ k AND word_of_nat i = (0 :: u32)"
    by (intro bit_word_eqI) (auto simp: bit_simps)
  then show ?thesis by (simp add: disjunctive_add_eq_xor)
qed

lemma crc_table_upto_Suc:
  "k < 32 \<Longrightarrow> crc_table_upto (Suc k) =
     crc_table_upto k @ map (\<lambda>t. crc_adv (2 ^ k) XOR t) (crc_table_upto k)"
proof -
  assume k: "k < 32"
  have "[0..<2 ^ Suc k] = [0..<2 ^ k] @ map (\<lambda>i. 2 ^ k + i) [0..<2 ^ k]"
    by (simp add: map_add_upt upt_add_eq_append [symmetric] mult_2 add.commute)
  with k show ?thesis
    by (simp add: crc_table_upto_def word_of_nat_plus_pow crc_adv_xor comp_def del: of_nat_add)
qed


lemma crc_adv_unfold:
  "crc_adv c = crc_bit (crc_bit (crc_bit (crc_bit (crc_bit (crc_bit (crc_bit (crc_bit c)))))))"
  by (simp add: crc_adv_def eval_nat_numeral)

lemma crc_adv_pow2:
  "crc_adv 1 = 0x77073096" "crc_adv 2 = 0xEE0E612C" "crc_adv 4 = 0x076DC419"
  "crc_adv 8 = 0x0EDB8832" "crc_adv 16 = 0x1DB71064" "crc_adv 32 = 0x3B6E20C8"
  "crc_adv 64 = 0x76DC4190" "crc_adv 128 = 0xEDB88320"
  by (simp_all add: crc_adv_unfold crc_bit_def)

lemma crc_table_upto_8: "crc_table_upto 8 = crc32table"
proof -
  have "crc_table_upto 0 = [0]"
    by (simp add: crc_table_upto_def crc_adv_shift)
  then have t3: "crc_table_upto 3 = take 8 crc32table"
    using crc_table_upto_Suc [of 0] crc_table_upto_Suc [of 1] crc_table_upto_Suc [of 2]
    by (simp add: crc_adv_pow2 crc32table_def numeral_2_eq_2 numeral_3_eq_3)
  have t6: "crc_table_upto 6 = take 64 crc32table"
    using t3 crc_table_upto_Suc [of 3] crc_table_upto_Suc [of 4] crc_table_upto_Suc [of 5]
    by (simp add: crc_adv_pow2 crc32table_def)
  show ?thesis
    using t6 crc_table_upto_Suc [of 6] crc_table_upto_Suc [of 7]
    by (simp add: crc_adv_pow2 crc32table_def)
qed

lemma crc32table_eq: "crc32table = map (\<lambda>i. crc_adv (word_of_nat i)) [0..<256]"
  using crc_table_upto_8 by (simp add: crc_table_upto_def)

section \<open>The code computes the reference\<close>

lemma crc32table_nth: "i < 256 \<Longrightarrow> crc32table ! i = crc_adv (word_of_nat i)"
  by (simp add: crc32table_eq)

lemma crc32_step_eq: "crc32_step c d = crc_byte c d"
proof -
  let ?x = "c XOR ucast d :: u32"
  let ?lo = "?x AND 0xFF" and ?hi = "?x AND NOT 0xFF"
  have mask: "(0xFF :: u32) = mask 8" by (simp add: mask_eq_exp_minus_1)
  have idx: "(c AND 0xFF) XOR ucast d = ?lo"
    unfolding mask by (rule bit_word_eqI) (auto simp: bit_simps dest: bit_imp_le_length)
  have "unat ?lo \<le> unat (0xFF :: u32)"
    by (rule word_and_le1 [THEN word_le_nat_alt [THEN iffD1]])
  then have "crc32table ! unat ?lo = crc_adv ?lo" by (simp add: crc32table_nth)
  moreover have "drop_bit 8 c = crc_adv ?hi"
  proof -
    have "crc_adv ?hi = drop_bit 8 ?hi"
      unfolding mask by (rule crc_adv_shift) (simp add: bit_simps)
    also have "\<dots> = drop_bit 8 c"
      unfolding mask by (rule bit_word_eqI) (auto simp: bit_simps dest: bit_imp_le_length)
    finally show ?thesis by simp
  qed
  moreover have "?lo XOR ?hi = ?x"
    by (rule bit_word_eqI) (auto simp: bit_simps)
  ultimately show ?thesis
    by (simp only: crc32_step_def crc_byte_def idx flip: crc_adv_xor)
qed

lemma crc32_loop_none: "n \<le> i \<Longrightarrow> crc32_loop i n data c = Ok c"
  by (simp add: crc32_loop.simps)

lemma crc32_loop_eq:
  assumes "0 \<le> i" and "i \<le> n" and "nat n \<le> length data"
  shows "crc32_loop i n data c = Ok (foldl crc_byte c (drop (nat i) (take (nat n) data)))"
  using assms
proof (induction i n data c rule: crc32_loop.induct)
  case (1 i n data c)
  show ?case
  proof (cases "i < n")
    case True
    with "1.prems" have i: "nat i < length data" and i': "nat i < length (take (nat n) data)"
      by auto
    have "drop (nat i) (take (nat n) data)
        = data ! nat i # drop (nat (i + 1)) (take (nat n) data)"
      using i' "1.prems"(1) True Cons_nth_drop_Suc [OF i'] by (simp add: nat_add_distrib)
    with True i "1.IH" "1.prems" show ?thesis
      by (simp add: crc32_loop.simps [of i n] crc32_step_eq)
  next
    case False
    with "1.prems" show ?thesis by (simp add: crc32_loop_none)
  qed
qed

lemma crc32_loop_overrun:
  "0 \<le> i \<Longrightarrow> nat i \<le> length data \<Longrightarrow> int (length data) < n \<Longrightarrow> crc32_loop i n data c = UB"
proof (induction i n data c rule: crc32_loop.induct)
  case (1 i n data c)
  then show ?case
    by (cases "nat i < length data") (auto simp: crc32_loop.simps [of i n])
qed

lemma crc32_overrun: "int (length data) < int_of_size sz \<Longrightarrow> crc32 c data sz = UB"
  by (simp add: crc32_def crc32_loop_overrun)

lemma crc32_eq_spec:
  assumes "unat sz \<le> length data" and "unat sz < 2 ^ 31"
  shows "crc32 c data sz = Ok (crc32_spec c (take (unat sz) data))"
  using assms
  by (simp add: crc32_def int_of_size_small crc32_loop_eq crc32_spec_def)

lemma crc32_no_iterations: "int_of_size sz \<le> 0 \<Longrightarrow> crc32 c data sz = Ok c"
  by (simp add: crc32_def crc32_loop_none xor.assoc)

section \<open>Chaining and detection\<close>

lemma crc32_spec_Nil: "crc32_spec c [] = c"
  by (simp add: crc32_spec_def xor.assoc)

lemma crc32_spec_append: "crc32_spec c (xs @ ys) = crc32_spec (crc32_spec c xs) ys"
  by (simp add: crc32_spec_def xor.assoc)

lemma xor_right_cancel: "a XOR c = b XOR c \<longleftrightarrow> a = b" for a b c :: "'a::len word"
  by (metis xor.assoc xor.right_neutral xor_self_eq)

lemma foldl_crc_byte_state_inj: "foldl crc_byte c xs = foldl crc_byte d xs \<Longrightarrow> c = d"
proof (induction xs arbitrary: c d)
  case (Cons x xs)
  then have "crc_byte c x = crc_byte d x" by simp
  then show ?case by (auto simp: crc_byte_def xor_right_cancel dest: crc_adv_inj)
qed simp

text \<open>Up to four bytes act on the register as one word, the little-endian value of the bytes.\<close>

fun le_word :: "byte list \<Rightarrow> u32" where
  "le_word [] = 0"
| "le_word (x # xs) = ucast x XOR push_bit 8 (le_word xs)"

lemma bit_le_word: "bit (le_word xs) n \<Longrightarrow> n < 8 * length xs"
proof (induction xs arbitrary: n)
  case (Cons x xs)
  then consider "bit x n" | "8 \<le> n" "n < 32" "bit (le_word xs) (n - 8)"
    by (auto simp: bit_simps)
  then show ?case
    using Cons.IH [of "n - 8"] by cases (auto dest: bit_imp_le_length)
qed simp

lemma crc_adv_push_le_word:
  "length xs < 4 \<Longrightarrow> crc_adv (push_bit 8 (le_word xs)) = le_word xs"
proof -
  assume "length xs < 4"
  then have "drop_bit 8 (push_bit 8 (le_word xs)) = le_word xs"
    by (intro bit_word_eqI) (auto simp: bit_simps dest: bit_le_word)
  then show ?thesis by (subst crc_adv_shift) (auto simp: bit_simps)
qed

lemma foldl_crc_byte_le_word:
  "length xs \<le> 4 \<Longrightarrow> foldl crc_byte c xs = (crc_adv ^^ length xs) (c XOR le_word xs)"
proof (induction xs arbitrary: c)
  case (Cons x xs)
  then have "foldl crc_byte c (x # xs)
      = (crc_adv ^^ length xs) (crc_adv (c XOR ucast x) XOR le_word xs)"
    by (simp add: crc_byte_def [of c])
  also have "crc_adv (c XOR ucast x) XOR le_word xs = crc_adv (c XOR le_word (x # xs))"
    using Cons.prems by (simp add: crc_adv_xor crc_adv_push_le_word xor.assoc)
  finally show ?case by (simp add: funpow_swap1)
qed simp

lemma le_word_inj:
  "length xs = length ys \<Longrightarrow> length xs \<le> 4 \<Longrightarrow> le_word xs = le_word ys \<Longrightarrow> xs = ys"
proof (induction xs ys rule: list_induct2)
  case (Cons x xs y ys)
  let ?u = "le_word (x # xs)" and ?v = "le_word (y # ys)"
  have low: "ucast (le_word (z # zs)) = z" for z zs
    by (rule bit_word_eqI) (auto simp: bit_simps)
  have high: "length zs < 4 \<Longrightarrow> drop_bit 8 (le_word (z # zs)) = le_word zs" for z zs
    by (rule bit_word_eqI) (auto simp: bit_simps dest: bit_le_word dest: bit_imp_le_length)
  have "x = y" using low [of x xs] low [of y ys] Cons.prems(2) by simp
  moreover have "le_word xs = le_word ys"
    using high [of xs x] high [of ys y] Cons.prems Cons.hyps by (simp only: length_Cons)
  ultimately show ?case using Cons.IH Cons.prems(1) by simp
qed simp

lemma crc_adv_pow_inj: "(crc_adv ^^ n) a = (crc_adv ^^ n) b \<Longrightarrow> a = b"
  by (induction n) (auto dest: crc_adv_inj)

interpretation crc: detecting_checksum crc32_spec 4
proof unfold_locales
  show "crc32_spec c [] = c" for c by (rule crc32_spec_Nil)
  show "crc32_spec c (xs @ ys) = crc32_spec (crc32_spec c xs) ys" for c xs ys
    by (rule crc32_spec_append)
  show "crc32_spec c xs = crc32_spec d xs \<Longrightarrow> c = d" for c d xs
    by (auto simp: crc32_spec_def xor_right_cancel dest: foldl_crc_byte_state_inj)
  fix c and xs ys :: "byte list"
  assume len: "length xs = length ys" "length xs \<le> 4" and "crc32_spec c xs = crc32_spec c ys"
  then have "(crc_adv ^^ length xs) ((c XOR 0xFFFFFFFF) XOR le_word xs)
      = (crc_adv ^^ length xs) ((c XOR 0xFFFFFFFF) XOR le_word ys)"
    by (simp add: crc32_spec_def foldl_crc_byte_le_word xor_right_cancel)
  then have "le_word xs = le_word ys"
    by (metis crc_adv_pow_inj xor.commute xor_right_cancel)
  with len show "xs = ys" by (simp add: le_word_inj)
qed

lemma le_word_le32: "le_word (le32 w) = w"
proof (rule bit_word_eqI)
  fix n assume n: "n < LENGTH(32)"
  have "n < 24 \<or> (\<exists>k. n = 24 + k)" by presburger
  with n show "bit (le_word (le32 w)) n = bit w n"
    by (auto simp: le32_def bit_simps)
qed

lemma crc32_spec_residue: "crc32_spec c (bs @ le32 (crc32_spec c bs)) = 0x2144DF1C"
proof -
  let ?s = "foldl crc_byte (c XOR 0xFFFFFFFF) bs"
  have "crc32_spec c (bs @ le32 (crc32_spec c bs))
      = foldl crc_byte ?s (le32 (?s XOR 0xFFFFFFFF)) XOR 0xFFFFFFFF"
    by (simp add: crc32_spec_def)
  also have "foldl crc_byte ?s (le32 (?s XOR 0xFFFFFFFF)) = (crc_adv ^^ 4) 0xFFFFFFFF"
    by (simp add: foldl_crc_byte_le_word le_word_le32 flip: xor.assoc)
  also have "(crc_adv ^^ 4) 0xFFFFFFFF = 0xDEBB20E3"
  proof -
    have "crc_adv 0xFFFFFFFF = 0x2DFD1072" by (simp add: crc_adv_unfold crc_bit_def)
    moreover have "crc_adv 0x2DFD1072 = 0xBE26ED00" by (simp add: crc_adv_unfold crc_bit_def)
    moreover have "crc_adv 0xBE26ED00 = 0xBE26ED" by (simp add: crc_adv_unfold crc_bit_def)
    moreover have "crc_adv 0xBE26ED = 0xDEBB20E3" by (simp add: crc_adv_unfold crc_bit_def)
    ultimately show ?thesis by (simp add: eval_nat_numeral)
  qed
  finally show ?thesis by simp
qed

lemma crc32_total:
  "crc32 c data sz =
     (if int_of_size sz \<le> int (length data)
      then Ok (crc32_spec c (take (nat (int_of_size sz)) data)) else UB)"
proof -
  consider "int_of_size sz \<le> 0" | "0 < int_of_size sz" "int_of_size sz \<le> int (length data)"
    | "int (length data) < int_of_size sz" by linarith
  then show ?thesis
  proof cases
    case 1
    then show ?thesis by (simp add: crc32_no_iterations crc32_spec_Nil)
  next
    case 2
    then show ?thesis by (simp add: crc32_def crc32_loop_eq crc32_spec_def)
  next
    case 3
    then show ?thesis by (simp add: crc32_overrun)
  qed
qed

section \<open>Properties\<close>

text \<open>C1: for every start value, readable buffer and 64-bit size, the table-driven \<^verbatim>\<open>crc32\<close>
  returns the bitwise reflected CRC-32 of the bytes its loop visits, which are the first
  \<^verbatim>\<open>(int) size\<close> bytes of the buffer (none when the cast is negative), and it reads outside the
  buffer exactly when that number exceeds the buffer's length.\<close>

theorem crc32_correct:
  "crc32 c data sz =
     (if int_of_size sz \<le> int (length data)
      then Ok (crc32_spec c (take (nat (int_of_size sz)) data)) else UB)"
  by (rule crc32_total)

text \<open>Two buffers of equal length that differ only inside one window of at most four bytes never
  have the same checksum, whatever precedes and follows the window.\<close>

theorem crc32_detects_burst:
  assumes "length xs = length ys" and "length xs \<le> 4" and "xs \<noteq> ys"
    and "unat sz = length (pre @ xs @ post)" and "unat sz < 2 ^ 31"
  shows "crc32 c (pre @ xs @ post) sz \<noteq> crc32 c (pre @ ys @ post) sz"
  using assms crc.detects_burst [of xs ys c pre post] by (simp add: crc32_eq_spec)

theorem crc32_detects_burst_witness:
  "crc32 0 ([1, 2] @ [3, 4] @ [5]) 5 \<noteq> crc32 0 ([1, 2] @ [3, 5] @ [5]) 5"
  by (rule crc32_detects_burst) simp_all

text \<open>Running \<^verbatim>\<open>crc32\<close> over a buffer followed by the little-endian bytes of its checksum gives
  the constant residue 0x2144DF1C, the test a receiver applies.\<close>

theorem crc32_residue:
  assumes "crc32 c data sz = Ok r" and "unat sz = length data" and "length data + 4 < 2 ^ 31"
  shows "crc32 c (data @ le32 r) (sz + 4) = Ok 0x2144DF1C"
proof -
  have r: "r = crc32_spec c data" using assms by (simp add: crc32_eq_spec)
  have "unat (sz + 4) = length (data @ le32 r)"
    using assms by (simp add: unat_word_ariths)
  then show ?thesis using assms(3) by (simp add: crc32_eq_spec r crc32_spec_residue)
qed

theorem crc32_residue_witness:
  "crc32 0 [] 0 = Ok 0 \<and> crc32 0 ([] @ le32 0) (0 + 4) = Ok 0x2144DF1C"
proof -
  have "crc32 0 [] 0 = Ok 0" by (simp add: crc32_no_iterations int_of_size_def)
  then show ?thesis using crc32_residue [of 0 "[]" 0 0] by simp
qed

end
