(* ===== verification/Raw_Packet.thy ===== *)
theory Raw_Packet
  imports C_Library
begin

text \<open>
  Model of \<^verbatim>\<open>src/raw_packet.h\<close> and \<^verbatim>\<open>src/raw_packet.c\<close>: the packed header structs with their
  bit-fields (allocated from the least significant bit, as on every little-endian ABI the header
  accepts), their object representations, and the functions that print them. The locale
  \<open>wire_codec\<close> is the contract of a packed struct: a fixed size and a two-sided round trip between
  values and bytes; \<open>codec_pair\<close> lays two structs out one after the other.
\<close>

section \<open>Packed structs as codecs\<close>

locale wire_codec =
  fixes enc :: "'a \<Rightarrow> byte list"
    and dec :: "byte list \<Rightarrow> 'a"
    and wf :: "'a \<Rightarrow> bool"
    and width :: nat
  assumes enc_length: "wf x \<Longrightarrow> length (enc x) = width"
    and dec_enc: "wf x \<Longrightarrow> dec (enc x) = x"
    and dec_wf: "length bs = width \<Longrightarrow> wf (dec bs)"
    and enc_dec: "length bs = width \<Longrightarrow> enc (dec bs) = bs"
begin

lemma enc_inj: "wf x \<Longrightarrow> wf y \<Longrightarrow> enc x = enc y \<Longrightarrow> x = y"
  using dec_enc by metis

lemma enc_surj: "length bs = width \<Longrightarrow> \<exists>x. wf x \<and> enc x = bs"
  using dec_wf enc_dec by blast

end

locale codec_pair =
  a: wire_codec enc_a dec_a wf_a width_a + b: wire_codec enc_b dec_b wf_b width_b
  for enc_a :: "'a \<Rightarrow> byte list" and dec_a wf_a width_a
    and enc_b :: "'b \<Rightarrow> byte list" and dec_b wf_b width_b +
  fixes mk :: "'a \<Rightarrow> 'b \<Rightarrow> 'c" and part_a :: "'c \<Rightarrow> 'a" and part_b :: "'c \<Rightarrow> 'b"
  assumes mk_parts: "mk (part_a z) (part_b z) = z"
    and part_a_mk: "part_a (mk x y) = x"
    and part_b_mk: "part_b (mk x y) = y"
begin

lemma pair_codec:
  "wire_codec (\<lambda>z. enc_a (part_a z) @ enc_b (part_b z))
     (\<lambda>bs. mk (dec_a (take width_a bs)) (dec_b (drop width_a bs)))
     (\<lambda>z. wf_a (part_a z) \<and> wf_b (part_b z)) (width_a + width_b)"
  by unfold_locales
    (auto simp: mk_parts part_a_mk part_b_mk a.enc_length b.enc_length a.dec_enc b.dec_enc
      a.dec_wf b.dec_wf a.enc_dec b.enc_dec)

end

section \<open>Sizes\<close>

definition MSG_SIZE :: nat where "MSG_SIZE = 8940"
definition ETH_ALEN :: nat where "ETH_ALEN = 6"
definition sizeof_in6_addr :: nat where "sizeof_in6_addr = 16"

declare MSG_SIZE_def [layout_simps] ETH_ALEN_def [layout_simps] sizeof_in6_addr_def [layout_simps]

section \<open>Header structs\<close>

text \<open>The Global Routing Header. The multi-byte members hold network-order values; \<open>source\<close> and
  \<open>dest\<close> are arrays of sixteen bytes.\<close>

record ib_grh =
  traffic_class_p1 :: "4 word"
  ip_version :: "4 word"
  traffic_class_p2 :: "4 word"
  flow_label :: "20 word"
  payload_length :: u16
  next_header :: byte
  hop_limit :: byte
  source :: "byte list"
  dest :: "byte list"

text \<open>The Base Transport Header.\<close>

record ib_bth =
  opcode :: byte
  transport_hdr_version :: "4 word"
  pad_count :: "2 word"
  migration_request :: "1 word"
  sollicited_event :: "1 word"
  partition_key :: u16
  reserved1 :: byte
  destination_qp :: "24 word"
  acknowledge_req :: "1 word"
  reserved2 :: "7 word"
  packet_sequence :: "24 word"

text \<open>The Datagram Extended Transport Header.\<close>

record ib_deth =
  queue_key :: u32
  reserved :: byte
  source_qp :: "24 word"

record ib_headers =
  grh :: ib_grh
  bth :: ib_bth
  deth :: ib_deth

text \<open>\<^verbatim>\<open>struct ethhdr\<close> of \<^verbatim>\<open>netinet/if_ether.h\<close>, as the sources use it, and the full packet.\<close>

record ethhdr =
  h_dest :: "byte list"
  h_source :: "byte list"
  h_proto :: u16

record packet =
  ether_header :: ethhdr
  ib_header :: ib_headers
  data :: "byte list"

section \<open>Object representations\<close>

definition grh_word :: "ib_grh \<Rightarrow> u32" where
  "grh_word h = ucast (traffic_class_p1 h) OR push_bit 4 (ucast (ip_version h))
     OR push_bit 8 (ucast (traffic_class_p2 h)) OR push_bit 12 (ucast (flow_label h))"

definition grh_bytes :: "ib_grh \<Rightarrow> byte list" where
  "grh_bytes h = le32 (grh_word h) @ le16 (payload_length h) @ [next_header h, hop_limit h]
     @ source h @ dest h"

definition bth_flags :: "ib_bth \<Rightarrow> byte" where
  "bth_flags h = ucast (transport_hdr_version h) OR push_bit 4 (ucast (pad_count h))
     OR push_bit 6 (ucast (migration_request h)) OR push_bit 7 (ucast (sollicited_event h))"

definition bth_qp_word :: "ib_bth \<Rightarrow> u32" where
  "bth_qp_word h = ucast (reserved1 h) OR push_bit 8 (ucast (destination_qp h))"

definition bth_psn_word :: "ib_bth \<Rightarrow> u32" where
  "bth_psn_word h = ucast (acknowledge_req h) OR push_bit 1 (ucast (reserved2 h))
     OR push_bit 8 (ucast (packet_sequence h))"

definition bth_bytes :: "ib_bth \<Rightarrow> byte list" where
  "bth_bytes h = [opcode h, bth_flags h] @ le16 (partition_key h) @ le32 (bth_qp_word h)
     @ le32 (bth_psn_word h)"

definition deth_word :: "ib_deth \<Rightarrow> u32" where
  "deth_word h = ucast (reserved h) OR push_bit 8 (ucast (source_qp h))"

definition deth_bytes :: "ib_deth \<Rightarrow> byte list" where
  "deth_bytes h = le32 (queue_key h) @ le32 (deth_word h)"

definition headers_bytes :: "ib_headers \<Rightarrow> byte list" where
  "headers_bytes h = grh_bytes (grh h) @ bth_bytes (bth h) @ deth_bytes (deth h)"

definition eth_bytes :: "ethhdr \<Rightarrow> byte list" where
  "eth_bytes h = h_dest h @ h_source h @ le16 (h_proto h)"

definition packet_bytes :: "packet \<Rightarrow> byte list" where
  "packet_bytes p = eth_bytes (ether_header p) @ headers_bytes (ib_header p) @ data p"

text \<open>The arrays inside the structs have their declared lengths.\<close>

definition wf_grh :: "ib_grh \<Rightarrow> bool" where
  "wf_grh h \<longleftrightarrow> length (source h) = 16 \<and> length (dest h) = 16"

definition wf_headers :: "ib_headers \<Rightarrow> bool" where
  "wf_headers h \<longleftrightarrow> wf_grh (grh h)"

definition wf_eth :: "ethhdr \<Rightarrow> bool" where
  "wf_eth h \<longleftrightarrow> length (h_dest h) = ETH_ALEN \<and> length (h_source h) = ETH_ALEN"

definition wf_packet :: "packet \<Rightarrow> bool" where
  "wf_packet p \<longleftrightarrow> wf_eth (ether_header p) \<and> wf_headers (ib_header p) \<and> length (data p) = MSG_SIZE"

section \<open>Reading the structs back from memory\<close>

definition grh_of_bytes :: "byte list \<Rightarrow> ib_grh" where
  "grh_of_bytes bs =
     (let w = of_le32 (take 4 bs) in
      \<lparr>traffic_class_p1 = ucast w, ip_version = ucast (drop_bit 4 w),
       traffic_class_p2 = ucast (drop_bit 8 w), flow_label = ucast (drop_bit 12 w),
       payload_length = of_le16 (take 2 (drop 4 bs)), next_header = bs ! 6, hop_limit = bs ! 7,
       source = take 16 (drop 8 bs), dest = drop 24 bs\<rparr>)"

definition bth_of_bytes :: "byte list \<Rightarrow> ib_bth" where
  "bth_of_bytes bs =
     (let f = bs ! 1; q = of_le32 (take 4 (drop 4 bs)); s = of_le32 (drop 8 bs) in
      \<lparr>opcode = bs ! 0, transport_hdr_version = ucast f, pad_count = ucast (drop_bit 4 f),
       migration_request = ucast (drop_bit 6 f), sollicited_event = ucast (drop_bit 7 f),
       partition_key = of_le16 (take 2 (drop 2 bs)), reserved1 = ucast q,
       destination_qp = ucast (drop_bit 8 q), acknowledge_req = ucast s,
       reserved2 = ucast (drop_bit 1 s), packet_sequence = ucast (drop_bit 8 s)\<rparr>)"

definition deth_of_bytes :: "byte list \<Rightarrow> ib_deth" where
  "deth_of_bytes bs =
     (let w = of_le32 (drop 4 bs) in
      \<lparr>queue_key = of_le32 (take 4 bs), reserved = ucast w, source_qp = ucast (drop_bit 8 w)\<rparr>)"

definition headers_of_bytes :: "byte list \<Rightarrow> ib_headers" where
  "headers_of_bytes bs =
     \<lparr>grh = grh_of_bytes (take 40 bs), bth = bth_of_bytes (take 12 (drop 40 bs)),
      deth = deth_of_bytes (drop 12 (drop 40 bs))\<rparr>"

definition eth_of_bytes :: "byte list \<Rightarrow> ethhdr" where
  "eth_of_bytes bs = \<lparr>h_dest = take 6 bs, h_source = take 6 (drop 6 bs), h_proto = of_le16 (drop 12 bs)\<rparr>"

definition packet_of_bytes :: "byte list \<Rightarrow> packet" where
  "packet_of_bytes bs =
     \<lparr>ether_header = eth_of_bytes (take 14 bs), ib_header = headers_of_bytes (take 60 (drop 14 bs)),
      data = drop 60 (drop 14 bs)\<rparr>"

section \<open>Printing\<close>

text \<open>The text the printing functions write to standard output. \<open>ntop\<close> stands for
  \<^verbatim>\<open>inet_ntop(AF_INET6, ...)\<close>.\<close>

definition print_grh :: "(byte list \<Rightarrow> string) \<Rightarrow> ib_grh \<Rightarrow> string" where
  "print_grh ntop hdr =
     ''IP Version: '' @ fmt_d (uint (ip_version hdr)) @ nl
     @ ''Traffic class 1: '' @ fmt_x (unat (traffic_class_p1 hdr)) @ nl
     @ ''Traffic class 2: '' @ fmt_x (unat (traffic_class_p2 hdr)) @ nl
     @ ''Flow label: '' @ fmt_x (unat (flow_label hdr)) @ nl
     @ ''Length: '' @ fmt_d (uint (ntohs (payload_length hdr))) @ nl
     @ ''Next header: '' @ fmt_d (uint (next_header hdr)) @ nl
     @ ''Hop limit: '' @ fmt_d (uint (hop_limit hdr)) @ nl
     @ ''Source: '' @ ntop (source hdr) @ nl
     @ ''Dest: '' @ ntop (dest hdr) @ nl"

definition print_bth :: "ib_bth \<Rightarrow> string" where
  "print_bth hdr =
     ''Opcode: 0x'' @ fmt_x (unat (opcode hdr)) @ nl
     @ ''Sollicited: '' @ fmt_d (uint (sollicited_event hdr)) @ nl
     @ ''Migration req: '' @ fmt_d (uint (migration_request hdr)) @ nl
     @ ''Pad count: '' @ fmt_d (uint (pad_count hdr)) @ nl
     @ ''Header version: '' @ fmt_d (uint (transport_hdr_version hdr)) @ nl
     @ ''Partition key: '' @ fmt_d (uint (ntohs (partition_key hdr))) @ nl
     @ ''Destination QP: 0x'' @ fmt_x (unat (drop_bit 8 (ntohl (ucast (destination_qp hdr))))) @ nl
     @ ''Acknowledge req: '' @ fmt_d (uint (acknowledge_req hdr)) @ nl
     @ ''Packet sequence number: '' @ fmt_d (uint (packet_sequence hdr)) @ nl"

definition print_deth :: "ib_deth \<Rightarrow> string" where
  "print_deth hdr =
     ''Queue key: 0x'' @ fmt_x (unat (ntohl (queue_key hdr))) @ nl
     @ ''Source QP: 0x'' @ fmt_x (unat (drop_bit 8 (ntohl (ucast (source_qp hdr))))) @ nl"

definition print_ib_headers :: "(byte list \<Rightarrow> string) \<Rightarrow> ib_headers \<Rightarrow> string" where
  "print_ib_headers ntop hdr =
     print_grh ntop (grh hdr) @ nl @ print_bth (bth hdr) @ nl @ print_deth (deth hdr)"

section \<open>The structs are codecs\<close>

lemma grh_word_fields:
  "ucast (grh_word h) = traffic_class_p1 h" "ucast (drop_bit 4 (grh_word h)) = ip_version h"
  "ucast (drop_bit 8 (grh_word h)) = traffic_class_p2 h"
  "ucast (drop_bit 12 (grh_word h)) = flow_label h"
  unfolding grh_word_def
  by (rule bit_word_eqI, force simp: bit_simps dest: bit_imp_le_length)+

lemma bth_flags_fields:
  "ucast (bth_flags h) = transport_hdr_version h" "ucast (drop_bit 4 (bth_flags h)) = pad_count h"
  "ucast (drop_bit 6 (bth_flags h)) = migration_request h"
  "ucast (drop_bit 7 (bth_flags h)) = sollicited_event h"
  unfolding bth_flags_def
  by (rule bit_word_eqI, force simp: bit_simps dest: bit_imp_le_length)+

lemma bth_word_fields:
  "ucast (bth_qp_word h) = reserved1 h" "ucast (drop_bit 8 (bth_qp_word h)) = destination_qp h"
  "ucast (bth_psn_word h) = acknowledge_req h" "ucast (drop_bit 1 (bth_psn_word h)) = reserved2 h"
  "ucast (drop_bit 8 (bth_psn_word h)) = packet_sequence h"
proof -
  show "ucast (bth_qp_word h) = reserved1 h" "ucast (drop_bit 8 (bth_qp_word h)) = destination_qp h"
    unfolding bth_qp_word_def
    by (rule bit_word_eqI, force simp: bit_simps dest: bit_imp_le_length)+
  show "ucast (bth_psn_word h) = acknowledge_req h"
    unfolding bth_psn_word_def
    by (rule bit_word_eqI) (auto simp: bit_simps bit_times_2 dest: bit_imp_le_length)
  show "ucast (drop_bit 1 (bth_psn_word h)) = reserved2 h"
    unfolding bth_psn_word_def
    by (rule bit_word_eqI) (auto simp: bit_simps bit_times_2 dest: bit_imp_le_length)
  show "ucast (drop_bit 8 (bth_psn_word h)) = packet_sequence h"
    unfolding bth_psn_word_def
    by (rule bit_word_eqI) (auto simp: bit_simps bit_times_2 dest: bit_imp_le_length)
qed

lemma deth_word_fields:
  "ucast (deth_word h) = reserved h" "ucast (drop_bit 8 (deth_word h)) = source_qp h"
  unfolding deth_word_def
  by (rule bit_word_eqI, force simp: bit_simps dest: bit_imp_le_length)+

text \<open>In the other direction every word is the combination of its fields.\<close>

lemma grh_word_of_fields:
  "ucast (ucast w :: 4 word) OR push_bit 4 (ucast (ucast (drop_bit 4 w) :: 4 word))
     OR push_bit 8 (ucast (ucast (drop_bit 8 w) :: 4 word))
     OR push_bit 12 (ucast (ucast (drop_bit 12 w) :: 20 word)) = (w :: u32)" (is "?l = w")
proof (rule bit_word_eqI)
  fix n assume n: "n < LENGTH(32)"
  have "n < 4 \<or> (\<exists>k<4. n = 4 + k) \<or> (\<exists>k<4. n = 8 + k) \<or> (\<exists>k. n = 12 + k)" by presburger
  with n show "bit ?l n = bit w n"
    by (elim disjE exE conjE) (simp_all add: bit_simps)
qed

lemma qp_word_of_fields:
  "ucast (ucast w :: byte) OR push_bit 8 (ucast (ucast (drop_bit 8 w) :: 24 word)) = (w :: u32)"
  (is "?l = w")
proof (rule bit_word_eqI)
  fix n assume n: "n < LENGTH(32)"
  have "n < 8 \<or> (\<exists>k. n = 8 + k)" by presburger
  with n show "bit ?l n = bit w n"
    by (elim disjE exE conjE) (simp_all add: bit_simps)
qed

lemma psn_word_of_fields:
  "ucast (ucast w :: 1 word) OR push_bit 1 (ucast (ucast (drop_bit 1 w) :: 7 word))
     OR push_bit 8 (ucast (ucast (drop_bit 8 w) :: 24 word)) = (w :: u32)" (is "?l = w")
proof (rule bit_word_eqI)
  fix n assume n: "n < LENGTH(32)"
  have "n = 0 \<or> (\<exists>k<7. n = Suc k) \<or> (\<exists>k. n = 8 + k)" by presburger
  with n show "bit ?l n = bit w n"
    by (elim disjE exE conjE)
      (simp_all add: bit_simps bit_times_2)
qed

lemma flags_of_fields:
  "ucast (ucast w :: 4 word) OR push_bit 4 (ucast (ucast (drop_bit 4 w) :: 2 word))
     OR push_bit 6 (ucast (ucast (drop_bit 6 w) :: 1 word))
     OR push_bit 7 (ucast (ucast (drop_bit 7 w) :: 1 word)) = (w :: byte)" (is "?l = w")
proof (rule bit_word_eqI)
  fix n assume n: "n < LENGTH(8)"
  then have "n < 4 \<or> n = 4 \<or> n = 5 \<or> n = 6 \<or> n = 7" by auto
  then show "bit ?l n = bit w n"
    by (elim disjE) (simp_all add: bit_simps)
qed

interpretation grh_codec: wire_codec grh_bytes grh_of_bytes wf_grh 40
proof unfold_locales
  fix x assume "wf_grh x"
  then show "length (grh_bytes x) = 40" and "grh_of_bytes (grh_bytes x) = x"
    by (auto simp: wf_grh_def grh_bytes_def grh_of_bytes_def grh_word_fields Let_def nth_append)
next
  fix bs :: "byte list" assume len: "length bs = 40"
  then show "wf_grh (grh_of_bytes bs)" by (simp add: wf_grh_def grh_of_bytes_def Let_def)
  have "grh_bytes (grh_of_bytes bs)
      = take 4 bs @ take 2 (drop 4 bs) @ [bs ! 6, bs ! 7] @ take 16 (drop 8 bs) @ drop 24 bs"
    using len by (simp add: grh_bytes_def grh_of_bytes_def grh_word_def Let_def grh_word_of_fields
      le32_of_le32 le16_of_le16)
  also have "[bs ! 6, bs ! 7] @ take 16 (drop 8 bs) @ drop 24 bs = drop 6 bs"
    using len list_split_at [of 8 bs 16] Cons_nth_drop_Suc [of 6 bs] Cons_nth_drop_Suc [of 7 bs]
    by simp
  also have "take 4 bs @ take 2 (drop 4 bs) @ drop 6 bs = bs"
    using list_split_at [of 4 bs 2] by simp
  finally show "grh_bytes (grh_of_bytes bs) = bs" .
qed

interpretation bth_codec: wire_codec bth_bytes bth_of_bytes "\<lambda>_. True" 12
proof unfold_locales
  fix x :: ib_bth
  show "length (bth_bytes x) = 12" and "bth_of_bytes (bth_bytes x) = x"
    by (auto simp: bth_bytes_def bth_of_bytes_def bth_flags_fields bth_word_fields
      bth_word_fields(4) [unfolded One_nat_def] Let_def)
next
  fix bs :: "byte list" assume len: "length bs = 12"
  have "bth_bytes (bth_of_bytes bs)
      = [bs ! 0, bs ! 1] @ take 2 (drop 2 bs) @ take 4 (drop 4 bs) @ drop 8 bs"
    using len by (simp add: bth_bytes_def bth_of_bytes_def bth_flags_def bth_qp_word_def
      bth_psn_word_def Let_def flags_of_fields qp_word_of_fields psn_word_of_fields
      le32_of_le32 le16_of_le16 del: push_bit_of_1 One_nat_def)
  also have "take 2 (drop 2 bs) @ take 4 (drop 4 bs) @ drop 8 bs = drop 2 bs"
    using list_split_at [of 2 bs 2] list_split_at [of 4 bs 4] by simp
  also have "[bs ! 0, bs ! 1] @ drop 2 bs = bs"
    using len Cons_nth_drop_Suc [of 0 bs] Cons_nth_drop_Suc [of 1 bs] by (simp add: eval_nat_numeral)
  finally show "bth_bytes (bth_of_bytes bs) = bs" .
qed simp_all

interpretation deth_codec: wire_codec deth_bytes deth_of_bytes "\<lambda>_. True" 8
proof unfold_locales
  fix x :: ib_deth
  show "length (deth_bytes x) = 8" and "deth_of_bytes (deth_bytes x) = x"
    by (auto simp: deth_bytes_def deth_of_bytes_def deth_word_fields Let_def)
next
  fix bs :: "byte list" assume len: "length bs = 8"
  then show "deth_bytes (deth_of_bytes bs) = bs"
    by (simp add: deth_bytes_def deth_of_bytes_def deth_word_def Let_def qp_word_of_fields
      le32_of_le32)
qed simp_all

text \<open>\<^verbatim>\<open>struct ib_headers\<close> is the three headers one after the other.\<close>

interpretation transport: codec_pair bth_bytes bth_of_bytes "\<lambda>_. True" 12
  deth_bytes deth_of_bytes "\<lambda>_. True" 8 Pair fst snd
  by unfold_locales simp_all

interpretation headers_pair: codec_pair grh_bytes grh_of_bytes wf_grh 40
  "\<lambda>z. bth_bytes (fst z) @ deth_bytes (snd z)"
  "\<lambda>bs. (bth_of_bytes (take 12 bs), deth_of_bytes (drop 12 bs))" "\<lambda>z. True \<and> True" "12 + 8"
  "\<lambda>g (b, d). \<lparr>grh = g, bth = b, deth = d\<rparr>" grh "\<lambda>h. (bth h, deth h)"
  using transport.pair_codec by (intro codec_pair.intro codec_pair_axioms.intro)
    (auto intro: grh_codec.wire_codec_axioms)

interpretation headers_codec: wire_codec headers_bytes headers_of_bytes wf_headers 60
proof -
  have "headers_bytes = (\<lambda>z. grh_bytes (grh z) @ bth_bytes (fst (bth z, deth z)) @ deth_bytes (snd (bth z, deth z)))"
    and "wf_headers = (\<lambda>z. wf_grh (grh z) \<and> True \<and> True)"
    by (auto simp: headers_bytes_def wf_headers_def fun_eq_iff)
  then show "wire_codec headers_bytes headers_of_bytes wf_headers 60"
    using headers_pair.pair_codec by (simp add: headers_of_bytes_def [abs_def])
qed

interpretation eth_codec: wire_codec eth_bytes eth_of_bytes wf_eth 14
proof unfold_locales
  fix x assume "wf_eth x"
  then show "length (eth_bytes x) = 14" and "eth_of_bytes (eth_bytes x) = x"
    by (auto simp: wf_eth_def eth_bytes_def eth_of_bytes_def layout_simps)
next
  fix bs :: "byte list" assume len: "length bs = 14"
  then show "wf_eth (eth_of_bytes bs)" by (simp add: wf_eth_def eth_of_bytes_def layout_simps)
  show "eth_bytes (eth_of_bytes bs) = bs"
    using len list_split_at [of 6 bs 6] by (simp add: eth_bytes_def eth_of_bytes_def le16_of_le16)
qed

text \<open>The payload array is its own representation; the packet puts it after the headers.\<close>

interpretation body_pair: codec_pair headers_bytes headers_of_bytes wf_headers 60
  "\<lambda>bs. bs" "\<lambda>bs. bs" "\<lambda>bs. length bs = MSG_SIZE" MSG_SIZE Pair fst snd
  by unfold_locales simp_all

interpretation packet_pair: codec_pair eth_bytes eth_of_bytes wf_eth 14
  "\<lambda>z. headers_bytes (fst z) @ snd z" "\<lambda>bs. (headers_of_bytes (take 60 bs), drop 60 bs)"
  "\<lambda>z. wf_headers (fst z) \<and> length (snd z) = MSG_SIZE" "60 + MSG_SIZE"
  "\<lambda>e (h, d). \<lparr>ether_header = e, ib_header = h, data = d\<rparr>" ether_header
  "\<lambda>p. (ib_header p, data p)"
  using body_pair.pair_codec by (intro codec_pair.intro codec_pair_axioms.intro)
    (auto intro: eth_codec.wire_codec_axioms)

interpretation packet_codec: wire_codec packet_bytes packet_of_bytes wf_packet "14 + (60 + MSG_SIZE)"
proof -
  have "packet_bytes = (\<lambda>z. eth_bytes (ether_header z) @ headers_bytes (fst (ib_header z, data z)) @ snd (ib_header z, data z))"
    and "wf_packet = (\<lambda>z. wf_eth (ether_header z) \<and> wf_headers (ib_header z) \<and> length (data z) = MSG_SIZE)"
    by (auto simp: packet_bytes_def wf_packet_def fun_eq_iff)
  then show "wire_codec packet_bytes packet_of_bytes wf_packet (14 + (60 + MSG_SIZE))"
    using packet_pair.pair_codec by (simp add: packet_of_bytes_def [abs_def])
qed

section \<open>Properties\<close>

text \<open>C6: the packed layout of \<^verbatim>\<open>struct packet\<close> is lossless and exact: every packet occupies 9014
  bytes and is read back from them unchanged, and every run of 9014 bytes is the representation of
  exactly one packet. In particular no bit-field overlaps another and no padding is left between
  the headers.\<close>

theorem packet_layout_roundtrip:
  "(wf_packet p \<longrightarrow> length (packet_bytes p) = 9014 \<and> packet_of_bytes (packet_bytes p) = p) \<and>
   (length bs = 9014 \<longrightarrow> wf_packet (packet_of_bytes bs) \<and> packet_bytes (packet_of_bytes bs) = bs)"
  using packet_codec.enc_length [of p] packet_codec.dec_enc [of p] packet_codec.dec_wf [of bs]
    packet_codec.enc_dec [of bs]
  by (simp add: MSG_SIZE_def)

theorem packet_layout_roundtrip_witness:
  "length (replicate 9014 (7 :: byte)) = 9014 \<and>
   packet_bytes (packet_of_bytes (replicate 9014 7)) = replicate 9014 7 \<and>
   packet_of_bytes (packet_bytes (packet_of_bytes (replicate 9014 7))) = packet_of_bytes (replicate 9014 7)"
  using packet_layout_roundtrip [of "packet_of_bytes (replicate 9014 7)" "replicate 9014 7"] by simp

end
