(* ===== verification/Lookup_Addr.thy ===== *)
theory Lookup_Addr
  imports C_Library
begin

text \<open>
  Model of \<^verbatim>\<open>src/lookup_addr.h\<close> and \<^verbatim>\<open>src/lookup_addr.c\<close>: \<^verbatim>\<open>struct addr\<close> and the three
  functions that fill one, from the interface list of the host, from the resolver and the kernel's
  ARP cache, and from strings. The operating system's answers (\<^verbatim>\<open>getifaddrs\<close>,
  \<^verbatim>\<open>getaddrinfo\<close>, \<^verbatim>\<open>socket\<close>, \<^verbatim>\<open>ioctl\<close>) and the text conversions of
  \<^verbatim>\<open>arpa/inet.h\<close> and \<^verbatim>\<open>netinet/ether.h\<close> are parameters.
\<close>

section \<open>Data\<close>

record addr =
  mac :: "byte list"
  ipv4 :: u32
  ipv6 :: "byte list"

definition zero_addr :: addr where
  "zero_addr = \<lparr>mac = replicate 6 0, ipv4 = 0, ipv6 = replicate 16 0\<rparr>"

definition wf_addr :: "addr \<Rightarrow> bool" where
  "wf_addr a \<longleftrightarrow> length (mac a) = 6 \<and> length (ipv6 a) = 16"

text \<open>A socket address by its family: the members the code reads.\<close>

datatype sockaddr =
    Sockaddr_in (sin_addr: u32)
  | Sockaddr_in6 (sin6_addr: "byte list")
  | Sockaddr_ll (sll_addr: "byte list")
  | Sockaddr_other

record ifaddrs =
  ifa_name :: string
  ifa_addr :: "sockaddr option"

section \<open>Operations\<close>

definition print_addr ::
  "(u32 \<Rightarrow> string) \<Rightarrow> (byte list \<Rightarrow> string) \<Rightarrow> (byte list \<Rightarrow> string) \<Rightarrow> addr \<Rightarrow> string" where
  "print_addr ntop4 ntop6 ether_ntoa a =
     ''IPv4: '' @ ntop4 (ipv4 a) @ [CHR 0x0A]
     @ ''IPv6: '' @ ntop6 (ipv6 a) @ [CHR 0x0A]
     @ ''MAC: '' @ ether_ntoa (take 6 (mac a)) @ [CHR 0x0A]"

text \<open>
  \<^verbatim>\<open>lookup_remote_addr\<close>. \<open>getaddrinfo\<close> gives the IPv4 address of the first result or \<open>None\<close> for an
  error; the code reports the error and goes on, so it then reads through the uninitialised \<open>res\<close>.
  \<open>arp\<close> is \<^verbatim>\<open>ioctl(sock, SIOCGARP, ...)\<close> on the address and the device name, of which
  \<^verbatim>\<open>strncpy\<close> copies at most \<^verbatim>\<open>IFNAMSIZ\<close> = 16 characters; a failing \<open>pton6\<close> leaves the
  address as it was.
\<close>

definition lookup_remote_addr ::
  "(string \<Rightarrow> u32 option) \<Rightarrow> int \<Rightarrow> (u32 \<Rightarrow> string \<Rightarrow> byte list option) \<Rightarrow>
   (string \<Rightarrow> byte list option) \<Rightarrow> string \<Rightarrow> string \<Rightarrow> string option \<Rightarrow> addr outcome" where
  "lookup_remote_addr getaddrinfo sock arp pton6 interface host ipv6_string =
     (case getaddrinfo host of
        None \<Rightarrow> UB
      | Some a \<Rightarrow>
          if sock = -1 then Exit EXIT_FAILURE
          else (case arp a (take 16 interface) of
                  None \<Rightarrow> Exit EXIT_FAILURE
                | Some ha \<Rightarrow>
                    Ok (let remote = zero_addr\<lparr>mac := take 6 ha, ipv4 := a\<rparr>
                        in case ipv6_string of
                             None \<Rightarrow> remote
                           | Some s \<Rightarrow> (case pton6 s of
                                         None \<Rightarrow> remote
                                       | Some b \<Rightarrow> remote\<lparr>ipv6 := b\<rparr>))))"

text \<open>The \<^verbatim>\<open>switch\<close> on the family and the loop over the interface list. The second component of
  the result is what the loop prints.\<close>

definition local_addr_step :: "addr \<Rightarrow> sockaddr \<Rightarrow> addr \<times> string" where
  "local_addr_step loc sa =
     (case sa of
        Sockaddr_in a \<Rightarrow> (loc\<lparr>ipv4 := a\<rparr>, [])
      | Sockaddr_in6 a \<Rightarrow> (loc\<lparr>ipv6 := a\<rparr>, [])
      | Sockaddr_ll a \<Rightarrow> (loc\<lparr>mac := take 6 a\<rparr>, [])
      | Sockaddr_other \<Rightarrow> (loc, ''Found unknown IF family type!'' @ [CHR 0x0A]))"

fun local_addr_loop :: "string \<Rightarrow> ifaddrs list \<Rightarrow> addr \<times> string \<Rightarrow> (addr \<times> string) outcome" where
  "local_addr_loop interface [] st = Ok st"
| "local_addr_loop interface (ifa # rest) st =
     (if interface \<noteq> ifa_name ifa then local_addr_loop interface rest st
      else (case ifa_addr ifa of
              None \<Rightarrow> UB
            | Some sa \<Rightarrow>
                local_addr_loop interface rest
                  (fst (local_addr_step (fst st) sa), snd st @ snd (local_addr_step (fst st) sa))))"

definition lookup_local_addr :: "ifaddrs list option \<Rightarrow> string \<Rightarrow> (addr \<times> string) outcome" where
  "lookup_local_addr getifaddrs interface =
     (case getifaddrs of
        None \<Rightarrow> Exit EXIT_FAILURE
      | Some if_addrs \<Rightarrow> local_addr_loop interface if_addrs (zero_addr, []))"

definition addr_from_strings ::
  "(string \<Rightarrow> byte list option) \<Rightarrow> (string \<Rightarrow> u32 option) \<Rightarrow> (string \<Rightarrow> byte list option) \<Rightarrow>
   string \<Rightarrow> string \<Rightarrow> string \<Rightarrow> addr outcome" where
  "addr_from_strings ether_aton pton4 pton6 mac_string ipv4_string ib_gid =
     (case ether_aton mac_string of
        None \<Rightarrow> UB
      | Some e \<Rightarrow>
          Ok (zero_addr\<lparr>mac := take 6 e,
                ipv4 := (case pton4 ipv4_string of None \<Rightarrow> 0 | Some a \<Rightarrow> a),
                ipv6 := (case pton6 ib_gid of None \<Rightarrow> replicate 16 0 | Some b \<Rightarrow> b)\<rparr>))"

section \<open>The interface loop keeps the last address of each family\<close>

text \<open>The addresses an interface has, and the specification of the loop: the last one per family,
  zero where there is none.\<close>

definition addrs_of :: "string \<Rightarrow> ifaddrs list \<Rightarrow> sockaddr list" where
  "addrs_of interface ifs =
     List.map_filter ifa_addr (filter (\<lambda>c. ifa_name c = interface) ifs)"

definition last_or :: "'a \<Rightarrow> 'a list \<Rightarrow> 'a" where
  "last_or d xs = (if xs = [] then d else last xs)"

definition in_addrs :: "sockaddr list \<Rightarrow> u32 list" where
  "in_addrs sas = List.map_filter (\<lambda>sa. case sa of Sockaddr_in a \<Rightarrow> Some a | _ \<Rightarrow> None) sas"

definition in6_addrs :: "sockaddr list \<Rightarrow> byte list list" where
  "in6_addrs sas = List.map_filter (\<lambda>sa. case sa of Sockaddr_in6 a \<Rightarrow> Some a | _ \<Rightarrow> None) sas"

definition ll_addrs :: "sockaddr list \<Rightarrow> byte list list" where
  "ll_addrs sas = List.map_filter (\<lambda>sa. case sa of Sockaddr_ll a \<Rightarrow> Some (take 6 a) | _ \<Rightarrow> None) sas"

lemma last_or_Cons: "last_or d (x # xs) = last_or x xs"
  by (cases xs) (simp_all add: last_or_def)

lemma local_addr_loop_spec:
  assumes "\<forall>c \<in> set ifs. ifa_name c = interface \<longrightarrow> ifa_addr c \<noteq> None"
  shows "\<exists>out. local_addr_loop interface ifs (loc, said) =
     Ok (\<lparr>mac = last_or (mac loc) (ll_addrs (addrs_of interface ifs)),
          ipv4 = last_or (ipv4 loc) (in_addrs (addrs_of interface ifs)),
          ipv6 = last_or (ipv6 loc) (in6_addrs (addrs_of interface ifs))\<rparr>, out)"
  using assms
proof (induction ifs arbitrary: loc said)
  case Nil
  show ?case
    by (simp add: addrs_of_def in_addrs_def in6_addrs_def ll_addrs_def map_filter_simps last_or_def)
next
  case (Cons c ifs)
  show ?case
  proof (cases "ifa_name c = interface")
    case False
    with Cons show ?thesis by (simp add: addrs_of_def)
  next
    case True
    with Cons.prems obtain sa where sa: "ifa_addr c = Some sa" by auto
    have "addrs_of interface (c # ifs) = sa # addrs_of interface ifs"
      using True sa by (simp add: addrs_of_def map_filter_simps)
    with True sa Cons.prems show ?thesis
      using Cons.IH [of "fst (local_addr_step loc sa)" "said @ snd (local_addr_step loc sa)"]
      by (cases sa)
        (simp_all add: local_addr_step_def in_addrs_def in6_addrs_def ll_addrs_def
          map_filter_simps last_or_Cons)
  qed
qed

section \<open>Types of the results\<close>

text \<open>Socket addresses of the sizes their C types have: sixteen bytes of IPv6 address, eight bytes of
  hardware address in \<^verbatim>\<open>sockaddr_ll\<close>.\<close>

primrec wf_sockaddr :: "sockaddr \<Rightarrow> bool" where
  "wf_sockaddr (Sockaddr_in a) \<longleftrightarrow> True"
| "wf_sockaddr (Sockaddr_in6 a) \<longleftrightarrow> length a = 16"
| "wf_sockaddr (Sockaddr_ll a) \<longleftrightarrow> length a = 8"
| "wf_sockaddr Sockaddr_other \<longleftrightarrow> True"

lemma wf_zero_addr [simp]: "wf_addr zero_addr"
  by (simp add: wf_addr_def zero_addr_def)

lemma wf_local_addr_step: "wf_addr a \<Longrightarrow> wf_sockaddr sa \<Longrightarrow> wf_addr (fst (local_addr_step a sa))"
  by (cases sa) (simp_all add: local_addr_step_def wf_addr_def)

lemma wf_local_addr_loop:
  assumes "local_addr_loop interface ifs st = Ok (a, out)" and "wf_addr (fst st)"
    and "\<And>c sa. c \<in> set ifs \<Longrightarrow> ifa_addr c = Some sa \<Longrightarrow> wf_sockaddr sa"
  shows "wf_addr a"
  using assms
proof (induction ifs arbitrary: st)
  case (Cons c ifs)
  show ?case
  proof (cases "ifa_name c = interface")
    case False
    then show ?thesis by (intro Cons.IH [of st]) (use Cons.prems in auto)
  next
    case True
    with Cons.prems(1) obtain sa where "ifa_addr c = Some sa" by (cases "ifa_addr c") auto
    with True Cons.prems wf_local_addr_step [OF Cons.prems(2)] show ?thesis
      by (intro Cons.IH [of "(fst (local_addr_step (fst st) sa), snd st @ snd (local_addr_step (fst st) sa))"])
         auto
  qed
qed simp

lemma wf_lookup_local_addr:
  assumes "lookup_local_addr (Some ifs) interface = Ok (a, out)"
    and "\<And>c sa. c \<in> set ifs \<Longrightarrow> ifa_addr c = Some sa \<Longrightarrow> wf_sockaddr sa"
  shows "wf_addr a"
  using wf_local_addr_loop [of interface ifs "(zero_addr, [])" a out] assms
  by (simp add: lookup_local_addr_def)

lemma wf_lookup_remote_addr:
  assumes "lookup_remote_addr resolve sock arp pton6 interface host gid = Ok a"
    and "\<And>i n ha. arp i n = Some ha \<Longrightarrow> length ha = 14" and "\<And>t b. pton6 t = Some b \<Longrightarrow> length b = 16"
  shows "wf_addr a"
  using assms(1)
  by (auto simp: lookup_remote_addr_def wf_addr_def zero_addr_def Let_def assms(2,3)
      split: option.splits if_splits)

lemma wf_addr_from_strings:
  assumes "addr_from_strings ether_aton pton4 pton6 m i g = Ok a"
    and "\<And>t b. ether_aton t = Some b \<Longrightarrow> length b = 6" and "\<And>t b. pton6 t = Some b \<Longrightarrow> length b = 16"
  shows "wf_addr a"
  using assms(1)
  by (auto simp: addr_from_strings_def wf_addr_def zero_addr_def assms(2,3) split: option.splits)

section \<open>Properties\<close>

text \<open>When every entry of the wanted interface carries an address, \<^verbatim>\<open>lookup_local_addr\<close> returns
  and its result holds, for each family, the last address the interface list gives for exactly that
  interface (the MAC cut to six bytes), and zero where the list gives none. Entries of other
  interfaces have no influence.\<close>

theorem lookup_local_addr_last:
  assumes "\<forall>c \<in> set ifs. ifa_name c = interface \<longrightarrow> ifa_addr c \<noteq> None"
  shows "\<exists>out. lookup_local_addr (Some ifs) interface =
     Ok (\<lparr>mac = last_or (replicate 6 0) (ll_addrs (addrs_of interface ifs)),
          ipv4 = last_or 0 (in_addrs (addrs_of interface ifs)),
          ipv6 = last_or (replicate 16 0) (in6_addrs (addrs_of interface ifs))\<rparr>, out)"
  using local_addr_loop_spec [OF assms, of zero_addr "[]"]
  by (simp add: lookup_local_addr_def zero_addr_def)

theorem lookup_local_addr_last_witness:
  "\<exists>out. lookup_local_addr
      (Some [\<lparr>ifa_name = ''lo'', ifa_addr = None\<rparr>,
             \<lparr>ifa_name = ''eth4'', ifa_addr = Some (Sockaddr_in 1)\<rparr>,
             \<lparr>ifa_name = ''eth4'', ifa_addr = Some (Sockaddr_in 2)\<rparr>]) ''eth4'' =
     Ok (\<lparr>mac = replicate 6 0, ipv4 = 2, ipv6 = replicate 16 0\<rparr>, out)"
  using lookup_local_addr_last
    [of "[\<lparr>ifa_name = ''lo'', ifa_addr = None\<rparr>,
             \<lparr>ifa_name = ''eth4'', ifa_addr = Some (Sockaddr_in 1)\<rparr>,
             \<lparr>ifa_name = ''eth4'', ifa_addr = Some (Sockaddr_in 2)\<rparr>]" "''eth4''"]
  by (simp add: addrs_of_def in_addrs_def in6_addrs_def ll_addrs_def last_or_def map_filter_simps)

text \<open>\<^verbatim>\<open>lookup_remote_addr\<close> has exactly these ends: an undefined read through the
  uninitialised \<^verbatim>\<open>res\<close> when the resolver fails, an exit when there is no socket or no ARP entry,
  and otherwise an address made of the hardware address of the ARP entry for the resolved IPv4
  address on the named device, that IPv4 address, and the given IPv6 address when it parses.\<close>

theorem lookup_remote_addr_cases:
  "lookup_remote_addr getaddrinfo sock arp pton6 interface host gid =
     (if getaddrinfo host = None then UB
      else if sock = -1 \<or> arp (the (getaddrinfo host)) (take 16 interface) = None
      then Exit EXIT_FAILURE
      else Ok \<lparr>mac = take 6 (the (arp (the (getaddrinfo host)) (take 16 interface))),
               ipv4 = the (getaddrinfo host),
               ipv6 = (case Option.bind gid pton6 of None \<Rightarrow> replicate 16 0 | Some b \<Rightarrow> b)\<rparr>)"
  by (auto simp: lookup_remote_addr_def zero_addr_def Let_def split: option.splits)

end
