(* ===== verification/Fpga_Kernel.thy ===== *)
theory Fpga_Kernel
  imports Crc32 Raw_Packet
begin

text \<open>
  Model of the OpenCL kernel \<^verbatim>\<open>src/ibverbs.cl\<close> and of the host call in
  \<^verbatim>\<open>src/fpga_host.cc\<close> that feeds it: the kernel copies the header, computes the packet checksum
  over the payload array, appends it, and writes the frame to the channel as 32-byte lines with
  first/last flags and the number of unused bytes of the last line. The payload array is never
  initialised by the kernel; its contents are a parameter. Here the kernel
  sees the bytes the host put into the buffer; \<open>Opencl_Host\<close> models when the runtime brings them there.
\<close>

section \<open>The kernel\<close>

record line =
  payload :: "byte list"
  flags :: byte

definition FLAG_FIRST :: byte where "FLAG_FIRST = 0x01"
definition FLAG_LAST :: byte where "FLAG_LAST = 0x02"

text \<open>\<^verbatim>\<open>for (int i = 0; i < header_size; i++) data[i] = header[i];\<close>\<close>

function copy_header :: "nat \<Rightarrow> nat \<Rightarrow> byte list \<Rightarrow> byte list \<Rightarrow> byte list outcome" where
  "copy_header i n header buf =
     (if i < n then
        (if i < length header \<and> i < length buf
         then copy_header (Suc i) n header (buf[i := header ! i]) else UB)
      else Ok buf)"
  by pat_completeness auto
termination
  by (relation "measure (\<lambda>(i, n, header, buf). n - i)") auto

declare copy_header.simps [simp del]

text \<open>A 32-bit store into the array.\<close>

definition store32 :: "nat \<Rightarrow> u32 \<Rightarrow> byte list \<Rightarrow> byte list outcome" where
  "store32 off w buf =
     (if off + 4 \<le> length buf then Ok (take off buf @ le32 w @ drop (off + 4) buf) else UB)"

text \<open>The flags of line \<open>i\<close> of a frame of \<open>sz\<close> bytes: \<^verbatim>\<open>FLAG_FIRST\<close> on line 0,
  \<^verbatim>\<open>FLAG_LAST | ((-size % 32U) << 3)\<close> on line \<^verbatim>\<open>(size - 1) / 32U\<close>, in 32-bit unsigned
  arithmetic, cut to an unsigned char.\<close>

definition line_flags :: "u32 \<Rightarrow> nat \<Rightarrow> byte" where
  "line_flags sz i =
     (let f0 = (if i = 0 then FLAG_FIRST else 0)
      in if i = unat ((sz - 1) div 32)
         then f0 OR (FLAG_LAST OR ucast (push_bit 3 ((- sz) mod 32))) else f0)"

text \<open>\<^verbatim>\<open>for (unsigned i = 0; 32 * i < size; i++)\<close>; each line is read from the array at byte
  \<open>32 * i\<close>. The store before the loop keeps the size below the array's length, so \<open>32 * i\<close> does not
  wrap.\<close>

function write_lines :: "nat \<Rightarrow> u32 \<Rightarrow> byte list \<Rightarrow> line list outcome" where
  "write_lines i sz buf =
     (if 32 * i < unat sz then
        (if 32 * i + 32 \<le> length buf
         then bind_outcome (write_lines (Suc i) sz buf)
                (\<lambda>ls. Ok (\<lparr>payload = take 32 (drop (32 * i) buf), flags = line_flags sz i\<rparr> # ls))
         else UB)
      else Ok [])"
  by pat_completeness auto
termination
  by (relation "measure (\<lambda>(i, sz, buf). unat sz - i)") auto

declare write_lines.simps [simp del]

definition write_ibverb_packet ::
  "byte list \<Rightarrow> byte list \<Rightarrow> u32 \<Rightarrow> u32 \<Rightarrow> int \<Rightarrow> line list outcome" where
  "write_ibverb_packet uninit header header_crc header_size chan =
     (let hs = unat header_size in
      bind_outcome (copy_header 0 hs header uninit) (\<lambda>buf.
      bind_outcome (if hs \<le> length buf then crc32 header_crc (drop hs buf) (word_of_nat MSG_SIZE) else UB) (\<lambda>foo.
      bind_outcome (store32 (hs + MSG_SIZE) foo buf) (\<lambda>buf.
      write_lines 0 (header_size + word_of_nat MSG_SIZE + 4) buf))))"

section \<open>The host side\<close>

text \<open>\<^verbatim>\<open>ib_fpga_send_loop\<close> copies \<^verbatim>\<open>header_size\<close> bytes of the packet to the device buffer and runs
  the kernel once on it, with channel argument 1. The copy and the kernel are enqueued in two queues that
  no event orders: \<open>copied\<close> says whether the copy had run when the kernel read the buffer, and \<open>d0\<close> is
  what the buffer held before. \<open>Opencl_Host\<close> has the steps of the two queues.\<close>

definition fpga_header_size :: nat where "fpga_header_size = 14 + 60"

definition ib_fpga_send_loop :: "bool \<Rightarrow> byte list \<Rightarrow> byte list \<Rightarrow> packet \<Rightarrow> u32 \<Rightarrow> line list outcome" where
  "ib_fpga_send_loop copied d0 uninit p header_crc =
     write_ibverb_packet uninit (if copied then take fpga_header_size (packet_bytes p) else d0) header_crc
       (word_of_nat fpga_header_size) 1"

section \<open>Reassembling lines\<close>

text \<open>What the network side of the channel does with the lines of a frame: drop the unused bytes,
  whose number is in the upper five bits of the last line's flags.\<close>

definition unlines_frame :: "line list \<Rightarrow> byte list" where
  "unlines_frame ls =
     take (32 * length ls - unat (drop_bit 3 (flags (last ls)))) (concat (map payload ls))"

section \<open>Lemmas\<close>

lemma copy_header_eq:
  "i \<le> n \<Longrightarrow> n \<le> length header \<Longrightarrow> n \<le> length buf \<Longrightarrow>
   copy_header i n header buf = Ok (take i buf @ take (n - i) (drop i header) @ drop n buf)"
proof (induction i n header buf rule: copy_header.induct)
  case (1 i n header buf)
  show ?case
  proof (cases "i < n")
    case True
    then have "copy_header i n header buf
        = Ok (take (Suc i) (buf[i := header ! i]) @ take (n - Suc i) (drop (Suc i) header)
              @ drop n (buf[i := header ! i]))"
      using 1 by (simp add: copy_header.simps [of i])
    moreover have "take (n - i) (drop i header) = header ! i # take (n - Suc i) (drop (Suc i) header)"
      using True "1.prems" by (metis Cons_nth_drop_Suc Suc_diff_Suc less_le_trans take_Suc_Cons)
    ultimately show ?thesis
      using True "1.prems" by (simp add: take_Suc_conv_app_nth)
  next
    case False
    with "1.prems" show ?thesis by (simp add: copy_header.simps [of n])
  qed
qed

lemma write_lines_eq:
  assumes "32 * ((unat sz + 31) div 32) \<le> length buf"
  shows "write_lines i sz buf =
    Ok (map (\<lambda>j. \<lparr>payload = take 32 (drop (32 * j) buf), flags = line_flags sz j\<rparr>)
        [i..<(unat sz + 31) div 32])"
  using assms
proof (induction i sz buf rule: write_lines.induct)
  case (1 i sz buf)
  show ?case
  proof (cases "32 * i < unat sz")
    case True
    then have i: "i < (unat sz + 31) div 32" by linarith
    then have "32 * i + 32 \<le> length buf" using "1.prems" by linarith
    with True 1 i show ?thesis
      by (simp add: write_lines.simps [of i] upt_conv_Cons [OF i])
  next
    case False
    then have "(unat sz + 31) div 32 \<le> i" by linarith
    with False show ?thesis by (simp add: write_lines.simps [of i])
  qed
qed

lemma concat_chunks:
  "32 * n \<le> length buf \<Longrightarrow>
   concat (map (\<lambda>j. take 32 (drop (32 * j) buf)) [0..<n]) = take (32 * n) buf"
proof (induction n)
  case (Suc n)
  then have "concat (map (\<lambda>j. take 32 (drop (32 * j) buf)) [0..<Suc n])
      = take (32 * n) buf @ take 32 (drop (32 * n) buf)" by simp
  also have "\<dots> = take (32 * n + 32) buf" by (simp add: take_add)
  finally show ?case by (simp add: add.commute)
qed simp

lemma line_flags_high: "drop_bit 3 (line_flags sz i) =
    (if i = unat ((sz - 1) div 32) then ucast (take_bit 5 (- sz)) else 0)"
proof -
  have m: "(- sz) mod 32 = take_bit 5 (- sz)"
    using take_bit_eq_mod [of 5 "- sz"] by simp
  have low: "drop_bit 3 FLAG_FIRST = 0" "drop_bit 3 FLAG_LAST = 0"
    by (simp_all add: FLAG_FIRST_def FLAG_LAST_def)
  have "drop_bit 3 (ucast (push_bit 3 (take_bit 5 (- sz))) :: byte) = ucast (take_bit 5 (- sz))"
    by (rule bit_word_eqI) (auto simp: bit_simps)
  then show ?thesis by (simp add: line_flags_def Let_def m low drop_bit_or)
qed

lemma pad_mod: "n \<le> 32 * K \<Longrightarrow> (32 * K - n) mod 32 = 32 * ((n + 31) div 32) - n" for n K :: nat
proof -
  let ?m = "(n + 31) div 32"
  assume "n \<le> 32 * K"
  then have "?m \<le> K" and "n \<le> 32 * ?m" and "32 * ?m - n < 32" by linarith+
  then have "32 * K - n = 32 * (K - ?m) + (32 * ?m - n)" by (simp add: diff_mult_distrib2)
  then have "(32 * K - n) mod 32 = (32 * ?m - n) mod 32"
    by (simp only: mod_mult_self4)
  with \<open>32 * ?m - n < 32\<close> show ?thesis by simp
qed

lemma unat_pad:
  assumes "0 < unat (sz :: u32)"
  shows "unat (ucast (take_bit 5 (- sz)) :: byte) = 32 * ((unat sz + 31) div 32) - unat sz"
proof -
  have "unat (- sz) = 2 ^ 32 - unat sz"
    using assms unat_sub_if' [of 0 sz] by simp
  moreover have "take_bit 5 n = n mod 32" for n :: nat by (simp add: take_bit_eq_mod)
  ultimately have "unat (take_bit 5 (- sz)) = (2 ^ 32 - unat sz) mod 32"
    by (simp add: unsigned_take_bit_eq)
  also have "\<dots> = 32 * ((unat sz + 31) div 32) - unat sz"
  proof -
    have "unat sz < 2 ^ 32" by (rule order.strict_trans2 [OF unsigned_less]) simp
    then show ?thesis using pad_mod [of "unat sz" "2 ^ 27"] by simp
  qed
  finally show ?thesis
    by (simp add: unsigned_ucast_eq take_bit_nat_eq_self)
qed

lemma last_line_index: "0 < unat sz \<Longrightarrow> unat ((sz - 1) div 32) = (unat sz + 31) div 32 - 1"
  for sz :: u32
proof -
  assume pos: "0 < unat sz"
  then have "unat (sz - 1) = unat sz - 1"
    by (simp add: unat_minus_one word_neq_0_conv unat_gt_0)
  moreover from pos have "1 \<le> unat sz" by linarith
  ultimately show ?thesis by (simp add: unat_div)
qed

text \<open>The array after the checksum is stored, and the frame it holds.\<close>

definition kernel_frame :: "byte list \<Rightarrow> byte list \<Rightarrow> u32 \<Rightarrow> nat \<Rightarrow> byte list" where
  "kernel_frame uninit header header_crc hs =
     take hs header @ take MSG_SIZE (drop hs uninit)
     @ le32 (crc32_spec header_crc (take MSG_SIZE (drop hs uninit)))"

lemma write_ibverb_packet_eq:
  assumes hs: "unat header_size \<le> 80" "unat header_size \<le> length header"
    and len: "length uninit = MSG_SIZE + 100"
  shows "write_ibverb_packet uninit header header_crc header_size chan =
     write_lines 0 (header_size + word_of_nat MSG_SIZE + 4)
       (kernel_frame uninit header header_crc (unat header_size)
        @ drop (unat header_size + MSG_SIZE + 4) uninit)"
proof -
  let ?hs = "unat header_size"
  let ?buf = "take ?hs header @ drop ?hs uninit"
  have "copy_header 0 ?hs header uninit = Ok ?buf"
    using hs len by (simp add: copy_header_eq layout_simps)
  moreover have "crc32 header_crc (drop ?hs ?buf) (word_of_nat MSG_SIZE)
      = Ok (crc32_spec header_crc (take MSG_SIZE (drop ?hs uninit)))"
    using hs len by (subst crc32_eq_spec) (simp_all add: layout_simps)
  ultimately show ?thesis
    using hs len
    by (simp add: write_ibverb_packet_def Let_def store32_def kernel_frame_def layout_simps add.commute)
qed

lemma length_kernel_frame:
  "hs \<le> length header \<Longrightarrow> length uninit = MSG_SIZE + 100 \<Longrightarrow> hs \<le> 80 \<Longrightarrow>
   length (kernel_frame uninit header crc hs) = hs + MSG_SIZE + 4"
  by (simp add: kernel_frame_def layout_simps)

lemma unat_frame_size:
  "unat header_size \<le> 80 \<Longrightarrow>
   unat (header_size + word_of_nat MSG_SIZE + 4 :: u32) = unat header_size + MSG_SIZE + 4"
  by (simp add: unat_word_ariths layout_simps)

lemma line_flags_first: "bit (line_flags sz i) 0 \<longleftrightarrow> i = 0"
  by (simp add: line_flags_def Let_def bit_simps FLAG_FIRST_def FLAG_LAST_def)

lemma line_flags_last: "bit (line_flags sz i) (Suc 0) \<longleftrightarrow> i = unat ((sz - 1) div 32)"
  by (simp add: line_flags_def Let_def bit_simps FLAG_FIRST_def FLAG_LAST_def)

lemma write_lines_reassemble:
  assumes "length frame = unat sz" and "0 < unat sz"
    and "32 * ((unat sz + 31) div 32) \<le> length (frame @ rest)"
  shows "\<exists>ls. write_lines 0 sz (frame @ rest) = Ok ls \<and> unlines_frame ls = frame \<and>
    length ls = (unat sz + 31) div 32 \<and>
    (\<forall>i < length ls. length (payload (ls ! i)) = 32 \<and> (bit (flags (ls ! i)) 0 \<longleftrightarrow> i = 0) \<and>
       (bit (flags (ls ! i)) 1 \<longleftrightarrow> i = length ls - 1))"
proof -
  let ?n = "(unat sz + 31) div 32"
  let ?mk = "\<lambda>j. \<lparr>payload = take 32 (drop (32 * j) (frame @ rest)), flags = line_flags sz j\<rparr>"
  let ?ls = "map ?mk [0..<?n]"
  have n: "0 < ?n" using assms(2) by linarith
  then have "last ?ls = ?mk (?n - 1)"
    by (simp add: last_map last_upt)
  then have "unat (drop_bit 3 (flags (last ?ls))) = 32 * ?n - unat sz"
    using assms(2) by (simp add: line_flags_high last_line_index unat_pad)
  moreover have "unat sz \<le> 32 * ?n" by linarith
  moreover have "concat (map payload ?ls) = take (32 * ?n) (frame @ rest)"
    using concat_chunks [OF assms(3)] by (simp add: comp_def)
  ultimately have "unlines_frame ?ls = frame"
    using assms(1) by (simp add: unlines_frame_def)
  moreover have "length (payload (?ls ! i)) = 32 \<and> (bit (flags (?ls ! i)) 0 \<longleftrightarrow> i = 0) \<and>
       (bit (flags (?ls ! i)) 1 \<longleftrightarrow> i = length ?ls - 1)" if "i < length ?ls" for i
  proof -
    have "32 * i + 32 \<le> 32 * ?n" using that by simp
    then have "length (take 32 (drop (32 * i) (frame @ rest))) = 32"
      using assms(3) unfolding length_take length_drop by linarith
    with assms(2) that show ?thesis
      by (simp add: line_flags_first line_flags_last last_line_index del: take_append drop_append)
  qed
  ultimately show ?thesis using write_lines_eq [OF assms(3), of 0] by auto
qed

lemma write_ibverb_packet_frame:
  assumes "unat header_size \<le> 80" and "unat header_size \<le> length header"
    and "length uninit = MSG_SIZE + 100"
  shows "\<exists>ls. write_ibverb_packet uninit header header_crc header_size chan = Ok ls \<and>
    unlines_frame ls = kernel_frame uninit header header_crc (unat header_size) \<and>
    length ls = (unat header_size + MSG_SIZE + 4 + 31) div 32 \<and>
    (\<forall>i < length ls. length (payload (ls ! i)) = 32 \<and> (bit (flags (ls ! i)) 0 \<longleftrightarrow> i = 0) \<and>
       (bit (flags (ls ! i)) 1 \<longleftrightarrow> i = length ls - 1))"
proof -
  let ?sz = "header_size + word_of_nat MSG_SIZE + 4 :: u32"
  have sz: "unat ?sz = unat header_size + MSG_SIZE + 4"
    using assms(1) by (rule unat_frame_size)
  have "length (kernel_frame uninit header header_crc (unat header_size)) = unat ?sz"
    using assms sz by (simp add: length_kernel_frame)
  moreover have "0 < unat ?sz" using sz by linarith
  moreover have "32 * ((unat ?sz + 31) div 32) \<le> length
      (kernel_frame uninit header header_crc (unat header_size)
       @ drop (unat header_size + MSG_SIZE + 4) uninit)"
    unfolding sz using assms by (simp add: length_kernel_frame layout_simps)
  ultimately have "\<exists>ls. write_lines 0 ?sz (kernel_frame uninit header header_crc (unat header_size)
       @ drop (unat header_size + MSG_SIZE + 4) uninit) = Ok ls \<and>
    unlines_frame ls = kernel_frame uninit header header_crc (unat header_size) \<and>
    length ls = (unat ?sz + 31) div 32 \<and>
    (\<forall>i < length ls. length (payload (ls ! i)) = 32 \<and> (bit (flags (ls ! i)) 0 \<longleftrightarrow> i = 0) \<and>
       (bit (flags (ls ! i)) 1 \<longleftrightarrow> i = length ls - 1))"
    by (rule write_lines_reassemble)
  then show ?thesis unfolding sz write_ibverb_packet_eq [OF assms] .
qed

text \<open>The frame of the whole host call, in either order.\<close>

lemma ib_fpga_send_loop_frame:
  assumes "wf_packet p" and "length uninit = MSG_SIZE + 100" and "length d0 = fpga_header_size"
  shows "\<exists>ls. ib_fpga_send_loop copied d0 uninit p header_crc = Ok ls \<and> length ls = 282 \<and>
    unlines_frame ls = (if copied then take fpga_header_size (packet_bytes p) else d0)
      @ take MSG_SIZE (drop 74 uninit) @ le32 (crc32_spec header_crc (take MSG_SIZE (drop 74 uninit)))"
proof -
  let ?hdr = "if copied then take fpga_header_size (packet_bytes p) else d0"
  have len: "length ?hdr = 74"
    using assms by (simp add: packet_codec.enc_length fpga_header_size_def layout_simps)
  have n: "unat (word_of_nat fpga_header_size :: u32) = 74" by (simp add: fpga_header_size_def)
  with len have "unat (word_of_nat fpga_header_size :: u32) \<le> 80"
    "unat (word_of_nat fpga_header_size :: u32) \<le> length ?hdr" by linarith+
  from write_ibverb_packet_frame [OF this assms(2), of header_crc 1]
  obtain ls where "ib_fpga_send_loop copied d0 uninit p header_crc = Ok ls"
    "unlines_frame ls = kernel_frame uninit ?hdr header_crc 74" "length ls = (74 + MSG_SIZE + 4 + 31) div 32"
    unfolding ib_fpga_send_loop_def n by blast
  with len show ?thesis by (simp add: kernel_frame_def layout_simps)
qed

section \<open>Properties\<close>

text \<open>C8: for every header of at most 80 bytes the kernel terminates without leaving its array and
  puts on the channel exactly the frame \<open>header, payload, checksum\<close>: the lines hold 32 bytes each,
  only the first carries \<^verbatim>\<open>FLAG_FIRST\<close>, only the last carries \<^verbatim>\<open>FLAG_LAST\<close>, and dropping the
  number of bytes in the last line's upper flag bits gives back the frame.\<close>

theorem kernel_emits_frame:
  assumes "unat header_size \<le> 80" and "unat header_size \<le> length header"
    and "length uninit = MSG_SIZE + 100"
  shows "\<exists>ls. write_ibverb_packet uninit header header_crc header_size chan = Ok ls \<and>
    unlines_frame ls = kernel_frame uninit header header_crc (unat header_size) \<and>
    length ls = (unat header_size + MSG_SIZE + 4 + 31) div 32 \<and>
    (\<forall>i < length ls. length (payload (ls ! i)) = 32 \<and> (bit (flags (ls ! i)) 0 \<longleftrightarrow> i = 0) \<and>
       (bit (flags (ls ! i)) 1 \<longleftrightarrow> i = length ls - 1))"
  using assms by (rule write_ibverb_packet_frame)

theorem kernel_emits_frame_witness:
  "unat (74 :: u32) \<le> 80 \<and>
   (\<exists>ls. write_ibverb_packet (replicate (MSG_SIZE + 100) 0) (replicate 74 1) 5 74 1 = Ok ls \<and>
    unlines_frame ls = kernel_frame (replicate (MSG_SIZE + 100) 0) (replicate 74 1) 5 (unat (74 :: u32)) \<and>
    length ls = (unat (74 :: u32) + MSG_SIZE + 4 + 31) div 32)"
proof -
  have "unat (74 :: u32) \<le> 80" "unat (74 :: u32) \<le> length (replicate 74 (1 :: byte))"
    "length (replicate (MSG_SIZE + 100) (0 :: byte)) = MSG_SIZE + 100" by simp_all
  from kernel_emits_frame [OF this, of 5 1] show ?thesis by auto
qed

end
