(* ===== verification/Opencl_Host.thy ===== *)
theory Opencl_Host
  imports Fpga_Kernel
begin

text \<open>
  Model of \<^verbatim>\<open>src/opencl_utils.cc\<close>, \<^verbatim>\<open>src/opencl_utils.hpp\<close> and of the host side in
  \<^verbatim>\<open>src/fpga_host.cc\<close>: the error texts, the choice of platform and devices, the loading of the
  program, the argument list of a kernel call, and the commands \<^verbatim>\<open>ib_fpga_send_loop\<close> enqueues. The
  OpenCL runtime is a parameter; of its documented behaviour the order of commands is used: a queue
  runs its commands in order, different queues are independent, the host can wait for an event.
\<close>

section \<open>Error texts\<close>

text \<open>The cases of the \<^verbatim>\<open>switch\<close> by the names of their macros. \<open>code\<close> gives the value the OpenCL header
  defines for a name, \<open>None\<close> for a name it does not define.\<close>

definition error_texts :: "(string \<times> string) list" where
  "error_texts =
     [(''CL_SUCCESS'', ''Success!''),
      (''CL_DEVICE_NOT_FOUND'', ''Device not found.''),
      (''CL_DEVICE_NOT_AVAILABLE'', ''Device not available''),
      (''CL_COMPILER_NOT_AVAILABLE'', ''Compiler not available''),
      (''CL_MEM_OBJECT_ALLOCATION_FAILURE'', ''Memory object allocation failure''),
      (''CL_OUT_OF_RESOURCES'', ''Out of resources''),
      (''CL_OUT_OF_HOST_MEMORY'', ''Out of host memory''),
      (''CL_PROFILING_INFO_NOT_AVAILABLE'', ''Profiling information not available''),
      (''CL_MEM_COPY_OVERLAP'', ''Memory copy overlap''),
      (''CL_IMAGE_FORMAT_MISMATCH'', ''Image format mismatch''),
      (''CL_IMAGE_FORMAT_NOT_SUPPORTED'', ''Image format not supported''),
      (''CL_BUILD_PROGRAM_FAILURE'', ''Program build failure''),
      (''CL_MAP_FAILURE'', ''Map failure''),
      (''CL_INVALID_VALUE'', ''Invalid value''),
      (''CL_INVALID_DEVICE_TYPE'', ''Invalid device type''),
      (''CL_INVALID_PLATFORM'', ''Invalid platform''),
      (''CL_INVALID_DEVICE'', ''Invalid device''),
      (''CL_INVALID_CONTEXT'', ''Invalid context''),
      (''CL_INVALID_QUEUE_PROPERTIES'', ''Invalid queue properties''),
      (''CL_INVALID_COMMAND_QUEUE'', ''Invalid command queue''),
      (''CL_INVALID_HOST_PTR'', ''Invalid host pointer''),
      (''CL_INVALID_MEM_OBJECT'', ''Invalid memory object''),
      (''CL_INVALID_IMAGE_FORMAT_DESCRIPTOR'', ''Invalid image format descriptor''),
      (''CL_INVALID_IMAGE_SIZE'', ''Invalid image size''),
      (''CL_INVALID_SAMPLER'', ''Invalid sampler''),
      (''CL_INVALID_BINARY'', ''Invalid binary''),
      (''CL_INVALID_BUILD_OPTIONS'', ''Invalid build options''),
      (''CL_INVALID_PROGRAM'', ''Invalid program''),
      (''CL_INVALID_PROGRAM_EXECUTABLE'', ''Invalid program executable''),
      (''CL_INVALID_KERNEL_NAME'', ''Invalid kernel name''),
      (''CL_INVALID_KERNEL_DEFINITION'', ''Invalid kernel definition''),
      (''CL_INVALID_KERNEL'', ''Invalid kernel''),
      (''CL_INVALID_ARG_INDEX'', ''Invalid argument index''),
      (''CL_INVALID_ARG_VALUE'', ''Invalid argument value''),
      (''CL_INVALID_ARG_SIZE'', ''Invalid argument size''),
      (''CL_INVALID_KERNEL_ARGS'', ''Invalid kernel arguments''),
      (''CL_INVALID_WORK_DIMENSION'', ''Invalid work dimension''),
      (''CL_INVALID_WORK_GROUP_SIZE'', ''Invalid work group size''),
      (''CL_INVALID_WORK_ITEM_SIZE'', ''Invalid work item size''),
      (''CL_INVALID_GLOBAL_OFFSET'', ''Invalid global offset''),
      (''CL_INVALID_EVENT_WAIT_LIST'', ''Invalid event wait list''),
      (''CL_INVALID_EVENT'', ''Invalid event''),
      (''CL_INVALID_OPERATION'', ''Invalid operation''),
      (''CL_INVALID_GL_OBJECT'', ''Invalid OpenGL object''),
      (''CL_INVALID_BUFFER_SIZE'', ''Invalid buffer size''),
      (''CL_INVALID_MIP_LEVEL'', ''Invalid mip-map level''),
      (''CL_INVALID_GLOBAL_WORK_SIZE'', ''Invalid global work size''),
      (''CL_INVALID_PROPERTY'', ''Invalid property''),
      (''CL_INVALID_IMAGE_DESCRIPTOR'', ''Invalid image descriptor''),
      (''CL_INVALID_COMPILER_OPTIONS'', ''Invalid compiler options''),
      (''CL_INVALID_LINKER_OPTIONS'', ''Invalid linker options''),
      (''CL_INVALID_DEVICE_PARTITION_COUNT'', ''Invalid device partition count'')]"

definition errorMessage :: "(string \<Rightarrow> int option) \<Rightarrow> int \<Rightarrow> string" where
  "errorMessage code error =
     (case find (\<lambda>(name, _). code name = Some error) error_texts of
        Some (_, message) \<Rightarrow> message
      | None \<Rightarrow> ''Unknown ('' @ fmt_d error @ '')'')"

section \<open>Runs\<close>

text \<open>A call returns, ends the process, leaves through an exception of the OpenCL wrapper, or has no
  meaning. A call of the runtime gives a value or the code of the exception it throws.\<close>

datatype 'a cl_run = Cl_ok 'a | Cl_exit int | Cl_throw int | Cl_undef

primrec bind_cl :: "'a cl_run \<Rightarrow> ('a \<Rightarrow> 'b cl_run) \<Rightarrow> 'b cl_run" where
  "bind_cl (Cl_ok x) f = f x"
| "bind_cl (Cl_exit c) f = Cl_exit c"
| "bind_cl (Cl_throw e) f = Cl_throw e"
| "bind_cl Cl_undef f = Cl_undef"

fun of_runtime :: "int + 'a \<Rightarrow> 'a cl_run" where
  "of_runtime (Inl e) = Cl_throw e"
| "of_runtime (Inr x) = Cl_ok x"

section \<open>Platform, devices, program\<close>

datatype cl_device_type =
    CL_DEVICE_TYPE_DEFAULT | CL_DEVICE_TYPE_GPU | CL_DEVICE_TYPE_CPU | CL_DEVICE_TYPE_ACCELERATOR

record cl_device =
  dv_name :: string
  dv_mem :: nat
  dv_max_alloc :: nat

record cl_platform =
  pl_name :: string
  pl_version :: string
  pl_extensions :: string
  pl_devices :: "cl_device_type \<Rightarrow> int + cl_device list"

text \<open>The arguments of a kernel call: a buffer by its handle, or a value.\<close>

datatype kernel_arg = Buffer_arg nat | Uint_arg u32 | Int_arg int

text \<open>The runtime and the environment: the variables \<^verbatim>\<open>PLATFORM\<close> and \<^verbatim>\<open>TYPE\<close>, the platforms, the
  objects the runtime makes, the contents of a file.\<close>

record cl_env =
  c_PLATFORM :: "string option"
  c_TYPE :: "string option"
  c_platforms :: "int + cl_platform list"
  c_context :: "cl_device list \<Rightarrow> int + nat"
  c_file :: "string \<Rightarrow> byte list option"
  c_program :: "nat \<Rightarrow> cl_device list \<Rightarrow> byte list list \<Rightarrow> int + nat"
  c_queue :: "int + nat"
  c_device_buf :: "nat \<Rightarrow> int + nat"
  c_host_buf :: "nat \<Rightarrow> int + nat"
  c_kernel :: "nat \<Rightarrow> string \<Rightarrow> int + nat"
  c_program_context :: "nat \<Rightarrow> int + nat"
  c_context_queue :: "nat \<Rightarrow> int + nat"
  c_setArg :: "nat \<Rightarrow> kernel_arg \<Rightarrow> int option"

definition device_type :: "string option \<Rightarrow> cl_device_type" where
  "device_type t =
     (case t of None \<Rightarrow> CL_DEVICE_TYPE_DEFAULT
      | Some s \<Rightarrow>
          if s = ''GPU'' then CL_DEVICE_TYPE_GPU
          else if s = ''CPU'' then CL_DEVICE_TYPE_CPU
          else if s = ''ACCELERATOR'' then CL_DEVICE_TYPE_ACCELERATOR
          else CL_DEVICE_TYPE_DEFAULT)"

definition platform_text :: "cl_platform \<Rightarrow> string" where
  "platform_text p =
     ''Platform name: '' @ pl_name p @ nl @ ''Platform version: '' @ pl_version p @ nl
     @ ''Platform extensions: '' @ pl_extensions p @ nl"

definition device_text :: "cl_device \<Rightarrow> string" where
  "device_text d =
     ''Device: '' @ dv_name d @ '', mem: '' @ fmt_d (int (dv_mem d div (1024 * 1024)))
     @ '' MB, max alloc: '' @ fmt_d (int (dv_max_alloc d div (1024 * 1024))) @ '' MB'' @ nl"

text \<open>The second loop over the platforms: it stops at the first of the wanted name.\<close>

fun choose_platform ::
  "cl_env \<Rightarrow> string \<Rightarrow> cl_platform list \<Rightarrow> string \<Rightarrow> (nat \<times> cl_device list \<times> string) cl_run" where
  "choose_platform env name [] out = Cl_exit 1"
| "choose_platform env name (p # ps) out =
     (if pl_name p = name then
        bind_cl (of_runtime (pl_devices p (device_type (c_TYPE env)))) (\<lambda>devices.
        bind_cl (of_runtime (c_context env devices)) (\<lambda>c.
        Cl_ok (c, devices, out @ concat (map device_text devices))))
      else choose_platform env name ps out)"

definition platform_name :: "cl_env \<Rightarrow> string" where
  "platform_name env =
     (case c_PLATFORM env of None \<Rightarrow> ''Intel(R) FPGA SDK for OpenCL(TM)'' | Some s \<Rightarrow> s)"

definition createContext :: "cl_env \<Rightarrow> (nat \<times> cl_device list \<times> string) cl_run" where
  "createContext env =
     bind_cl (of_runtime (c_platforms env)) (\<lambda>platforms.
       choose_platform env (platform_name env) platforms (concat (map platform_text platforms)))"

text \<open>A file that cannot be opened reads as empty.\<close>

definition createProgramFromBinaries :: "cl_env \<Rightarrow> nat \<Rightarrow> cl_device list \<Rightarrow> string \<Rightarrow> nat cl_run" where
  "createProgramFromBinaries env c devices name =
     of_runtime (c_program env c devices [case c_file env name of None \<Rightarrow> [] | Some bs \<Rightarrow> bs])"

definition get_program :: "cl_env \<Rightarrow> nat \<Rightarrow> cl_device \<Rightarrow> string \<Rightarrow> (nat \<times> string) cl_run" where
  "get_program env c device filename =
     (case createProgramFromBinaries env c [device] filename of
        Cl_ok prog \<Rightarrow> Cl_ok (prog, ''>>> Loading program from binary: '' @ filename @ nl @ nl)
      | Cl_throw e \<Rightarrow> Cl_exit EXIT_FAILURE
      | Cl_exit x \<Rightarrow> Cl_exit x
      | Cl_undef \<Rightarrow> Cl_undef)"

section \<open>Calling a kernel\<close>

text \<open>The object of the class \<^verbatim>\<open>Kernel\<close>: the kernel of the given name and a queue of its own, made in the
  order of the initialisers; the queue is in the context the program was built for.\<close>

record kernel_object =
  ko_kernel :: nat
  ko_queue :: nat

definition getContext :: "cl_env \<Rightarrow> nat \<Rightarrow> nat cl_run" where
  "getContext env prog = of_runtime (c_program_context env prog)"

definition new_Kernel :: "cl_env \<Rightarrow> nat \<Rightarrow> string \<Rightarrow> kernel_object cl_run" where
  "new_Kernel env prog name =
     bind_cl (of_runtime (c_kernel env prog name)) (\<lambda>k.
     bind_cl (getContext env prog) (\<lambda>c.
     bind_cl (of_runtime (c_context_queue env c)) (\<lambda>q.
     Cl_ok \<lparr>ko_kernel = k, ko_queue = q\<rparr>)))"

text \<open>The recursion of \<^verbatim>\<open>set_args_n\<close>: \<open>set\<close> collects the arguments set, with their index.\<close>

fun set_args_n ::
  "(nat \<Rightarrow> kernel_arg \<Rightarrow> int option) \<Rightarrow> nat \<Rightarrow> kernel_arg list \<Rightarrow> (nat \<times> kernel_arg) list \<Rightarrow>
   (nat \<times> kernel_arg) list cl_run" where
  "set_args_n setArg n [] args = Cl_ok args"
| "set_args_n setArg n (a # as) args =
     (case setArg n a of Some e \<Rightarrow> Cl_throw e
      | None \<Rightarrow> set_args_n setArg (n + 1) as (args @ [(n, a)]))"

text \<open>\<^verbatim>\<open>set_args\<close>.\<close>

definition set_args ::
  "(nat \<Rightarrow> kernel_arg \<Rightarrow> int option) \<Rightarrow> kernel_arg list \<Rightarrow> (nat \<times> kernel_arg) list cl_run" where
  "set_args setArg args = set_args_n setArg 0 args []"

text \<open>\<^verbatim>\<open>operator()\<close> up to the enqueueing: an exception while the arguments are set ends the process.\<close>

definition kernel_call :: "cl_env \<Rightarrow> kernel_arg list \<Rightarrow> (nat \<times> kernel_arg) list cl_run" where
  "kernel_call env args =
     (case set_args (c_setArg env) args of
        Cl_ok s \<Rightarrow> Cl_ok s
      | Cl_throw e \<Rightarrow> Cl_exit EXIT_FAILURE
      | Cl_exit x \<Rightarrow> Cl_exit x
      | Cl_undef \<Rightarrow> Cl_undef)"

section \<open>The host function of the FPGA sender\<close>

text \<open>The objects \<^verbatim>\<open>ib_fpga_send_loop\<close> makes, up to the arguments of its kernel call; taking the first
  of no devices has no meaning.\<close>

definition fpga_setup :: "cl_env \<Rightarrow> u32 \<Rightarrow> ((nat \<times> kernel_arg) list \<times> string) cl_run" where
  "fpga_setup env header_crc =
     bind_cl (createContext env) (\<lambda>(c, devices, out).
     if devices = [] then Cl_undef
     else
       bind_cl (get_program env c (devices ! 0) ''ibverbs.aocx'') (\<lambda>(prog, said).
       bind_cl (of_runtime (c_queue env)) (\<lambda>_.
       bind_cl (of_runtime (c_device_buf env fpga_header_size)) (\<lambda>device_buf.
       bind_cl (of_runtime (c_host_buf env fpga_header_size)) (\<lambda>_.
       bind_cl (new_Kernel env prog ''write_ibverb_packet'') (\<lambda>_.
       bind_cl (kernel_call env [Buffer_arg device_buf, Uint_arg header_crc,
           Uint_arg (word_of_nat fpga_header_size), Int_arg 1]) (\<lambda>args.
       Cl_ok (args, out @ said))))))))"

text \<open>The buffers: the host buffer holds the headers after the \<^verbatim>\<open>memcpy\<close>, the device buffer what the
  runtime left in it; \<open>fb_lines\<close> is what the kernel has written.\<close>

record fpga_buffers =
  fb_host :: "byte list"
  fb_device :: "byte list"
  fb_mapped :: bool
  fb_lines :: "line list outcome option"

text \<open>The commands, the local queue of the function and the queue the \<^verbatim>\<open>Kernel\<close> object makes for itself,
  and the sequence of actions of the host.\<close>

datatype fpga_command = Copy_buffer | Run_kernel u32 u32 int | Unmap_buffer

datatype fpga_action = Enqueue_local fpga_command | Enqueue_kernel fpga_command | Wait_kernel

text \<open>\<^verbatim>\<open>operator()\<close> after its arguments were set puts the kernel into the object's own queue and keeps the
  event of it, for which \<^verbatim>\<open>finish\<close> waits.\<close>

definition kernel_enqueue :: "fpga_command \<Rightarrow> fpga_action list" where
  "kernel_enqueue run = [Enqueue_kernel run]"

definition kernel_finish :: "fpga_action list" where
  "kernel_finish = [Wait_kernel]"

definition fpga_actions :: "u32 \<Rightarrow> fpga_action list" where
  "fpga_actions header_crc =
     [Enqueue_local Copy_buffer]
     @ kernel_enqueue (Run_kernel header_crc (word_of_nat fpga_header_size) 1)
     @ kernel_finish
     @ [Enqueue_local Unmap_buffer]"

definition run_command :: "byte list \<Rightarrow> fpga_command \<Rightarrow> fpga_buffers \<Rightarrow> fpga_buffers" where
  "run_command uninit c b =
     (case c of
        Copy_buffer \<Rightarrow> b\<lparr>fb_device := fb_host b\<rparr>
      | Run_kernel header_crc hsize chan \<Rightarrow>
          b\<lparr>fb_lines := Some (write_ibverb_packet uninit (fb_device b) header_crc hsize chan)\<rparr>
      | Unmap_buffer \<Rightarrow> b\<lparr>fb_mapped := False\<rparr>)"

text \<open>A run: what the host has still to do, the two queues, the buffers. The host enqueues, or waits
  until the kernel's queue is empty; each queue runs its oldest command; nothing orders the queues.\<close>

type_synonym fpga_state = "fpga_action list \<times> fpga_command list \<times> fpga_command list \<times> fpga_buffers"

inductive fpga_step :: "byte list \<Rightarrow> fpga_state \<Rightarrow> fpga_state \<Rightarrow> bool" for uninit where
  enqueue_local: "fpga_step uninit (Enqueue_local c # as, l, k, b) (as, l @ [c], k, b)"
| enqueue_kernel: "fpga_step uninit (Enqueue_kernel c # as, l, k, b) (as, l, k @ [c], b)"
| wait_kernel: "fpga_step uninit (Wait_kernel # as, l, [], b) (as, l, [], b)"
| run_local: "fpga_step uninit (as, c # l, k, b) (as, l, k, run_command uninit c b)"
| run_kernel: "fpga_step uninit (as, l, c # k, b) (as, l, k, run_command uninit c b)"

inductive_cases fpga_step_elim: "fpga_step uninit (as, l, k, b) s"

definition fpga_start :: "packet \<Rightarrow> u32 \<Rightarrow> byte list \<Rightarrow> fpga_state" where
  "fpga_start p header_crc device_init =
     (fpga_actions header_crc, [], [],
      \<lparr>fb_host = take fpga_header_size (packet_bytes p), fb_device = device_init, fb_mapped = True,
       fb_lines = None\<rparr>)"

section \<open>The states of a run\<close>

text \<open>The output of the kernel on a device buffer, the buffers by their contents, and the actions left
  after \<open>i\<close> of them.\<close>

definition kernel_lines :: "byte list \<Rightarrow> u32 \<Rightarrow> byte list \<Rightarrow> line list outcome option" where
  "kernel_lines uninit header_crc d =
     Some (write_ibverb_packet uninit d header_crc (word_of_nat fpga_header_size) 1)"

definition fpga_bufs :: "packet \<Rightarrow> byte list \<Rightarrow> bool \<Rightarrow> line list outcome option \<Rightarrow> fpga_buffers" where
  "fpga_bufs p d m r = \<lparr>fb_host = take fpga_header_size (packet_bytes p), fb_device = d, fb_mapped = m, fb_lines = r\<rparr>"

definition kern_cmd :: "u32 \<Rightarrow> fpga_command" where
  "kern_cmd header_crc = Run_kernel header_crc (word_of_nat fpga_header_size) 1"

lemma run_command_fpga_bufs [simp]:
  "run_command uninit Copy_buffer (fpga_bufs p d m r) = fpga_bufs p (take fpga_header_size (packet_bytes p)) m r"
  "run_command uninit (kern_cmd header_crc) (fpga_bufs p d m r) = fpga_bufs p d m (kernel_lines uninit header_crc d)"
  "run_command uninit Unmap_buffer (fpga_bufs p d m r) = fpga_bufs p d False r"
  by (simp_all add: run_command_def fpga_bufs_def kern_cmd_def kernel_lines_def)

text \<open>Every state a run can be in. \<open>good\<close> is the output for the headers; while the copy is still to
  come, the kernel can only have seen the initial contents \<open>d0\<close>.\<close>

inductive fpga_phase :: "byte list \<Rightarrow> packet \<Rightarrow> u32 \<Rightarrow> byte list \<Rightarrow> fpga_state \<Rightarrow> bool"
  for uninit p c d0 where
  phase0: "fpga_phase uninit p c d0
    ([Enqueue_local Copy_buffer, Enqueue_kernel (kern_cmd c), Wait_kernel, Enqueue_local Unmap_buffer], [], [],
     fpga_bufs p d0 True None)"
| phase1: "l = [Copy_buffer] \<and> d = d0 \<or> l = [] \<and> d = take fpga_header_size (packet_bytes p) \<Longrightarrow>
    fpga_phase uninit p c d0
      ([Enqueue_kernel (kern_cmd c), Wait_kernel, Enqueue_local Unmap_buffer], l, [], fpga_bufs p d True None)"
| phase2: "l = [Copy_buffer] \<and> d = d0 \<or> l = [] \<and> d = take fpga_header_size (packet_bytes p) \<Longrightarrow>
    fpga_phase uninit p c d0 ([Wait_kernel, Enqueue_local Unmap_buffer], l, [kern_cmd c], fpga_bufs p d True None)"
| phase3: "l = [Copy_buffer] \<and> d = d0 \<and> r = kernel_lines uninit c d0 \<or>
      l = [] \<and> d = take fpga_header_size (packet_bytes p) \<and> r \<in> {kernel_lines uninit c d, kernel_lines uninit c d0} \<Longrightarrow>
    as = [Wait_kernel, Enqueue_local Unmap_buffer] \<or> as = [Enqueue_local Unmap_buffer] \<Longrightarrow>
    fpga_phase uninit p c d0 (as, l, [], fpga_bufs p d True r)"
| phase4: "l = [Copy_buffer, Unmap_buffer] \<and> d = d0 \<and> m \<and> r = kernel_lines uninit c d0 \<or>
      (l = [Unmap_buffer] \<and> m \<or> l = [] \<and> \<not> m) \<and> d = take fpga_header_size (packet_bytes p) \<and>
        r \<in> {kernel_lines uninit c d, kernel_lines uninit c d0} \<Longrightarrow>
    fpga_phase uninit p c d0 ([], l, [], fpga_bufs p d m r)"

lemma fpga_phase_step:
  assumes "fpga_phase uninit p c d0 s" and "fpga_step uninit s s'"
  shows "fpga_phase uninit p c d0 s'"
  using assms
  by (cases rule: fpga_phase.cases) (auto elim!: fpga_step_elim intro: fpga_phase.intros)

lemma fpga_start_eq:
  "fpga_start p c d0 =
     ([Enqueue_local Copy_buffer, Enqueue_kernel (kern_cmd c), Wait_kernel, Enqueue_local Unmap_buffer], [], [],
      fpga_bufs p d0 True None)"
  by (simp add: fpga_start_def fpga_actions_def kernel_enqueue_def kernel_finish_def kern_cmd_def fpga_bufs_def)

lemma fpga_start_phase: "fpga_phase uninit p c d0 (fpga_start p c d0)"
  unfolding fpga_start_eq by (rule phase0)

lemma fpga_reachable:
  "(fpga_step uninit)\<^sup>*\<^sup>* (fpga_start p c d0) s \<Longrightarrow> fpga_phase uninit p c d0 s"
  by (induction rule: rtranclp_induct) (auto intro: fpga_start_phase fpga_phase_step)

lemma fpga_can_step:
  "\<exists>s'. fpga_step uninit (Enqueue_local c # as, l, k, b) s'"
  "\<exists>s'. fpga_step uninit (Enqueue_kernel c # as, l, k, b) s'"
  "\<exists>s'. fpga_step uninit (Wait_kernel # as, l, [], b) s'"
  "\<exists>s'. fpga_step uninit (as, c # l, k, b) s'"
  "\<exists>s'. fpga_step uninit (as, l, c # k, b) s'"
  by (rule exI, rule fpga_step.intros)+

text \<open>Progress: a state with anything left has a successor.\<close>

lemma fpga_progress:
  assumes "fpga_phase uninit p c d0 s"
  shows "(\<exists>b. s = ([], [], [], b)) \<or> (\<exists>s'. fpga_step uninit s s')"
  using assms by (cases rule: fpga_phase.cases) (auto simp del: split_paired_Ex intro: fpga_can_step)

text \<open>The two schedules: with \<open>copy\<close> the copy runs before the kernel, else after it.\<close>

lemma fpga_schedules:
  fixes p
  defines "host \<equiv> take fpga_header_size (packet_bytes p)"
  shows "(fpga_step uninit)\<^sup>*\<^sup>* (fpga_start p c d0) ([], [], [], fpga_bufs p host False (kernel_lines uninit c host))"
    and "(fpga_step uninit)\<^sup>*\<^sup>* (fpga_start p c d0) ([], [], [], fpga_bufs p host False (kernel_lines uninit c d0))"
proof -
  let ?S = "fpga_step uninit"
  have e1: "?S (fpga_start p c d0) ([Enqueue_kernel (kern_cmd c), Wait_kernel, Enqueue_local Unmap_buffer],
      [Copy_buffer], [], fpga_bufs p d0 True None)"
    using enqueue_local [of uninit Copy_buffer _ "[]"] by (simp add: fpga_start_eq)
  have e2: "?S (Enqueue_kernel (kern_cmd c) # as, l, [], b) (as, l, [kern_cmd c], b)" for as l b
    using enqueue_kernel [of uninit "kern_cmd c" as l "[]"] by simp
  have copy: "?S (as, Copy_buffer # l, k, fpga_bufs p d m r) (as, l, k, fpga_bufs p host m r)" for as l k d m r
    using run_local [of uninit as Copy_buffer l k "fpga_bufs p d m r"] by (simp add: host_def)
  have run: "?S (as, l, [kern_cmd c], fpga_bufs p d m r) (as, l, [], fpga_bufs p d m (kernel_lines uninit c d))" for as l d m r
    using run_kernel [of uninit as l "kern_cmd c" "[]" "fpga_bufs p d m r"] by simp
  have w: "?S (Wait_kernel # as, l, [], b) (as, l, [], b)" for as l b by (rule wait_kernel)
  have e4: "?S ([Enqueue_local Unmap_buffer], [], k, b) ([], [Unmap_buffer], k, b)" for k b
    using enqueue_local [of uninit Unmap_buffer "[]" "[]"] by simp
  have unmap: "?S ([], [Unmap_buffer], [], fpga_bufs p d m r) ([], [], [], fpga_bufs p d False r)" for d m r
    using run_local [of uninit "[]" Unmap_buffer "[]" "[]" "fpga_bufs p d m r"] by simp
  note chain = converse_rtranclp_into_rtranclp [where r = ?S]
  show "?S\<^sup>*\<^sup>* (fpga_start p c d0) ([], [], [], fpga_bufs p host False (kernel_lines uninit c host))"
    by (rule chain [OF e1], rule chain [OF copy], rule chain [OF e2], rule chain [OF run], rule chain [OF w],
      rule chain [OF e4], rule chain [OF unmap], rule rtranclp.rtrancl_refl)
  show "?S\<^sup>*\<^sup>* (fpga_start p c d0) ([], [], [], fpga_bufs p host False (kernel_lines uninit c d0))"
    by (rule chain [OF e1], rule chain [OF e2], rule chain [OF run], rule chain [OF copy], rule chain [OF w],
      rule chain [OF e4], rule chain [OF unmap], rule rtranclp.rtrancl_refl)
qed

text \<open>The complete runs.\<close>

lemma fpga_runs:
  "(\<forall>s. (fpga_step uninit)\<^sup>*\<^sup>* (fpga_start p c d0) s \<longrightarrow> (\<exists>b. s = ([], [], [], b)) \<or> (\<exists>s'. fpga_step uninit s s')) \<and>
   (\<forall>b. (fpga_step uninit)\<^sup>*\<^sup>* (fpga_start p c d0) ([], [], [], b) \<longrightarrow> \<not> fb_mapped b \<and>
      fb_lines b \<in> {Some (ib_fpga_send_loop True d0 uninit p c), Some (write_ibverb_packet uninit d0 c 74 1)}) \<and>
   (\<exists>b. (fpga_step uninit)\<^sup>*\<^sup>* (fpga_start p c d0) ([], [], [], b) \<and>
      fb_lines b = Some (ib_fpga_send_loop True d0 uninit p c)) \<and>
   (\<exists>b. (fpga_step uninit)\<^sup>*\<^sup>* (fpga_start p c d0) ([], [], [], b) \<and>
      fb_lines b = Some (write_ibverb_packet uninit d0 c 74 1))"
proof -
  let ?host = "take fpga_header_size (packet_bytes p)"
  have good: "kernel_lines uninit c ?host = Some (ib_fpga_send_loop True d0 uninit p c)"
    by (simp add: kernel_lines_def ib_fpga_send_loop_def)
  have stale: "kernel_lines uninit c d0 = Some (write_ibverb_packet uninit d0 c 74 1)"
    by (simp add: kernel_lines_def fpga_header_size_def)
  have final: "\<not> fb_mapped b \<and> fb_lines b \<in> {kernel_lines uninit c ?host, kernel_lines uninit c d0}"
    if "(fpga_step uninit)\<^sup>*\<^sup>* (fpga_start p c d0) ([], [], [], b)" for b
    using fpga_reachable [OF that] by (cases rule: fpga_phase.cases) (auto simp: fpga_bufs_def)
  have "fb_lines (fpga_bufs p ?host False r) = r" for r by (simp add: fpga_bufs_def)
  with fpga_schedules [of uninit p c d0] fpga_progress [OF fpga_reachable] final
  show ?thesis unfolding good stale by blast
qed

lemma fpga_run_frames:
  "(\<forall>b. (fpga_step uninit)\<^sup>*\<^sup>* (fpga_start p c d0) ([], [], [], b) \<longrightarrow>
      (\<exists>copied. fb_lines b = Some (ib_fpga_send_loop copied d0 uninit p c))) \<and>
   (\<forall>copied. \<exists>b. (fpga_step uninit)\<^sup>*\<^sup>* (fpga_start p c d0) ([], [], [], b) \<and>
      fb_lines b = Some (ib_fpga_send_loop copied d0 uninit p c))"
proof -
  let ?done = "\<lambda>b. (fpga_step uninit)\<^sup>*\<^sup>* (fpga_start p c d0) ([], [], [], b)"
  have stale: "ib_fpga_send_loop False d0 uninit p c = write_ibverb_packet uninit d0 c 74 1"
    by (simp add: ib_fpga_send_loop_def fpga_header_size_def)
  note runs = fpga_runs [of uninit p c d0, folded stale]
  have "\<exists>b. ?done b \<and> fb_lines b = Some (ib_fpga_send_loop copied d0 uninit p c)" for copied
    using conjunct2 [OF conjunct2 [OF runs]] by (cases copied) simp_all
  moreover have "\<exists>copied. fb_lines b = Some (ib_fpga_send_loop copied d0 uninit p c)" if "?done b" for b
    using conjunct1 [OF conjunct2 [OF runs]] that by blast
  ultimately show ?thesis by blast
qed

section \<open>Setting up\<close>

lemma set_args_n_all:
  "\<forall>i a. setArg i a = None \<Longrightarrow> set_args_n setArg n as args = Cl_ok (args @ zip [n..<n + length as] as)"
  by (induction as arbitrary: n args) (simp_all add: upt_conv_Cons del: upt_Suc)

lemma choose_platform_first:
  "\<forall>q \<in> set pre. pl_name q \<noteq> name \<Longrightarrow>
     choose_platform env name (pre @ ps) out = choose_platform env name ps out"
  by (induction pre) simp_all

section \<open>Properties\<close>

text \<open>The objects \<^verbatim>\<open>ib_fpga_send_loop\<close> makes. The context is that of the first platform with the name
  in \<^verbatim>\<open>PLATFORM\<close>, or of the FPGA platform without it, and of its devices of the type \<^verbatim>\<open>TYPE\<close> names; no
  such platform ends the program with status 1. Then the file \<open>ibverbs.aocx\<close> is loaded for the first
  device, an exception there ends it with the failure status, and otherwise the kernel's four arguments
  are set, in order: device buffer, header checksum, header size 74, channel 1.\<close>

theorem fpga_setup_cases:
  assumes "c_platforms env = Inr (pre @ ps)" and "\<forall>q \<in> set pre. pl_name q \<noteq> platform_name env"
    and "ps = [] \<or> pl_name (ps ! 0) = platform_name env \<and>
      pl_devices (ps ! 0) (device_type (c_TYPE env)) = Inr (d # ds) \<and> c_context env (d # ds) = Inr c"
    and "c_queue env = Inr q" and "c_device_buf env 74 = Inr db" and "c_host_buf env 74 = Inr hb"
    and "\<forall>prog. c_kernel env prog ''write_ibverb_packet'' = Inr k" and "\<forall>i a. c_setArg env i a = None"
    and "\<forall>prog. c_program_context env prog = Inr c" and "c_context_queue env c = Inr q'"
    and "c_file env ''ibverbs.aocx'' = Some binary"
  shows "fpga_setup env crc =
    (if ps = [] then Cl_exit 1
     else case c_program env c [d] [binary] of Inl e \<Rightarrow> Cl_exit EXIT_FAILURE
     | Inr prog \<Rightarrow>
         Cl_ok ([(0, Buffer_arg db), (1, Uint_arg crc), (2, Uint_arg 74), (3, Int_arg 1)],
           concat (map platform_text (pre @ ps)) @ concat (map device_text (d # ds))
           @ ''>>> Loading program from binary: ibverbs.aocx'' @ nl @ nl))"
proof (cases ps)
  case Nil
  then show ?thesis
    using assms(1,2) choose_platform_first [of pre "platform_name env" env "[]"]
    by (simp add: fpga_setup_def createContext_def)
next
  case (Cons p0 rest)
  have ctx: "createContext env =
      Cl_ok (c, d # ds, concat (map platform_text (pre @ ps)) @ concat (map device_text (d # ds)))"
    using assms(1-3) Cons by (simp add: createContext_def choose_platform_first)
  have args: "kernel_call env as = Cl_ok (zip [0..<length as] as)" for as
    using set_args_n_all [of "c_setArg env" 0 as "[]"] assms(8) by (simp add: kernel_call_def set_args_def)
  have kern: "new_Kernel env prog ''write_ibverb_packet'' = Cl_ok \<lparr>ko_kernel = k, ko_queue = q'\<rparr>" for prog
    using assms(7,9,10) by (simp add: new_Kernel_def getContext_def)
  have prog: "createProgramFromBinaries env c [d] ''ibverbs.aocx'' = of_runtime (c_program env c [d] [binary])"
    using assms(11) by (simp add: createProgramFromBinaries_def)
  show ?thesis
    using Cons assms(4-6)
    by (cases "c_program env c [d] [binary]")
      (simp_all add: fpga_setup_def ctx get_program_def prog args kern fpga_header_size_def upt_rec)
qed

definition example_cl :: cl_env where
  "example_cl =
     \<lparr>c_PLATFORM = Some ''P'', c_TYPE = None,
      c_platforms = Inr [\<lparr>pl_name = ''P'', pl_version = ''1'', pl_extensions = [],
        pl_devices = (\<lambda>_. Inr [\<lparr>dv_name = ''D'', dv_mem = 0, dv_max_alloc = 0\<rparr>])\<rparr>],
      c_context = (\<lambda>_. Inr 1), c_file = (\<lambda>_. Some [7]), c_program = (\<lambda>_ _ _. Inr 2), c_queue = Inr 3,
      c_device_buf = (\<lambda>_. Inr 4), c_host_buf = (\<lambda>_. Inr 5), c_kernel = (\<lambda>_ _. Inr 6),
      c_program_context = (\<lambda>_. Inr 1), c_context_queue = (\<lambda>_. Inr 8), c_setArg = (\<lambda>_ _. None)\<rparr>"

theorem fpga_setup_cases_witness:
  "\<exists>out. fpga_setup example_cl 9 =
    Cl_ok ([(0, Buffer_arg 4), (1, Uint_arg 9), (2, Uint_arg 74), (3, Int_arg 1)], out)"
  using fpga_setup_cases [of example_cl "[]" "[\<lparr>pl_name = ''P'', pl_version = ''1'', pl_extensions = [],
        pl_devices = (\<lambda>_. Inr [\<lparr>dv_name = ''D'', dv_mem = 0, dv_max_alloc = 0\<rparr>])\<rparr>]"
      "\<lparr>dv_name = ''D'', dv_mem = 0, dv_max_alloc = 0\<rparr>" "[]" 1 3 4 5 6 8 "[7]" 9]
  by (simp add: example_cl_def platform_name_def)



end
