(* ===== verification/Sender_Loop.thy ===== *)
theory Sender_Loop
  imports C_Library
begin

text \<open>
  The contract the three datagram senders of the repository share (\<^verbatim>\<open>ib_host_send_loop\<close> of
  \<^verbatim>\<open>src/raw_ibverbs.c\<close>, \<^verbatim>\<open>main\<close> of \<^verbatim>\<open>src/raw_udp.c\<close>, \<^verbatim>\<open>client_loop\<close> of
  \<^verbatim>\<open>src/udp.c\<close>): a loop that numbers its messages, hands one frame per iteration to
  \<^verbatim>\<open>sendto\<close>, and stops at the interrupt or at the first result that is not accepted. The answers of
  \<^verbatim>\<open>sendto\<close> up to the interrupt are a list. The client lemmas say what such a loop has sent in either
  case; each sender interprets the locale on its own step.
\<close>

locale counting_sender =
  fixes loop :: "'s \<Rightarrow> int list \<Rightarrow> 'r"
    and finished :: "'s \<Rightarrow> 'r"
    and failed :: "'s \<Rightarrow> 'r"
    and count :: "'s \<Rightarrow> int"
    and sent :: "'s \<Rightarrow> 'f list"
    and inv :: "'s \<Rightarrow> bool"
    and accepted :: "int \<Rightarrow> int \<Rightarrow> bool"
    and frame :: "int \<Rightarrow> 'f"
  assumes loop_Nil: "loop st [] = finished st"
    and loop_accepted: "\<lbrakk>inv st; 0 \<le> count st; count st < 2 ^ 31 - 1; accepted (count st) r\<rbrakk> \<Longrightarrow>
      \<exists>st'. (\<forall>rs. loop st (r # rs) = loop st' rs) \<and> inv st' \<and> count st' = count st + 1 \<and>
        sent st' = sent st @ [frame (count st)]"
    and loop_rejected: "\<lbrakk>inv st; 0 \<le> count st; count st < 2 ^ 31 - 1; \<not> accepted (count st) r\<rbrakk> \<Longrightarrow>
      \<exists>st'. loop st (r # rs) = failed st' \<and> inv st' \<and> sent st' = sent st"
begin

text \<open>The frames of a run of \<open>n\<close> iterations from message \<open>c\<close> on.\<close>

definition frames :: "int \<Rightarrow> nat \<Rightarrow> 'f list" where
  "frames c n = map (\<lambda>k. frame (c + int k)) [0..<n]"

lemma frames_0 [simp]: "frames c 0 = []"
  by (simp add: frames_def)

lemma frames_Suc: "frames c (Suc n) = frame c # frames (c + 1) n"
  by (simp add: frames_def upt_conv_Cons map_Suc_upt [symmetric] comp_def add.assoc del: upt_Suc)

definition accepts :: "int \<Rightarrow> int list \<Rightarrow> bool" where
  "accepts c rs \<longleftrightarrow> (\<forall>k < length rs. accepted (c + int k) (rs ! k))"

lemma accepts_Cons: "accepts c (r # rs) \<longleftrightarrow> accepted c r \<and> accepts (c + 1) rs"
  by (simp add: accepts_def All_less_Suc2 add.assoc)

text \<open>A run of accepted answers, whatever follows it.\<close>

lemma run_accepted:
  assumes "inv st" and "0 \<le> count st" and "count st + int (length rs) < 2 ^ 31"
    and "accepts (count st) rs"
  shows "\<exists>st'. (\<forall>more. loop st (rs @ more) = loop st' more) \<and> inv st' \<and>
    count st' = count st + int (length rs) \<and> sent st' = sent st @ frames (count st) (length rs)"
  using assms
proof (induction rs arbitrary: st)
  case Nil
  then show ?case by auto
next
  case (Cons r rs)
  have "count st < 2 ^ 31 - 1" and "accepted (count st) r" and acc: "accepts (count st + 1) rs"
    using Cons.prems by (auto simp: accepts_Cons)
  with loop_accepted [OF Cons.prems(1,2)] obtain st1
    where st1: "\<And>rs. loop st (r # rs) = loop st1 rs" "inv st1" "count st1 = count st + 1"
      "sent st1 = sent st @ [frame (count st)]" by metis
  have "0 \<le> count st1" and "count st1 + int (length rs) < 2 ^ 31" and "accepts (count st1) rs"
    using Cons.prems acc st1(3) by simp_all
  from Cons.IH [OF st1(2) this] st1 show ?case by (auto simp: frames_Suc)
qed

lemma loop_sends:
  assumes "inv st" and "0 \<le> count st" and "count st + int (length rs) < 2 ^ 31"
    and "accepts (count st) rs"
  shows "\<exists>st'. loop st rs = finished st' \<and> inv st' \<and> sent st' = sent st @ frames (count st) (length rs)"
  using run_accepted [OF assms] loop_Nil by (metis append_Nil2)

lemma loop_stops:
  assumes "inv st" and "0 \<le> count st" and "count st + int (length rs) < 2 ^ 31 - 1"
    and "accepts (count st) rs" and "\<not> accepted (count st + int (length rs)) r"
  shows "\<exists>st'. loop st (rs @ r # more) = failed st' \<and> inv st' \<and>
    sent st' = sent st @ frames (count st) (length rs)"
proof -
  have "count st + int (length rs) < 2 ^ 31" using assms(3) by simp
  from run_accepted [OF assms(1,2) this assms(4)] obtain st1
    where st1: "\<And>more. loop st (rs @ more) = loop st1 more" "inv st1"
      "count st1 = count st + int (length rs)" "sent st1 = sent st @ frames (count st) (length rs)"
    by blast
  have "\<exists>st'. loop st1 (r # more) = failed st' \<and> inv st' \<and> sent st' = sent st1"
    using assms st1 by (intro loop_rejected) simp_all
  with st1 show ?thesis by auto
qed

end

end
