(* ===== verification/Raw_Ibverbs.thy ===== *)
theory Raw_Ibverbs
  imports Crc32 Raw_Packet Lookup_Addr Fpga_Kernel Sender_Loop Interruptible
begin

text \<open>
  Model of \<^verbatim>\<open>src/raw_ibverbs.c\<close>, the sender that builds RoCEv1 Unreliable Datagram frames by hand:
  the header checksum with its masked fields, the checksum of a whole packet, the headers that do not
  depend on the payload, the send loop over a raw socket, and \<^verbatim>\<open>main\<close> with its two command lines.
  Shown here: the checksum on the wire is the CRC-32 over 64 one bits, the masked headers and the
  payload; it ignores exactly the fields a router may change; the precomputed header checksum extended
  by the payload is the checksum of the whole packet. The static
  packet object has no room for the checksum: the address the loop computes for it is the first one
  behind the object, so the storage that follows the object is part of the state.
\<close>

section \<open>Sizes\<close>

definition checksum_size :: u32 where "checksum_size = 4"
definition ib_transport_header_size :: u32 where "ib_transport_header_size = 12 + 8"
definition total_header_size :: u64 where "total_header_size = 14 + 60"

declare checksum_size_def [layout_simps] ib_transport_header_size_def [layout_simps]
  total_header_size_def [layout_simps]

section \<open>Checksums\<close>

definition mask_grh :: "ib_grh \<Rightarrow> ib_grh" where
  "mask_grh g = g\<lparr>traffic_class_p1 := NOT 0, traffic_class_p2 := NOT 0, flow_label := NOT 0,
                  hop_limit := NOT 0\<rparr>"

definition mask_bth :: "ib_bth \<Rightarrow> ib_bth" where
  "mask_bth b = b\<lparr>reserved1 := NOT 0\<rparr>"

definition ib_header_checksum :: "ib_headers \<Rightarrow> u32 outcome" where
  "ib_header_checksum header =
     (let ib_padding = (NOT 0 :: u64); g = mask_grh (grh header); b = mask_bth (bth header) in
      bind_outcome (crc32 0 (le64 ib_padding) 8) (\<lambda>crc.
      bind_outcome (crc32 crc (grh_bytes g) 40) (\<lambda>crc.
      bind_outcome (crc32 crc (bth_bytes b) 12) (\<lambda>crc.
      crc32 crc (deth_bytes (deth header)) 8))))"

text \<open>The length of the data comes from the header in \<^verbatim>\<open>size_t\<close> arithmetic, which wraps. The
  second component of the result is the text the function prints.\<close>

definition ib_checksum :: "packet \<Rightarrow> (u32 \<times> string) outcome" where
  "ib_checksum p =
     (let data_length = ucast (ntohs (payload_length (grh (ib_header p))))
            - ucast (ib_transport_header_size + checksum_size) :: u64 in
      bind_outcome (ib_header_checksum (ib_header p)) (\<lambda>crc.
      bind_outcome (crc32 crc (data p) data_length) (\<lambda>crc.
      Ok (crc, fmt_x (unat crc) @ nl
            @ fmt_x (unat (le32 crc ! 0)) @ '' '' @ fmt_x (unat (le32 crc ! 1)) @ '' ''
            @ fmt_x (unat (le32 crc ! 2)) @ '' '' @ fmt_x (unat (le32 crc ! 3)) @ nl))))"

section \<open>The headers\<close>

definition init_eth :: "ethhdr \<Rightarrow> addr \<Rightarrow> addr \<Rightarrow> ethhdr" where
  "init_eth e src dst = e\<lparr>h_proto := htons 0x8915, h_dest := mac dst, h_source := mac src\<rparr>"

definition init_grh :: "ib_grh \<Rightarrow> addr \<Rightarrow> addr \<Rightarrow> ib_grh" where
  "init_grh g src dst =
     g\<lparr>ip_version := 6, next_header := 27, hop_limit := 1,
       source := ipv6 src, dest := ipv6 dst,
       payload_length :=
         htons (ucast (word_of_nat MSG_SIZE + ib_transport_header_size + checksum_size))\<rparr>"

definition init_bth :: "ib_bth \<Rightarrow> u32 \<Rightarrow> ib_bth" where
  "init_bth b qp =
     b\<lparr>opcode := 0x64, sollicited_event := 0, migration_request := 1,
       partition_key := htons 0xFFFF, destination_qp := ucast (htonl (push_bit 8 qp))\<rparr>"

definition init_deth :: "ib_deth \<Rightarrow> ib_deth" where
  "init_deth d = d\<lparr>queue_key := htonl 0x11111111, source_qp := ucast (htonl (push_bit 8 0x182))\<rparr>"

definition init_invariant_headers :: "packet \<Rightarrow> addr \<Rightarrow> addr \<Rightarrow> u32 \<Rightarrow> (packet \<times> u32) outcome" where
  "init_invariant_headers p src dst qp =
     (let h = ib_header p;
          h' = h\<lparr>grh := init_grh (grh h) src dst, bth := init_bth (bth h) qp, deth := init_deth (deth h)\<rparr>;
          p' = p\<lparr>ether_header := init_eth (ether_header p) src dst, ib_header := h'\<rparr>
      in bind_outcome (ib_header_checksum h') (\<lambda>crc. Ok (p', crc)))"

section \<open>The send loop\<close>

text \<open>The state of the loop: the packet object, the bytes of storage that follow it, the message
  counter, the frames handed to the kernel and the text printed.\<close>

record host_state =
  h_packet :: packet
  h_beyond :: "byte list"
  h_count :: int
  h_sent :: "byte list list"
  h_out :: string

definition frame_length :: u32 where
  "frame_length = word_of_nat MSG_SIZE + ucast total_header_size + checksum_size"

text \<open>The address \<^verbatim>\<open>&packet->data[MSG_SIZE]\<close> in bytes from the start of the packet: the headers lie in
  front of the payload array.\<close>

definition checksum_offset :: "packet \<Rightarrow> nat" where
  "checksum_offset p = length (eth_bytes (ether_header p)) + length (headers_bytes (ib_header p)) + MSG_SIZE"

text \<open>One iteration. \<open>ntop\<close> is \<^verbatim>\<open>inet_ntop\<close> for IPv6, \<open>sent\<close> the result of \<^verbatim>\<open>sendto\<close>.
  \<^verbatim>\<open>count++\<close> is undefined at \<^verbatim>\<open>INT_MAX\<close>. The memory from the packet on is that of the object followed by
  the storage behind it; the checksum is stored in it at its address, undefined outside of it, and what
  lies in the object afterwards is the packet from then on; \<^verbatim>\<open>sendto\<close> reads \<^verbatim>\<open>length\<close> bytes from the
  packet on.\<close>

definition host_send_step ::
  "(byte list \<Rightarrow> string) \<Rightarrow> u32 \<Rightarrow> host_state \<Rightarrow> int \<Rightarrow> host_state outcome" where
  "host_send_step ntop header_crc st sent =
     (if h_count st = 2 ^ 31 - 1 then UB
      else
        let msg = snprintf_to (data (h_packet st)) MSG_SIZE (message_text (h_count st));
            p = (h_packet st)\<lparr>data := fst msg\<rparr>;
            result = snd msg
        in if result < 0 \<or> int MSG_SIZE \<le> result then Exit EXIT_FAILURE
           else bind_outcome (crc32 header_crc (data p) (word_of_nat MSG_SIZE)) (\<lambda>checksum.
             bind_outcome (store32 (checksum_offset p) checksum (packet_bytes p @ h_beyond st)) (\<lambda>memory.
               let size = length (packet_bytes p);
                   p = packet_of_bytes (take size memory);
                   frame = take (unat frame_length) memory
               in if length frame < unat frame_length then UB
                  else if sent = -1 then Exit EXIT_FAILURE
                  else Ok \<lparr>h_packet = p, h_beyond = drop size memory, h_count = h_count st + 1,
                           h_sent = h_sent st @ [frame],
                           h_out = h_out st @ print_ib_headers ntop (ib_header p) @ nl\<rparr>)))"

text \<open>The loop runs until the signal handler clears \<^verbatim>\<open>packet_loop\<close>: the list holds the results of
  \<^verbatim>\<open>sendto\<close> of the iterations before that.\<close>

fun host_send_loop ::
  "(byte list \<Rightarrow> string) \<Rightarrow> u32 \<Rightarrow> host_state \<Rightarrow> int list \<Rightarrow> host_state outcome" where
  "host_send_loop ntop header_crc st [] = Ok st"
| "host_send_loop ntop header_crc st (r # rs) =
     bind_outcome (host_send_step ntop header_crc st r)
       (\<lambda>st'. host_send_loop ntop header_crc st' rs)"

definition ib_host_send_loop ::
  "(byte list \<Rightarrow> string) \<Rightarrow> int \<Rightarrow> int list \<Rightarrow> packet \<Rightarrow> byte list \<Rightarrow> u32 \<Rightarrow> host_state outcome" where
  "ib_host_send_loop ntop sock sends p beyond header_crc =
     (if sock = -1 then Exit EXIT_FAILURE
      else host_send_loop ntop header_crc
             \<lparr>h_packet = p, h_beyond = beyond, h_count = 0, h_sent = [], h_out = []\<rparr> sends)"

section \<open>The interrupt\<close>

text \<open>The flag of the loop with its initial value, the loop's condition, the signal handler that \<^verbatim>\<open>main\<close>
  installs for the interrupt, and what \<^verbatim>\<open>sendto\<close> answers when the handler interrupts it: -1.\<close>

definition raw_packet_loop :: int where "raw_packet_loop = 1"

definition raw_loop_test :: "int \<Rightarrow> bool" where "raw_loop_test packet_loop \<longleftrightarrow> packet_loop \<noteq> 0"

definition raw_stop_loop :: "int \<Rightarrow> int \<Rightarrow> int" where "raw_stop_loop sig flag = 0"

definition raw_send_eintr :: "int option" where "raw_send_eintr = Some (- 1)"

definition host_loop_body ::
  "(byte list \<Rightarrow> string) \<Rightarrow> u32 \<Rightarrow> host_state \<Rightarrow> int \<Rightarrow> host_state + host_state outcome" where
  "host_loop_body ntop header_crc st r = outcome_body (host_send_step ntop header_crc st r)"

text \<open>The complete runs of the loop under the interrupt.\<close>

abbreviation host_runs where
  "host_runs ntop header_crc \<equiv> loop_run raw_loop_test (raw_stop_loop SIGINT) raw_send_eintr
     (host_loop_body ntop header_crc) Ok raw_packet_loop"

interpretation host_interrupt: interruptible_loop raw_loop_test "raw_stop_loop SIGINT" raw_send_eintr
  "host_loop_body ntop header_crc" Ok raw_packet_loop "host_send_loop ntop header_crc"
proof unfold_locales
  fix st r rs
  show "host_send_loop ntop header_crc st (r # rs) = (case host_loop_body ntop header_crc st r of
      Inl st' \<Rightarrow> host_send_loop ntop header_crc st' rs | Inr x \<Rightarrow> x)"
    by (cases "host_send_step ntop header_crc st r") (simp_all add: host_loop_body_def)
qed (simp_all add: raw_packet_loop_def raw_stop_loop_def raw_loop_test_def)

section \<open>Command line and main\<close>

text \<open>What the program asks of its environment: the answers of the operating system and of the
  conversion functions, the storage behind the static packet, the results of \<^verbatim>\<open>sendto\<close> until the
  interrupt; on the FPGA, the contents of the uninitialised array and of the new device buffer, and
  whether the copy to that buffer runs before the kernel.\<close>

record raw_env =
  e_sigaction :: int
  e_ifaddrs :: "ifaddrs list option"
  e_getaddrinfo :: "string \<Rightarrow> u32 option"
  e_arp_socket :: int
  e_arp :: "u32 \<Rightarrow> string \<Rightarrow> byte list option"
  e_pton4 :: "string \<Rightarrow> u32 option"
  e_pton6 :: "string \<Rightarrow> byte list option"
  e_ether_aton :: "string \<Rightarrow> byte list option"
  e_ntop4 :: "u32 \<Rightarrow> string"
  e_ntop6 :: "byte list \<Rightarrow> string"
  e_ether_ntoa :: "byte list \<Rightarrow> string"
  e_nametoindex :: "string \<Rightarrow> int"
  e_raw_socket :: int
  e_sends :: "int list"
  e_beyond :: "byte list"
  e_uninit :: "byte list"
  e_device_buf :: "byte list"
  e_copied :: bool

record device =
  sll_ifindex :: int
  sll_halen :: int
  dev_addr :: "byte list"

text \<open>The two command lines; the components are \<^verbatim>\<open>use_fpga\<close>, the interface index, the local and
  the remote address, the queue pair and the text printed by the lookup.\<close>

definition raw_args :: "raw_env \<Rightarrow> string list \<Rightarrow> (bool \<times> int \<times> addr \<times> addr \<times> u32 \<times> string) outcome" where
  "raw_args env argv =
     (let argc = length argv in
      if (argc = 5 \<or> argc = 6) \<and> argv ! 1 = ''host'' then
        let ifname = (if argc = 6 then argv ! 5 else ''eth4'') in
        bind_outcome (lookup_local_addr (e_ifaddrs env) ifname) (\<lambda>(loc, said).
        bind_outcome (lookup_remote_addr (e_getaddrinfo env) (e_arp_socket env) (e_arp env)
            (e_pton6 env) ifname (argv ! 2) (Some (argv ! 3))) (\<lambda>rem.
        bind_outcome (atoi (argv ! 4)) (\<lambda>qp.
        if e_nametoindex env ifname = 0 then Exit EXIT_FAILURE
        else Ok (False, e_nametoindex env ifname, loc, rem, word_of_int qp, said))))
      else if (argc = 6 \<or> argc = 9) \<and> argv ! 1 = ''fpga'' then
        let from_strings = addr_from_strings (e_ether_aton env) (e_pton4 env) (e_pton6 env) in
        if argc = 6 then
          bind_outcome (from_strings ''04:3f:72:d4:2f:7c'' ''10.149.5.104'' ''fe80::63f:72ff:fed4:2f7c'') (\<lambda>loc.
          bind_outcome (from_strings (argv ! 2) (argv ! 3) (argv ! 4)) (\<lambda>rem.
          bind_outcome (atoi (argv ! 5)) (\<lambda>qp. Ok (True, 0, loc, rem, word_of_int qp, []))))
        else
          bind_outcome (from_strings (argv ! 2) (argv ! 3) (argv ! 4)) (\<lambda>loc.
          bind_outcome (from_strings (argv ! 5) (argv ! 6) (argv ! 7)) (\<lambda>rem.
          bind_outcome (atoi (argv ! 8)) (\<lambda>qp. Ok (True, 0, loc, rem, word_of_int qp, []))))
      else Exit EXIT_FAILURE)"

definition zero_packet :: packet where
  "zero_packet =
     \<lparr>ether_header = \<lparr>h_dest = replicate 6 0, h_source = replicate 6 0, h_proto = 0\<rparr>,
      ib_header =
        \<lparr>grh = \<lparr>traffic_class_p1 = 0, ip_version = 0, traffic_class_p2 = 0, flow_label = 0,
                payload_length = 0, next_header = 0, hop_limit = 0,
                source = replicate 16 0, dest = replicate 16 0\<rparr>,
         bth = \<lparr>opcode = 0, transport_hdr_version = 0, pad_count = 0, migration_request = 0,
                sollicited_event = 0, partition_key = 0, reserved1 = 0, destination_qp = 0,
                acknowledge_req = 0, reserved2 = 0, packet_sequence = 0\<rparr>,
         deth = \<lparr>queue_key = 0, reserved = 0, source_qp = 0\<rparr>\<rparr>,
      data = replicate MSG_SIZE 0\<rparr>"

datatype raw_run = Host_run host_state | Fpga_run "line list"

definition raw_main :: "raw_env \<Rightarrow> string list \<Rightarrow> (device \<times> raw_run \<times> string) outcome" where
  "raw_main env argv =
     (if e_sigaction env \<noteq> 0 then Exit EXIT_FAILURE
      else
        bind_outcome (raw_args env argv) (\<lambda>(use_fpga, ifindex, loc, rem, qp, said).
        let pr = print_addr (e_ntop4 env) (e_ntop6 env) (e_ether_ntoa env);
            out = said @ ''Local address:'' @ nl @ pr loc @ nl @ ''Remote address:'' @ nl @ pr rem @ nl;
            dev = \<lparr>sll_ifindex = ifindex, sll_halen = 6, dev_addr = take 6 (mac rem)\<rparr> in
        bind_outcome (init_invariant_headers zero_packet loc rem qp) (\<lambda>(p, header_crc).
        if use_fpga
        then bind_outcome (ib_fpga_send_loop (e_copied env) (e_device_buf env) (e_uninit env) p header_crc)
               (\<lambda>ls. Ok (dev, Fpga_run ls, out))
        else bind_outcome (ib_host_send_loop (e_ntop6 env) (e_raw_socket env) (e_sends env) p
               (e_beyond env) header_crc) (\<lambda>st. Ok (dev, Host_run st, out)))))"

section \<open>The checksum as a function of the wire bytes\<close>

text \<open>What the InfiniBand invariant checksum covers: 64 one bits for the missing local route header,
  the masked headers, the payload.\<close>

definition icrc_input :: "ib_headers \<Rightarrow> byte list \<Rightarrow> byte list" where
  "icrc_input h bs = replicate 8 0xFF @ grh_bytes (mask_grh (grh h)) @ bth_bytes (mask_bth (bth h))
     @ deth_bytes (deth h) @ bs"

definition icrc :: "ib_headers \<Rightarrow> byte list \<Rightarrow> u32" where
  "icrc h bs = crc32_spec 0 (icrc_input h bs)"

definition wire_frame :: "packet \<Rightarrow> byte list \<Rightarrow> byte list" where
  "wire_frame p bs = eth_bytes (ether_header p) @ headers_bytes (ib_header p) @ bs
     @ le32 (icrc (ib_header p) bs)"

lemma le64_ones: "le64 (- 1) = replicate 8 0xFF"
proof -
  have "ucast (drop_bit (8 * i) (- 1 :: u64)) = (0xFF :: byte)" if "i < 8" for i
  proof -
    have "ucast (drop_bit (8 * i) (- 1 :: u64)) = (- 1 :: byte)"
      using that by (intro bit_word_eqI) (simp add: bit_simps)
    then show ?thesis by simp
  qed
  then have "le64 (- 1) = map (\<lambda>_. 0xFF) [0..<8]" by (simp add: le64_def)
  then show ?thesis by (simp add: map_replicate_const)
qed

lemma wf_mask_grh [simp]: "wf_grh (mask_grh g) = wf_grh g"
  by (simp add: wf_grh_def mask_grh_def)

lemma ib_header_checksum_eq: "wf_headers h \<Longrightarrow> ib_header_checksum h = Ok (icrc h [])"
proof -
  assume "wf_headers h"
  then have "length (grh_bytes (mask_grh (grh h))) = 40"
    by (simp add: grh_codec.enc_length wf_headers_def)
  then show ?thesis
    by (simp add: ib_header_checksum_def Let_def crc32_eq_spec le64_ones bth_codec.enc_length
      deth_codec.enc_length icrc_def icrc_input_def crc.upd_append)
qed

lemma icrc_extend: "crc32_spec (icrc h xs) ys = icrc h (xs @ ys)"
  by (simp add: icrc_def icrc_input_def crc.upd_append)

lemma mask_grh_eq:
  "mask_grh g = mask_grh g' \<longleftrightarrow>
     g' = g\<lparr>traffic_class_p1 := traffic_class_p1 g', traffic_class_p2 := traffic_class_p2 g',
            flow_label := flow_label g', hop_limit := hop_limit g'\<rparr>"
  by (cases g; cases g') (auto simp: mask_grh_def)

lemma mask_bth_eq: "mask_bth b = mask_bth b' \<longleftrightarrow> b' = b\<lparr>reserved1 := reserved1 b'\<rparr>"
  by (cases b; cases b') (auto simp: mask_bth_def)

lemma icrc_input_inj:
  assumes "wf_headers h" and "wf_headers h'"
  shows "icrc_input h xs = icrc_input h' ys \<longleftrightarrow>
    mask_grh (grh h) = mask_grh (grh h') \<and> mask_bth (bth h) = mask_bth (bth h') \<and>
    deth h = deth h' \<and> xs = ys"
proof -
  have "length (grh_bytes (mask_grh (grh h))) = length (grh_bytes (mask_grh (grh h')))"
    using assms by (simp add: grh_codec.enc_length wf_headers_def)
  then show ?thesis
    using assms grh_codec.enc_inj [of "mask_grh (grh h)" "mask_grh (grh h')"]
      bth_codec.enc_inj [of "mask_bth (bth h)" "mask_bth (bth h')"]
      deth_codec.enc_inj [of "deth h" "deth h'"]
    by (auto simp: icrc_input_def bth_codec.enc_length deth_codec.enc_length wf_headers_def)
qed

section \<open>The initial headers\<close>

lemma wf_zero_packet: "wf_packet zero_packet"
  by (simp add: zero_packet_def wf_packet_def wf_eth_def wf_headers_def wf_grh_def layout_simps)

definition headers_init :: "packet \<Rightarrow> addr \<Rightarrow> addr \<Rightarrow> u32 \<Rightarrow> packet" where
  "headers_init p src dst qp =
     p\<lparr>ether_header := init_eth (ether_header p) src dst,
       ib_header := (ib_header p)\<lparr>grh := init_grh (grh (ib_header p)) src dst,
         bth := init_bth (bth (ib_header p)) qp, deth := init_deth (deth (ib_header p))\<rparr>\<rparr>"

lemma wf_headers_init:
  "wf_packet p \<Longrightarrow> wf_addr src \<Longrightarrow> wf_addr dst \<Longrightarrow> wf_packet (headers_init p src dst qp)"
  by (simp add: headers_init_def wf_packet_def wf_eth_def wf_headers_def wf_grh_def wf_addr_def
    init_eth_def init_grh_def layout_simps)

lemma init_invariant_headers_eq:
  assumes "wf_packet p" and "wf_addr src" and "wf_addr dst"
  shows "init_invariant_headers p src dst qp =
    Ok (headers_init p src dst qp, icrc (ib_header (headers_init p src dst qp)) [])"
proof -
  have "wf_headers (ib_header (headers_init p src dst qp))"
    using wf_headers_init [OF assms] by (simp add: wf_packet_def)
  then show ?thesis
    by (simp add: init_invariant_headers_def Let_def ib_header_checksum_eq headers_init_def)
qed

text \<open>The queue pair number: shifted, byte-swapped and stored in 24 bits.\<close>

lemma le32_qp_field: "le32 (push_bit 8 (ucast (ucast w :: 24 word))) = 0 # take 3 (le32 w)"
proof -
  let ?v = "push_bit 8 (ucast (ucast w :: 24 word)) :: u32"
  have "ucast ?v = (0 :: byte)" "ucast (drop_bit 8 ?v) = (ucast w :: byte)"
    "ucast (drop_bit 16 ?v) = (ucast (drop_bit 8 w) :: byte)"
    "ucast (drop_bit 24 ?v) = (ucast (drop_bit 16 w) :: byte)"
    by (rule bit_word_eqI, force simp: bit_simps)+
  then show ?thesis by (simp add: le32_def)
qed

lemma le32_push8: "le32 (push_bit 8 qp) = [0, ucast qp, ucast (drop_bit 8 qp), ucast (drop_bit 16 qp)]"
proof -
  have "ucast (push_bit 8 qp) = (0 :: byte)" "ucast (drop_bit 8 (push_bit 8 qp)) = (ucast qp :: byte)"
    "ucast (drop_bit 16 (push_bit 8 qp)) = (ucast (drop_bit 8 qp) :: byte)"
    "ucast (drop_bit 24 (push_bit 8 qp)) = (ucast (drop_bit 16 qp) :: byte)"
    by (rule bit_word_eqI, force simp: bit_simps)+
  then show ?thesis by (simp add: le32_def)
qed

lemma qp_field_bytes:
  "le32 (push_bit 8 (ucast (ucast (htonl (push_bit 8 qp)) :: 24 word)))
     = [0, ucast (drop_bit 16 qp), ucast (drop_bit 8 qp), ucast qp]"
  unfolding le32_qp_field by (simp add: le32_htonl le32_push8)

lemma ucast_24_id: "ucast (drop_bit 24 w) = (0 :: byte) \<Longrightarrow> ucast (ucast w :: 24 word) = w"
  for w :: u32
proof (rule bit_word_eqI)
  fix n assume top: "ucast (drop_bit 24 w) = (0 :: byte)" and n: "n < LENGTH(32)"
  have "\<not> bit (ucast (drop_bit 24 w) :: byte) k" for k by (simp only: top bit_0_eq) simp
  then have "\<not> bit w (24 + k)" if "k < 8" for k using that by (simp add: bit_simps)
  from this [of "n - 24"] n show "bit (ucast (ucast w :: 24 word) :: u32) n = bit w n"
    by (cases "n < 24") (simp_all add: bit_simps)
qed

lemma qp_roundtrip:
  "drop_bit 8 (ntohl (ucast (ucast (htonl (push_bit 8 qp)) :: 24 word))) = take_bit 24 qp"
proof -
  have "le32 (htonl (push_bit 8 qp)) ! 3 = 0"
    by (simp add: le32_htonl le32_push8)
  then have "ucast (drop_bit 24 (htonl (push_bit 8 qp))) = (0 :: byte)"
    by (simp add: le32_def)
  then have "ucast (ucast (htonl (push_bit 8 qp)) :: 24 word) = htonl (push_bit 8 qp)"
    by (rule ucast_24_id)
  moreover have "drop_bit 8 (push_bit 8 qp) = take_bit 24 qp"
    by (rule bit_word_eqI) (auto simp: bit_simps)
  ultimately show ?thesis by simp
qed

lemma init_header_words:
  "grh_word (init_grh (grh (ib_header zero_packet)) src dst) = 0x60"
  "bth_flags (init_bth (bth (ib_header zero_packet)) qp) = 0x40"
  "bth_psn_word (init_bth (bth (ib_header zero_packet)) qp) = 0"
  "bth_qp_word (init_bth (bth (ib_header zero_packet)) qp)
     = push_bit 8 (ucast (ucast (htonl (push_bit 8 qp)) :: 24 word))"
  "deth_word (init_deth (deth (ib_header zero_packet)))
     = push_bit 8 (ucast (ucast (htonl (push_bit 8 0x182)) :: 24 word))"
  by (simp_all add: grh_word_def bth_flags_def bth_psn_word_def bth_qp_word_def deth_word_def
    init_grh_def init_bth_def init_deth_def zero_packet_def)

lemma le_constants:
  "le32 0x60 = [0x60, 0, 0, 0]" "le32 0 = [0, 0, 0, 0]"
  "rev (le16 0x8915) = [0x89, 0x15]" "rev (le16 0x2304) = [0x23, 0x04]"
  "rev (le16 0xFFFF) = [0xFF, 0xFF]" "rev (le32 0x11111111) = [0x11, 0x11, 0x11, 0x11]"
  "rev (le32 0x18200) = [0, 0x01, 0x82, 0]"
  by (simp_all add: le32_def le16_def drop_bit_eq_div)

section \<open>The payload\<close>

definition padded :: "string \<Rightarrow> byte list" where
  "padded s = map of_char s @ replicate (MSG_SIZE - length s) 0"

lemma snprintf_padded:
  assumes "length s \<le> length t" and "length t < MSG_SIZE"
  shows "fst (snprintf_to (padded s) MSG_SIZE t) = padded t"
proof -
  have "take (MSG_SIZE - 1) t = t" using assms by simp
  moreover have "drop (Suc (length t)) (padded s) = replicate (MSG_SIZE - Suc (length t)) 0"
    using assms by (simp add: padded_def)
  moreover have "replicate (MSG_SIZE - length t) (0 :: byte) = 0 # replicate (MSG_SIZE - Suc (length t)) 0"
    using assms by (metis Suc_diff_Suc replicate_Suc)
  ultimately show ?thesis
    using assms by (simp add: snprintf_to_def padded_def Let_def)
qed

lemma length_padded: "length s \<le> MSG_SIZE \<Longrightarrow> length (padded s) = MSG_SIZE"
  by (simp add: padded_def)

lemma message_text_mono:
  "0 \<le> j \<Longrightarrow> j \<le> k \<Longrightarrow> length (message_text j) \<le> length (message_text k)"
  by (simp add: message_text_def fmt_d_def length_num_string_mono)

section \<open>One iteration and the whole loop\<close>

text \<open>The loop invariant: a well-formed packet whose payload is an earlier message padded with
  zeros, room for the checksum behind it, and a counter below the overflow.\<close>

definition send_inv :: "host_state \<Rightarrow> bool" where
  "send_inv st \<longleftrightarrow> wf_packet (h_packet st) \<and> 4 \<le> length (h_beyond st) \<and> 0 \<le> h_count st \<and>
     (\<exists>s. data (h_packet st) = padded s \<and> length s \<le> length (message_text (h_count st)))"

lemma unat_frame_length: "unat frame_length = 9018"
  by (simp add: frame_length_def layout_simps)

text \<open>The address of the checksum is the first one behind the object, and a store there leaves the object
  alone.\<close>

lemma checksum_offset_end: "wf_packet p \<Longrightarrow> checksum_offset p = length (packet_bytes p)"
  by (simp add: checksum_offset_def packet_bytes_def wf_packet_def)

lemma checksum_store:
  assumes "wf_packet p"
  shows "store32 (checksum_offset p) w (packet_bytes p @ beyond) =
    (if 4 \<le> length beyond then Ok (packet_bytes p @ le32 w @ drop 4 beyond) else UB)"
  by (simp add: store32_def checksum_offset_end [OF assms])

lemma packet_of_packet_bytes: "wf_packet p \<Longrightarrow> packet_of_bytes (take (length (packet_bytes p)) (packet_bytes p @ bs)) = p"
  by (simp add: packet_codec.dec_enc)

lemma length_packet_bytes: "wf_packet p \<Longrightarrow> length (packet_bytes p) = 9014"
  by (simp add: packet_codec.enc_length layout_simps)

text \<open>One iteration on a well-formed packet with any payload: the only undefined operation, below the
  overflow of the counter, is the store of the checksum.\<close>

lemma host_send_step_store:
  assumes "wf_packet (h_packet st)" and "h_count st \<noteq> 2 ^ 31 - 1"
  shows "host_send_step ntop header_crc st sent =
    (let msg = snprintf_to (data (h_packet st)) MSG_SIZE (message_text (h_count st));
         p = (h_packet st)\<lparr>data := fst msg\<rparr>;
         memory = packet_bytes p @ le32 (crc32_spec header_crc (fst msg)) @ drop 4 (h_beyond st)
     in if snd msg < 0 \<or> int MSG_SIZE \<le> snd msg then Exit EXIT_FAILURE
        else if length (h_beyond st) < 4 then UB
        else if sent = -1 then Exit EXIT_FAILURE
        else Ok \<lparr>h_packet = p, h_beyond = drop 9014 memory, h_count = h_count st + 1,
                 h_sent = h_sent st @ [take 9018 memory],
                 h_out = h_out st @ print_ib_headers ntop (ib_header p) @ nl\<rparr>)"
proof -
  let ?msg = "snprintf_to (data (h_packet st)) MSG_SIZE (message_text (h_count st))"
  let ?p = "(h_packet st)\<lparr>data := fst ?msg\<rparr>"
  have len: "length (fst ?msg) = MSG_SIZE"
    using assms(1) by (simp add: length_snprintf_to wf_packet_def)
  then have wf: "wf_packet ?p" using assms(1) by (simp add: wf_packet_def)
  have "crc32 header_crc (fst ?msg) (word_of_nat MSG_SIZE) = Ok (crc32_spec header_crc (fst ?msg))"
    by (subst crc32_eq_spec) (simp_all add: len [unfolded MSG_SIZE_def] MSG_SIZE_def)
  moreover have "unat frame_length = 9018" by (simp add: frame_length_def layout_simps)
  ultimately show ?thesis
    using assms(2) length_packet_bytes [OF wf] packet_codec.dec_enc [OF wf]
    by (simp add: host_send_step_def Let_def checksum_store [OF wf])
qed

lemma host_send_step_eq:
  assumes inv: "send_inv st" and cnt: "h_count st < 2 ^ 31 - 1"
  shows "host_send_step ntop (icrc (ib_header (h_packet st)) []) st r =
    (if r = -1 then Exit EXIT_FAILURE else Ok (let bs = padded (message_text (h_count st)) in
        \<lparr>h_packet = (h_packet st)\<lparr>data := bs\<rparr>,
         h_beyond = le32 (icrc (ib_header (h_packet st)) bs) @ drop 4 (h_beyond st),
         h_count = h_count st + 1, h_sent = h_sent st @ [wire_frame (h_packet st) bs],
         h_out = h_out st @ print_ib_headers ntop (ib_header (h_packet st)) @ nl\<rparr>))"
proof -
  let ?t = "message_text (h_count st)"
  have t: "length ?t \<le> 19"
    using inv cnt by (intro length_message_text) (simp_all add: send_inv_def)
  then have lt: "length ?t < MSG_SIZE" and len: "length (padded ?t) = MSG_SIZE"
    by (simp_all add: length_padded layout_simps)
  have d: "fst (snprintf_to (data (h_packet st)) MSG_SIZE ?t) = padded ?t"
    using inv lt by (auto simp: send_inv_def snprintf_padded)
  have n: "snd (snprintf_to (data (h_packet st)) MSG_SIZE ?t) = int (length ?t)"
    by (simp add: snprintf_to_def)
  have wf: "wf_packet (h_packet st)" using inv by (simp add: send_inv_def)
  then have pl: "length (packet_bytes ((h_packet st)\<lparr>data := padded ?t\<rparr>)) = 9014"
    using len by (intro length_packet_bytes) (simp add: wf_packet_def)
  then have fr: "take 9018 (packet_bytes ((h_packet st)\<lparr>data := padded ?t\<rparr>)
      @ le32 (icrc (ib_header (h_packet st)) (padded ?t)) @ drop 4 (h_beyond st))
      = wire_frame (h_packet st) (padded ?t)"
    by (simp add: wire_frame_def packet_bytes_def)
  have ne: "h_count st \<noteq> 2 ^ 31 - 1" using cnt by simp
  show ?thesis
    using inv cnt lt
    by (simp add: host_send_step_store [OF wf ne] Let_def d n fr pl send_inv_def icrc_extend del: take_append)
qed

text \<open>The frames depend on the Ethernet and InfiniBand headers only, never on the payload left by the
  previous iteration. The loop keeps those headers and the storage beyond the checksum.\<close>

lemma wire_frame_data [simp]: "wire_frame (p\<lparr>data := d\<rparr>) bs = wire_frame p bs"
  by (simp add: wire_frame_def)

definition host_inv :: "packet \<Rightarrow> byte list \<Rightarrow> host_state \<Rightarrow> bool" where
  "host_inv p tail st \<longleftrightarrow> send_inv st \<and> h_packet st = p\<lparr>data := data (h_packet st)\<rparr> \<and>
     drop 4 (h_beyond st) = tail"

lemma host_inv_packet:
  "host_inv p tail st \<Longrightarrow> ib_header (h_packet st) = ib_header p \<and>
     wire_frame (h_packet st) bs = wire_frame p bs"
  by (cases "h_packet st"; cases p) (simp add: host_inv_def wire_frame_def)

lemma host_inv_step:
  assumes inv: "host_inv p tail st" and cnt: "0 \<le> h_count st" "h_count st < 2 ^ 31 - 1" and r: "r \<noteq> -1"
  shows "\<exists>st'. host_send_step ntop (icrc (ib_header p) []) st r = Ok st' \<and> host_inv p tail st' \<and>
    h_count st' = h_count st + 1 \<and>
    h_sent st' = h_sent st @ [wire_frame p (padded (message_text (h_count st)))]"
proof -
  let ?t = "message_text (h_count st)"
  have s: "send_inv st" using inv by (simp add: host_inv_def)
  have "length ?t \<le> MSG_SIZE"
    using length_message_text [of "h_count st"] cnt by (simp add: layout_simps)
  moreover have "length ?t \<le> length (message_text (h_count st + 1))"
    using cnt by (intro message_text_mono) simp_all
  ultimately show ?thesis
    using host_send_step_eq [OF s cnt(2), of ntop r] r host_inv_packet [OF inv] inv
    by (auto simp: Let_def host_inv_def send_inv_def wf_packet_def length_padded)
qed

interpretation host_sender: counting_sender "host_send_loop ntop (icrc (ib_header p) [])" Ok
  "\<lambda>_. Exit EXIT_FAILURE" h_count h_sent "host_inv p tail" "\<lambda>_ r. r \<noteq> -1"
  "\<lambda>k. wire_frame p (padded (message_text k))" for ntop p tail
proof unfold_locales
  fix st and r :: int
  assume "host_inv p tail st" and "0 \<le> h_count st" and "h_count st < 2 ^ 31 - 1" and "r \<noteq> -1"
  then show "\<exists>st'. (\<forall>rs. host_send_loop ntop (icrc (ib_header p) []) st (r # rs)
        = host_send_loop ntop (icrc (ib_header p) []) st' rs) \<and>
      host_inv p tail st' \<and> h_count st' = h_count st + 1 \<and>
      h_sent st' = h_sent st @ [wire_frame p (padded (message_text (h_count st)))]"
    using host_inv_step [of p tail st r ntop] by auto
next
  fix st and r :: int and rs
  assume inv: "host_inv p tail st" and cnt: "h_count st < 2 ^ 31 - 1" and r: "\<not> r \<noteq> -1"
  from inv have "send_inv st" by (simp add: host_inv_def)
  from host_send_step_eq [OF this cnt, of ntop r] inv r
  show "\<exists>st'. host_send_loop ntop (icrc (ib_header p) []) st (r # rs) = Exit EXIT_FAILURE \<and>
      host_inv p tail st' \<and> h_sent st' = h_sent st"
    by (auto simp: host_inv_packet [OF inv])
qed simp

lemma ib_host_send_loop_frames:
  assumes "wf_addr src" and "wf_addr dst" and "sock \<noteq> -1" and "4 \<le> length beyond"
    and "length sends < 2 ^ 31" and "-1 \<notin> set sends"
    and p_def: "p = headers_init zero_packet src dst qp"
  shows "\<exists>st. ib_host_send_loop ntop sock sends p beyond (icrc (ib_header p) []) = Ok st \<and>
    h_sent st = map (\<lambda>k. wire_frame p (padded (message_text (int k)))) [0..<length sends] \<and>
    drop 4 (h_beyond st) = drop 4 beyond"
proof -
  let ?st = "\<lparr>h_packet = p, h_beyond = beyond, h_count = 0, h_sent = [], h_out = []\<rparr>"
  have "data p = padded []" by (simp add: p_def headers_init_def zero_packet_def padded_def)
  then have inv: "host_inv p (drop 4 beyond) ?st"
    using assms wf_zero_packet
    by (auto simp: host_inv_def send_inv_def wf_headers_init intro!: exI [of _ "[]"])
  have "host_sender.accepts (h_count ?st) sends"
    using assms(6) by (auto simp: host_sender.accepts_def in_set_conv_nth)
  moreover have "h_count ?st + int (length sends) < 2 ^ 31" using assms(5) by simp
  ultimately show ?thesis
    using host_sender.loop_sends [OF inv, of sends ntop] assms(3)
    by (auto simp: ib_host_send_loop_def host_sender.frames_def host_inv_def)
qed

lemma host_step_typed:
  assumes "wf_packet (h_packet st)" and "host_send_step ntop header_crc st sent = Ok st'"
  shows "wf_packet (h_packet st') \<and> length (h_beyond st') = length (h_beyond st) \<and>
    drop 4 (h_beyond st') = drop 4 (h_beyond st) \<and>
    (\<exists>frame. h_sent st' = h_sent st @ [frame] \<and> length frame = 9018)"
proof -
  let ?p = "\<lambda>t. (h_packet st)\<lparr>data := fst (snprintf_to (data (h_packet st)) MSG_SIZE t)\<rparr>"
  have wf: "wf_packet (?p t)" for t
    using assms(1) by (simp add: length_snprintf_to wf_packet_def)
  have ne: "h_count st \<noteq> 2 ^ 31 - 1" using assms(2) by (auto simp: host_send_step_def)
  show ?thesis
    using assms(2) wf length_packet_bytes [OF wf]
    by (auto simp: host_send_step_store [OF assms(1) ne] Let_def split: if_splits)
qed

text \<open>The loop when a \<^verbatim>\<open>sendto\<close> fails.\<close>

lemma ib_host_send_loop_fails:
  assumes "wf_addr src" and "wf_addr dst" and "4 \<le> length beyond"
    and "length sends < 2 ^ 31" and "-1 \<in> set sends"
    and p_def: "p = headers_init zero_packet src dst qp"
  shows "ib_host_send_loop ntop sock sends p beyond (icrc (ib_header p) []) = Exit EXIT_FAILURE"
proof -
  let ?st = "\<lparr>h_packet = p, h_beyond = beyond, h_count = 0, h_sent = [], h_out = []\<rparr>"
  obtain pre more where sends: "sends = pre @ -1 # more" and pre: "-1 \<notin> set pre"
    using split_list_first [OF assms(5)] by blast
  have "data p = padded []" by (simp add: p_def headers_init_def zero_packet_def padded_def)
  then have inv: "host_inv p (drop 4 beyond) ?st"
    using assms wf_zero_packet
    by (auto simp: host_inv_def send_inv_def wf_headers_init intro!: exI [of _ "[]"])
  have "host_sender.accepts (h_count ?st) pre"
    using pre by (auto simp: host_sender.accepts_def in_set_conv_nth)
  moreover have "h_count ?st + int (length pre) < 2 ^ 31 - 1" using assms(4) sends by simp
  ultimately show ?thesis
    using host_sender.loop_stops [OF inv, of pre "-1" ntop more]
    by (auto simp: ib_host_send_loop_def sends)
qed

text \<open>The store of the checksum decides whether the loop is defined, for any payload.\<close>

lemma host_loop_defined:
  assumes "wf_packet (h_packet st)" and "4 \<le> length (h_beyond st)" and "0 \<le> h_count st"
    and "h_count st + int (length sends) < 2 ^ 31"
  shows "host_send_loop ntop header_crc st sends \<noteq> UB"
  using assms
proof (induction sends arbitrary: st)
  case (Cons r rs)
  have cnt: "h_count st \<noteq> 2 ^ 31 - 1" using Cons.prems by simp
  show ?case
  proof (cases "host_send_step ntop header_crc st r")
    case (Ok st')
    then have "h_count st' = h_count st + 1"
      by (auto simp: host_send_step_store [OF Cons.prems(1) cnt] Let_def split: if_splits)
    moreover from host_step_typed [OF Cons.prems(1) Ok]
    have "wf_packet (h_packet st')" "length (h_beyond st') = length (h_beyond st)" by simp_all
    ultimately show ?thesis using Cons.IH [of st'] Cons.prems(2-4) Ok by simp
  next
    case UB
    then show ?thesis
      using Cons.prems by (auto simp: host_send_step_store [OF Cons.prems(1) cnt] Let_def split: if_splits)
  qed simp
qed simp

lemma host_loop_overflow:
  assumes "wf_packet (h_packet st)" and "length (h_beyond st) < 4" and "h_count st = 0" and "sends \<noteq> []"
  shows "host_send_loop ntop header_crc st sends = UB"
proof -
  have "length (message_text 0) \<le> 19" by (rule length_message_text) simp_all
  then have "length (message_text 0) < MSG_SIZE" by (simp add: layout_simps)
  then have "host_send_step ntop header_crc st r = UB" for r
    using assms(1-3) by (subst host_send_step_store) (simp_all add: snprintf_to_def Let_def)
  then show ?thesis using assms(4) by (cases sends) simp_all
qed

text \<open>The loop from the initialised headers, in every case.\<close>

lemma ib_host_send_loop_cases:
  fixes ntop :: "byte list \<Rightarrow> string" and sock :: int and beyond :: "byte list"
  assumes "wf_addr src" and "wf_addr dst" and "length sends < 2 ^ 31"
    and "p = headers_init zero_packet src dst qp"
  defines "loop \<equiv> ib_host_send_loop ntop sock sends p beyond (icrc (ib_header p) [])"
  shows "if sock = -1 then loop = Exit EXIT_FAILURE
    else if sends \<noteq> [] \<and> length beyond < 4 then loop = UB
    else if -1 \<in> set sends then loop = Exit EXIT_FAILURE
    else \<exists>st. loop = Ok st \<and>
      h_sent st = map (\<lambda>k. wire_frame p (padded (message_text (int k)))) [0..<length sends]"
proof -
  have "wf_packet p" using assms(1,2,4) wf_zero_packet by (simp add: wf_headers_init)
  then have "loop = UB" if "sock \<noteq> -1" "sends \<noteq> []" "length beyond < 4"
    using that by (simp add: loop_def ib_host_send_loop_def host_loop_overflow)
  moreover have "loop = Exit EXIT_FAILURE" if "4 \<le> length beyond" "-1 \<in> set sends"
    unfolding loop_def by (rule ib_host_send_loop_fails [OF assms(1,2) that(1) assms(3) that(2) assms(4)])
  moreover have "\<exists>st. loop = Ok st \<and>
      h_sent st = map (\<lambda>k. wire_frame p (padded (message_text (int k)))) [0..<length sends]"
    if "sock \<noteq> -1" "4 \<le> length beyond" "-1 \<notin> set sends"
    using ib_host_send_loop_frames [OF assms(1,2) that(1,2) assms(3) that(3) assms(4)] unfolding loop_def by blast
  moreover have "loop = Exit EXIT_FAILURE" if "sock = -1" using that by (simp add: loop_def ib_host_send_loop_def)
  moreover have "\<exists>st. loop = Ok st \<and> h_sent st = []" if "sock \<noteq> -1" "sends = []"
    using that by (simp add: loop_def ib_host_send_loop_def)
  ultimately show ?thesis by (cases "sends = []") auto
qed

text \<open>The loop under the interrupt.\<close>

lemma host_loop_interrupted:
  assumes "wf_addr src" and "wf_addr dst" and "4 \<le> length beyond" and "length as < 2 ^ 31"
    and p: "p = headers_init zero_packet src dst qp"
    and run: "host_runs ntop (icrc (ib_header p) [])
      \<lparr>h_packet = p, h_beyond = beyond, h_count = 0, h_sent = [], h_out = []\<rparr> flag as r"
  shows "if -1 \<in> set as then r = Exit EXIT_FAILURE
    else \<not> raw_loop_test flag \<and>
      (\<exists>st. r = Ok st \<and> h_sent st = map (\<lambda>k. wire_frame p (padded (message_text (int k)))) [0..<length as])"
proof -
  have "r = ib_host_send_loop ntop 0 as p beyond (icrc (ib_header p) [])"
    using host_interrupt.loop_run_result [OF run] by (simp add: ib_host_send_loop_def)
  moreover have "\<not> raw_loop_test flag" if "r = Ok st" for st
    by (rule host_interrupt.left_by_test [OF run]) (simp add: that host_loop_body_def)
  ultimately show ?thesis
    using ib_host_send_loop_cases [OF assms(1,2,4) p, where sock = 0 and ntop = ntop and beyond = beyond] assms(3)
    by auto
qed

section \<open>Properties\<close>

text \<open>C5: for the well-formed headers of two packets, \<^verbatim>\<open>ib_header_checksum\<close> is the CRC-32 of eight
  0xFF bytes followed by the three headers with masked fields, and the bytes it covers agree exactly
  when the headers agree on everything but the traffic class, flow label, hop limit and the first
  reserved byte: those fields are free to change in transit and no other field is.\<close>

theorem header_checksum_coverage:
  assumes "wf_headers h" and "wf_headers h'"
  shows "ib_header_checksum h = Ok (crc32_spec 0 (icrc_input h [])) \<and>
    (icrc_input h [] = icrc_input h' [] \<longleftrightarrow>
      h' = h\<lparr>grh := (grh h)\<lparr>traffic_class_p1 := traffic_class_p1 (grh h'),
                traffic_class_p2 := traffic_class_p2 (grh h'), flow_label := flow_label (grh h'),
                hop_limit := hop_limit (grh h')\<rparr>,
             bth := (bth h)\<lparr>reserved1 := reserved1 (bth h')\<rparr>\<rparr>)"
  using assms
  by (cases h; cases h')
    (auto simp: ib_header_checksum_eq icrc_def icrc_input_inj mask_grh_eq mask_bth_eq)

theorem header_checksum_coverage_witness:
  "ib_header_checksum (ib_header zero_packet) = Ok (crc32_spec 0 (icrc_input (ib_header zero_packet) []))"
  using header_checksum_coverage [of "ib_header zero_packet" "ib_header zero_packet"] wf_zero_packet
  by (simp add: wf_packet_def)

text \<open>C7: the 74 header bytes on the wire after \<^verbatim>\<open>init_invariant_headers\<close> on the zeroed packet, byte
  by byte: MAC addresses and the RoCEv1 EtherType, an IPv6-style routing header with length 8964,
  next header 27 and hop limit 1, the UD send-only transport header with the destination queue pair in
  big-endian order, and the queue key and source queue pair 0x182. The function returns and the
  checksum it returns is that of these headers.\<close>

theorem invariant_headers_on_wire:
  assumes "wf_addr src" and "wf_addr dst"
  shows "\<exists>p. init_invariant_headers zero_packet src dst qp = Ok (p, icrc (ib_header p) []) \<and>
    wf_packet p \<and> data p = replicate MSG_SIZE 0 \<and>
    eth_bytes (ether_header p) @ headers_bytes (ib_header p) =
      mac dst @ mac src @ [0x89, 0x15]
      @ [0x60, 0, 0, 0, 0x23, 0x04, 27, 1] @ ipv6 src @ ipv6 dst
      @ [0x64, 0x40, 0xFF, 0xFF, 0, ucast (drop_bit 16 qp), ucast (drop_bit 8 qp), ucast qp, 0, 0, 0, 0]
      @ [0x11, 0x11, 0x11, 0x11, 0, 0, 0x01, 0x82]"
proof -
  let ?p = "headers_init zero_packet src dst qp"
  have "init_invariant_headers zero_packet src dst qp = Ok (?p, icrc (ib_header ?p) [])"
    using assms wf_zero_packet by (simp add: init_invariant_headers_eq)
  moreover have "wf_packet ?p" using assms wf_zero_packet by (simp add: wf_headers_init)
  moreover have "data ?p = replicate MSG_SIZE 0"
    by (simp add: headers_init_def zero_packet_def)
  moreover have "eth_bytes (ether_header ?p) = mac dst @ mac src @ [0x89, 0x15]"
    by (simp add: headers_init_def eth_bytes_def init_eth_def bytes_simps le_constants)
  moreover have "grh_bytes (grh (ib_header ?p))
      = [0x60, 0, 0, 0, 0x23, 0x04, 27, 1] @ ipv6 src @ ipv6 dst"
    by (simp add: headers_init_def grh_bytes_def init_header_words le_constants)
      (simp add: init_grh_def bytes_simps le_constants layout_simps)
  moreover have "bth_bytes (bth (ib_header ?p)) = [0x64, 0x40, 0xFF, 0xFF, 0, ucast (drop_bit 16 qp),
      ucast (drop_bit 8 qp), ucast qp, 0, 0, 0, 0]"
    by (simp add: headers_init_def bth_bytes_def init_header_words qp_field_bytes le_constants)
      (simp add: init_bth_def bytes_simps le_constants)
  moreover have "deth_bytes (deth (ib_header ?p)) = [0x11, 0x11, 0x11, 0x11, 0, 0, 0x01, 0x82]"
    unfolding headers_init_def deth_bytes_def
    by (simp add: init_header_words le32_qp_field)
      (simp add: init_deth_def bytes_simps le_constants)
  ultimately show ?thesis by (intro exI [of _ ?p]) (simp add: headers_bytes_def)
qed

theorem invariant_headers_on_wire_witness:
  "wf_addr zero_addr \<and>
   (\<exists>p. init_invariant_headers zero_packet zero_addr zero_addr 0x123456 = Ok (p, icrc (ib_header p) []) \<and>
    drop 54 (eth_bytes (ether_header p) @ headers_bytes (ib_header p)) =
      [0x64, 0x40, 0xFF, 0xFF, 0, 0x12, 0x34, 0x56, 0, 0, 0, 0, 0x11, 0x11, 0x11, 0x11, 0, 0, 0x01, 0x82])"
proof -
  have wf: "wf_addr zero_addr" by (simp add: wf_addr_def zero_addr_def)
  from invariant_headers_on_wire [OF wf wf, where qp = "0x123456"] obtain p where
    i: "init_invariant_headers zero_packet zero_addr zero_addr 0x123456 = Ok (p, icrc (ib_header p) [])"
    and e: "eth_bytes (ether_header p) @ headers_bytes (ib_header p) =
      mac zero_addr @ mac zero_addr @ [0x89, 0x15]
      @ [0x60, 0, 0, 0, 0x23, 0x04, 27, 1] @ ipv6 zero_addr @ ipv6 zero_addr
      @ [0x64, 0x40, 0xFF, 0xFF, 0, ucast (drop_bit 16 (0x123456 :: u32)),
         ucast (drop_bit 8 (0x123456 :: u32)), ucast (0x123456 :: u32), 0, 0, 0, 0]
      @ [0x11, 0x11, 0x11, 0x11, 0, 0, 0x01, 0x82]" by blast
  have "drop 54 (eth_bytes (ether_header p) @ headers_bytes (ib_header p)) =
      [0x64, 0x40, 0xFF, 0xFF, 0, 0x12, 0x34, 0x56, 0, 0, 0, 0, 0x11, 0x11, 0x11, 0x11, 0, 0, 0x01, 0x82]"
    unfolding e by (simp add: zero_addr_def drop_bit_eq_div)
  with wf i show ?thesis by blast
qed

text \<open>C2: with at least four writable bytes behind the packet object, a raw socket and no failing
  \<^verbatim>\<open>sendto\<close>, the send loop returns after any number of iterations below the overflow of its counter
  and has sent exactly one frame per iteration: the fixed headers, the text \<open>Message: k\<close> padded with
  zeros to 8940 bytes, and the little-endian invariant checksum of headers and payload. The bytes
  beyond the four are untouched.\<close>

theorem host_loop_sends_frames:
  assumes "wf_addr src" and "wf_addr dst" and "sock \<noteq> -1" and "4 \<le> length beyond"
    and "length sends < 2 ^ 31" and "-1 \<notin> set sends"
    and "init_invariant_headers zero_packet src dst qp = Ok (p, header_crc)"
  shows "\<exists>st. ib_host_send_loop ntop sock sends p beyond header_crc = Ok st \<and>
    h_sent st = map (\<lambda>k. wire_frame p (padded (message_text (int k)))) [0..<length sends] \<and>
    drop 4 (h_beyond st) = drop 4 beyond"
proof -
  have "p = headers_init zero_packet src dst qp" and "header_crc = icrc (ib_header p) []"
    using assms wf_zero_packet by (auto simp: init_invariant_headers_eq)
  then show ?thesis using ib_host_send_loop_frames [OF assms(1-6) refl] by simp
qed

theorem host_loop_sends_frames_witness:
  "\<exists>p header_crc st. init_invariant_headers zero_packet zero_addr zero_addr 5 = Ok (p, header_crc) \<and>
    ib_host_send_loop (\<lambda>_. ''::'') 3 [9018, 9018] p [0, 0, 0, 0, 9] header_crc = Ok st \<and>
    h_sent st = [wire_frame p (padded (message_text 0)), wire_frame p (padded (message_text 1))] \<and>
    drop 4 (h_beyond st) = [9]"
proof -
  have wf: "wf_addr zero_addr" by (simp add: wf_addr_def zero_addr_def)
  obtain p c where i: "init_invariant_headers zero_packet zero_addr zero_addr 5 = Ok (p, c)"
    using wf wf_zero_packet by (simp add: init_invariant_headers_eq)
  have "\<exists>st. ib_host_send_loop (\<lambda>_. ''::'') 3 [9018, 9018] p [0, 0, 0, 0, 9] c = Ok st \<and>
    h_sent st = map (\<lambda>k. wire_frame p (padded (message_text (int k)))) [0..<length [9018, 9018 :: int]] \<and>
    drop 4 (h_beyond st) = drop 4 [0, 0, 0, 0, 9 :: byte]"
    by (rule host_loop_sends_frames [OF wf wf _ _ _ _ i]) simp_all
  with i show ?thesis by (auto simp: upt_rec)
qed

lemma crc32_whole:
  assumes "length bs < 2 ^ 31"
  shows "crc32 c bs (word_of_nat (length bs)) = Ok (crc32_spec c bs)"
proof -
  have "length bs < 2 ^ LENGTH(64)" using assms by (rule order.strict_trans) simp
  then have "unat (word_of_nat (length bs) :: u64) = length bs" by (simp add: unsigned_of_nat take_bit_nat_eq_self)
  then show ?thesis using assms by (simp add: crc32_eq_spec)
qed

text \<open>C10: a receiver accepts what the sender's checksum completes, and nothing that was damaged inside
  four consecutive bytes of the payload. For well-formed headers, let \<open>c0\<close> be the value of
  \<^verbatim>\<open>ib_header_checksum\<close> and \<open>c\<close> that of \<^verbatim>\<open>crc32\<close> continued over the payload, as the send loop computes it.
  Continued over the payload and the stored checksum, \<^verbatim>\<open>crc32\<close> gives the constant residue; over the
  damaged payload and the stored checksum it gives another value.\<close>

theorem frame_accepted_and_damage_detected:
  assumes "wf_headers h" and "length xs = length ys" and "length xs \<le> 4" and "xs \<noteq> ys"
    and "length (pre @ xs @ post) + 4 < 2 ^ 31" and "len = word_of_nat (length (pre @ xs @ post))"
    and "len4 = word_of_nat (length (pre @ xs @ post) + 4)"
  shows "\<exists>c0 c bad. ib_header_checksum h = Ok c0 \<and> crc32 c0 (pre @ xs @ post) len = Ok c \<and>
    crc32 c0 ((pre @ xs @ post) @ le32 c) len4 = Ok 0x2144DF1C \<and>
    crc32 c0 ((pre @ ys @ post) @ le32 c) len4 = Ok bad \<and> bad \<noteq> 0x2144DF1C"
proof -
  define c0 where "c0 = icrc h []"
  define c where "c = crc32_spec c0 (pre @ xs @ post)"
  have whole: "crc32 c0 bs (word_of_nat (length (pre @ xs @ post) + 4)) = Ok (crc32_spec c0 bs)"
    if "length bs = length (pre @ xs @ post) + 4" for bs
    using that crc32_whole [of bs c0] assms(5) by simp
  have "crc32 c0 (pre @ xs @ post) len = Ok c"
    unfolding c_def assms(6) using assms(5) by (intro crc32_whole) simp
  moreover have ok: "crc32_spec c0 ((pre @ xs @ post) @ le32 c) = 0x2144DF1C"
    unfolding c_def by (rule crc32_spec_residue)
  moreover have "crc32_spec c0 (pre @ xs @ post @ le32 c) \<noteq> crc32_spec c0 (pre @ ys @ post @ le32 c)"
    by (rule crc.detects_burst [OF assms(2-4)])
  moreover have "ib_header_checksum h = Ok c0" using assms(1) by (simp add: ib_header_checksum_eq c0_def)
  moreover have "crc32 c0 ((pre @ xs @ post) @ le32 c) len4 = Ok (crc32_spec c0 ((pre @ xs @ post) @ le32 c))"
    "crc32 c0 ((pre @ ys @ post) @ le32 c) len4 = Ok (crc32_spec c0 ((pre @ ys @ post) @ le32 c))"
    unfolding assms(7) using assms(2) by (intro whole, simp)+
  ultimately show ?thesis by (metis append_assoc)
qed

theorem frame_accepted_and_damage_detected_witness:
  "\<exists>c0 c bad. ib_header_checksum (ib_header zero_packet) = Ok c0 \<and> crc32 c0 [0, 1, 2] 3 = Ok c \<and>
    crc32 c0 ([0, 1, 2] @ le32 c) 7 = Ok 0x2144DF1C \<and> crc32 c0 ([0, 9, 2] @ le32 c) 7 = Ok bad \<and>
    bad \<noteq> 0x2144DF1C"
  using frame_accepted_and_damage_detected [of "ib_header zero_packet" "[1]" "[9]" "[0]" "[2]" 3 7]
    wf_zero_packet by (simp add: wf_packet_def)

text \<open>C40: the packet object has no room for its checksum. For every well-formed packet the address
  \<^verbatim>\<open>&packet->data[MSG_SIZE]\<close>, computed from the layout of the headers, is the first one behind the 9014
  bytes of the object, while the frame handed to \<^verbatim>\<open>sendto\<close> has 9018 bytes. So with a raw socket and at
  least one iteration the send loop is undefined exactly when fewer than four bytes may be written behind
  the object, whatever the payload, the header checksum and the answers of \<^verbatim>\<open>sendto\<close>; in
  particular the object alone (no byte behind it) does not suffice.\<close>

theorem host_loop_overflows_packet:
  assumes "wf_packet p" and "sock \<noteq> -1" and "sends \<noteq> []" and "length sends < 2 ^ 31"
  shows "length (packet_bytes p) = 9014 \<and> checksum_offset p = 9014 \<and> unat frame_length = 9018 \<and>
    (ib_host_send_loop ntop sock sends p beyond header_crc = UB \<longleftrightarrow> length beyond < 4)"
proof -
  let ?st = "\<lparr>h_packet = p, h_beyond = beyond, h_count = 0, h_sent = [], h_out = []\<rparr>"
  have "host_send_loop ntop header_crc ?st sends = UB \<longleftrightarrow> length beyond < 4"
    using host_loop_defined [of ?st sends] host_loop_overflow [of ?st sends] assms by (cases "length beyond < 4") auto
  then show ?thesis
    using assms(2) length_packet_bytes [OF assms(1)] checksum_offset_end [OF assms(1)]
    by (simp add: ib_host_send_loop_def unat_frame_length)
qed

theorem host_loop_overflows_packet_witness:
  "ib_host_send_loop (\<lambda>_. []) 3 [9018] zero_packet [] 0 = UB \<and>
   ib_host_send_loop (\<lambda>_. []) 3 [9018] zero_packet [1, 2, 3, 4] 0 \<noteq> UB"
  using host_loop_overflows_packet [OF wf_zero_packet, of 3 "[9018]" "\<lambda>_. []" "[]" 0]
    host_loop_overflows_packet [OF wf_zero_packet, of 3 "[9018]" "\<lambda>_. []" "[1, 2, 3, 4]" 0] by simp

text \<open>\<^verbatim>\<open>ib_checksum\<close> takes the payload length from the routing header without checking it. For a
  length field \<open>L\<close> it returns the checksum of the first \<open>L - 24\<close> payload bytes when \<open>L\<close> lies between
  24 and 8964; below 24 the length wraps around to a negative loop bound and the payload is left out;
  above 8964 it reads past the packet.\<close>

theorem ib_checksum_cases:
  assumes "wf_packet p"
  shows "map_outcome fst (ib_checksum p) =
    (let L = unat (ntohs (payload_length (grh (ib_header p)))) in
     if L < 24 then Ok (icrc (ib_header p) [])
     else if L \<le> 24 + MSG_SIZE then Ok (icrc (ib_header p) (take (L - 24) (data p)))
     else UB)"
proof -
  let ?w = "ntohs (payload_length (grh (ib_header p)))"
  define L where "L = unat ?w"
  let ?n = "ucast ?w - ucast (ib_transport_header_size + checksum_size) :: u64"
  have L: "L < 2 ^ 16" unfolding L_def by (rule order.strict_trans2 [OF unsigned_less]) simp
  have len: "length (data p) = MSG_SIZE" using assms by (simp add: wf_packet_def)
  have hdr: "ib_header_checksum (ib_header p) = Ok (icrc (ib_header p) [])"
    using assms by (simp add: ib_header_checksum_eq wf_packet_def)
  have body: "map_outcome fst (ib_checksum p) = crc32 (icrc (ib_header p) []) (data p) ?n"
    by (cases "crc32 (icrc (ib_header p) []) (data p) ?n") (simp_all add: ib_checksum_def hdr Let_def)
  have "ucast ?w = (word_of_nat L :: u64)" by (simp add: L_def)
  then have "int_of_size ?n = int L - 24"
    using L int_of_size_diff [of L 24 ?n] by (simp add: layout_simps)
  moreover have "nat (int L - 24) = L - 24" by simp
  ultimately have "crc32 (icrc (ib_header p) []) (data p) ?n =
    (if L < 24 then Ok (icrc (ib_header p) [])
     else if L \<le> 24 + MSG_SIZE then Ok (icrc (ib_header p) (take (L - 24) (data p))) else UB)"
    by (auto simp: crc32_total len icrc_extend)
  then show ?thesis by (simp add: body Let_def flip: L_def)
qed

theorem ib_checksum_cases_witness:
  "map_outcome fst (ib_checksum zero_packet) = Ok (icrc (ib_header zero_packet) [])"
proof -
  have "ntohs 0 = 0" by (simp add: ntohs_def le16_def)
  then show ?thesis
    using ib_checksum_cases [OF wf_zero_packet] by (simp add: zero_packet_def)
qed

text \<open>The diagnostic output shows the queue pair that was asked for: for a number below
  \<open>2 ^ 24\<close>, the text printed for the transport header of an initialised packet is fixed up to the
  destination queue pair, which appears as its hexadecimal digits, and the extended header prints the
  constant queue key and source queue pair.\<close>

theorem printed_headers:
  assumes "unat qp < 2 ^ 24"
  shows "print_bth (init_bth (bth (ib_header zero_packet)) qp) =
      ''Opcode: 0x64'' @ nl @ ''Sollicited: 0'' @ nl @ ''Migration req: 1'' @ nl
      @ ''Pad count: 0'' @ nl @ ''Header version: 0'' @ nl @ ''Partition key: 65535'' @ nl
      @ ''Destination QP: 0x'' @ fmt_x (unat qp) @ nl
      @ ''Acknowledge req: 0'' @ nl @ ''Packet sequence number: 0'' @ nl \<and>
    print_deth (init_deth (deth (ib_header zero_packet))) =
      ''Queue key: 0x11111111'' @ nl @ ''Source QP: 0x182'' @ nl"
proof -
  have qp: "take_bit 24 qp = qp"
    using assms
    by (simp add: word_eq_iff_unsigned [where ?'a = nat] unsigned_take_bit_eq take_bit_nat_eq_self)
  have num: "fmt_x 100 = ''64''" "fmt_d 0 = ''0''" "fmt_d 1 = ''1''" "fmt_d 65535 = ''65535''"
    "fmt_x 286331153 = ''11111111''" "fmt_x 386 = ''182''"
    by (simp_all add: fmt_x_def fmt_d_def num_string.simps digit_char_def char_of_def bit_0)
  show ?thesis
    using qp_roundtrip [of qp] qp_roundtrip [of 386] num
    by (simp add: print_bth_def print_deth_def init_bth_def init_deth_def zero_packet_def qp)
qed

theorem printed_headers_witness:
  "print_bth (init_bth (bth (ib_header zero_packet)) 0x182) =
      ''Opcode: 0x64'' @ nl @ ''Sollicited: 0'' @ nl @ ''Migration req: 1'' @ nl
      @ ''Pad count: 0'' @ nl @ ''Header version: 0'' @ nl @ ''Partition key: 65535'' @ nl
      @ ''Destination QP: 0x'' @ fmt_x 386 @ nl
      @ ''Acknowledge req: 0'' @ nl @ ''Packet sequence number: 0'' @ nl"
  using printed_headers [of "0x182"] by simp

text \<open>C11: the whole host-mode run, with and without an interface name on the command line (without one it
  is \<^verbatim>\<open>eth4\<close>). When the signal handler installs and both lookups on that interface deliver addresses,
  \<^verbatim>\<open>main\<close> called with \<^verbatim>\<open>host\<close>, an IPv4 address, a GID and the decimal digits of a queue pair ends with
  the failure status if the interface has no index or the raw socket fails; is undefined if the loop runs
  at all and fewer than four bytes behind the packet object may be written (C40: the program itself
  provides none); ends with the failure status if a \<^verbatim>\<open>sendto\<close> fails; and otherwise returns having
  sent, from that interface to the remote MAC address, one frame per loop iteration, each with the
  headers built for exactly those addresses and that queue pair. The run has fewer iterations than the
  counter has room for.\<close>

theorem raw_main_host:
  assumes "e_sigaction env = 0" and "opt = [] \<and> ifname = ''eth4'' \<or> opt = [ifname]"
    and "lookup_local_addr (e_ifaddrs env) ifname = Ok (loc, said)"
    and "lookup_remote_addr (e_getaddrinfo env) (e_arp_socket env) (e_arp env) (e_pton6 env) ifname
           ip (Some gid) = Ok rem"
    and "wf_addr loc" and "wf_addr rem" and "- (2 ^ 31) \<le> q" and "q < 2 ^ 31"
    and "length (e_sends env) < 2 ^ 31"
  shows "let run = raw_main env ([prog, ''host'', ip, gid, fmt_d q] @ opt) in
    if e_nametoindex env ifname = 0 \<or> e_raw_socket env = -1 then run = Exit EXIT_FAILURE
    else if e_sends env \<noteq> [] \<and> length (e_beyond env) < 4 then run = UB
    else if -1 \<in> set (e_sends env) then run = Exit EXIT_FAILURE
    else \<exists>st out. run =
        Ok (\<lparr>sll_ifindex = e_nametoindex env ifname, sll_halen = 6, dev_addr = mac rem\<rparr>, Host_run st, out) \<and>
      h_sent st = map (\<lambda>k. wire_frame (headers_init zero_packet loc rem (word_of_int q))
        (padded (message_text (int k)))) [0..<length (e_sends env)]"
proof -
  let ?p = "headers_init zero_packet loc rem (word_of_int q)"
  define loop where "loop = ib_host_send_loop (e_ntop6 env) (e_raw_socket env) (e_sends env) ?p
      (e_beyond env) (icrc (ib_header ?p) [])"
  define run where "run = raw_main env ([prog, ''host'', ip, gid, fmt_d q] @ opt)"
  have args: "raw_args env ([prog, ''host'', ip, gid, fmt_d q] @ opt) =
      (if e_nametoindex env ifname = 0 then Exit EXIT_FAILURE
       else Ok (False, e_nametoindex env ifname, loc, rem, word_of_int q, said))"
    using assms(2-4,7,8) by (auto simp: raw_args_def atoi_fmt_d)
  have hdr: "init_invariant_headers zero_packet loc rem (word_of_int q) = Ok (?p, icrc (ib_header ?p) [])"
    using assms(5,6) wf_zero_packet by (simp add: init_invariant_headers_eq)
  have mac: "take 6 (mac rem) = mac rem" using assms(6) by (simp add: wf_addr_def)
  have "\<exists>out. run = (if e_nametoindex env ifname = 0 then Exit EXIT_FAILURE else bind_outcome loop (\<lambda>st.
      Ok (\<lparr>sll_ifindex = e_nametoindex env ifname, sll_halen = 6, dev_addr = mac rem\<rparr>, Host_run st, out)))"
    using assms(1) args hdr mac unfolding raw_main_def run_def loop_def Let_def by auto
  moreover note ib_host_send_loop_cases [OF assms(5,6,9) refl, where sock = "e_raw_socket env" and
      ntop = "e_ntop6 env" and qp = "word_of_int q" and beyond = "e_beyond env", folded loop_def]
  ultimately show ?thesis
    unfolding run_def [symmetric] Let_def by (auto split: if_splits)
qed

definition example_env :: raw_env where
  "example_env =
     \<lparr>e_sigaction = 0,
      e_ifaddrs = Some [\<lparr>ifa_name = ''ib0'', ifa_addr = Some (Sockaddr_in 1)\<rparr>],
      e_getaddrinfo = (\<lambda>_. Some 2), e_arp_socket = 3, e_arp = (\<lambda>_ _. Some [1, 2, 3, 4, 5, 6]),
      e_pton4 = (\<lambda>_. None), e_pton6 = (\<lambda>_. None), e_ether_aton = (\<lambda>_. None),
      e_ntop4 = (\<lambda>_. []), e_ntop6 = (\<lambda>_. []), e_ether_ntoa = (\<lambda>_. []),
      e_nametoindex = (\<lambda>_. 2), e_raw_socket = 4, e_sends = [9018], e_beyond = [0, 0, 0, 0],
      e_uninit = [], e_device_buf = [], e_copied = True\<rparr>"

theorem raw_main_host_witness:
  "(\<exists>st out. raw_main example_env [''raw_ibverbs'', ''host'', ''10.0.0.1'', ''fe80::1'', fmt_d 7, ''ib0''] =
      Ok (\<lparr>sll_ifindex = 2, sll_halen = 6, dev_addr = [1, 2, 3, 4, 5, 6]\<rparr>, Host_run st, out) \<and>
    h_sent st = [wire_frame (headers_init zero_packet (zero_addr\<lparr>ipv4 := 1\<rparr>)
      (zero_addr\<lparr>mac := [1, 2, 3, 4, 5, 6], ipv4 := 2\<rparr>) 7) (padded (message_text 0))]) \<and>
   raw_main (example_env\<lparr>e_sends := [9018, -1]\<rparr>)
     [''raw_ibverbs'', ''host'', ''10.0.0.1'', ''fe80::1'', fmt_d 7, ''ib0''] = Exit EXIT_FAILURE \<and>
   raw_main (example_env\<lparr>e_beyond := []\<rparr>)
     [''raw_ibverbs'', ''host'', ''10.0.0.1'', ''fe80::1'', fmt_d 7, ''ib0''] = UB"
proof -
  let ?loc = "zero_addr\<lparr>ipv4 := 1\<rparr>" and ?rem = "zero_addr\<lparr>mac := [1, 2, 3, 4, 5, 6], ipv4 := 2\<rparr>"
  have look: "lookup_local_addr (Some [\<lparr>ifa_name = ''ib0'', ifa_addr = Some (Sockaddr_in 1)\<rparr>]) ''ib0'' = Ok (?loc, [])"
    "lookup_remote_addr (\<lambda>_. Some 2) 3 (\<lambda>_ _. Some [1, 2, 3, 4, 5, 6]) (\<lambda>_. None) ''ib0'' ''10.0.0.1''
       (Some ''fe80::1'') = Ok ?rem"
    by (simp_all add: lookup_local_addr_def local_addr_step_def lookup_remote_addr_def)
  have wf: "wf_addr ?loc" "wf_addr ?rem" by (simp_all add: wf_addr_def zero_addr_def)
  note run = raw_main_host [where opt = "[''ib0'']" and ifname = "''ib0''" and loc = ?loc and rem = ?rem
      and said = "[]" and q = 7 and ip = "''10.0.0.1''" and gid = "''fe80::1''" and prog = "''raw_ibverbs''"]
  show ?thesis
    using run [of example_env] run [of "example_env\<lparr>e_sends := [9018, -1]\<rparr>"]
      run [of "example_env\<lparr>e_beyond := []\<rparr>"] look wf
    by (simp add: example_env_def Let_def)
qed

text \<open>Every command line that is neither form, or a failing installation of the signal handler,
  ends the program with the failure status before anything is sent.\<close>

theorem raw_main_rejects:
  assumes "e_sigaction env \<noteq> 0 \<or>
    \<not> ((length argv = 5 \<or> length argv = 6) \<and> argv ! 1 = ''host'') \<and>
    \<not> ((length argv = 6 \<or> length argv = 9) \<and> argv ! 1 = ''fpga'')"
  shows "raw_main env argv = Exit EXIT_FAILURE"
  using assms by (auto simp: raw_main_def raw_args_def Let_def)

theorem raw_main_rejects_witness:
  "raw_main example_env [''raw_ibverbs'', ''host'', ''10.0.0.1''] = Exit EXIT_FAILURE"
  using raw_main_rejects [of example_env "[''raw_ibverbs'', ''host'', ''10.0.0.1'']"] by simp

text \<open>C29: Types are preserved from the operating system's answers to the wire. When the answers have
  the sizes of their C types (16 bytes of IPv6 address, 6 of an Ethernet address, 8 or 14 of a
  \<^verbatim>\<open>sockaddr\<close>), each of the three ways to get an address yields one of 6 and 16 bytes; the headers
  made of two such addresses keep every field of the packet at its width; and every iteration of the
  send loop that goes on keeps the packet well formed, touches no storage behind the four bytes of
  the checksum, and has handed over a frame of 9018 bytes.\<close>

theorem raw_types_preserved:
  assumes os: "\<And>c sa. c \<in> set ifs \<Longrightarrow> ifa_addr c = Some sa \<Longrightarrow> wf_sockaddr sa"
    "\<And>i n ha. arp i n = Some ha \<Longrightarrow> length ha = 14"
    "\<And>t b. ether_aton t = Some b \<Longrightarrow> length b = 6" "\<And>t b. pton6 t = Some b \<Longrightarrow> length b = 16"
  shows "(\<forall>a out. lookup_local_addr (Some ifs) interface = Ok (a, out) \<longrightarrow> wf_addr a) \<and>
    (\<forall>a. lookup_remote_addr resolve sock arp pton6 interface host gid = Ok a \<longrightarrow> wf_addr a) \<and>
    (\<forall>a. addr_from_strings ether_aton pton4 pton6 mac_text ip_text gid_text = Ok a \<longrightarrow> wf_addr a) \<and>
    (\<forall>src dst p p' crc. wf_addr src \<and> wf_addr dst \<and> wf_packet p \<and>
       init_invariant_headers p src dst qp = Ok (p', crc) \<longrightarrow> wf_packet p') \<and>
    (\<forall>st st'. wf_packet (h_packet st) \<and> host_send_step ntop header_crc st sent = Ok st' \<longrightarrow>
       wf_packet (h_packet st') \<and> length (h_beyond st') = length (h_beyond st) \<and>
       drop 4 (h_beyond st') = drop 4 (h_beyond st) \<and>
       (\<exists>frame. h_sent st' = h_sent st @ [frame] \<and> length frame = 9018))"
proof (intro conjI allI impI; (elim conjE)?)
  fix a out assume "lookup_local_addr (Some ifs) interface = Ok (a, out)"
  then show "wf_addr a" using os(1) by (rule wf_lookup_local_addr)
next
  fix a assume "lookup_remote_addr resolve sock arp pton6 interface host gid = Ok a"
  then show "wf_addr a" using os(2,4) by (rule wf_lookup_remote_addr)
next
  fix a assume "addr_from_strings ether_aton pton4 pton6 mac_text ip_text gid_text = Ok a"
  then show "wf_addr a" using os(3,4) by (rule wf_addr_from_strings)
next
  fix src dst p p' crc
  assume wf: "wf_packet p" "wf_addr src" "wf_addr dst"
    and "init_invariant_headers p src dst qp = Ok (p', crc)"
  then show "wf_packet p'" using init_invariant_headers_eq [OF wf] wf_headers_init [OF wf] by auto
next
  fix st st' assume "wf_packet (h_packet st)" and "host_send_step ntop header_crc st sent = Ok st'"
  note step = host_step_typed [OF this]
  show "wf_packet (h_packet st')" "length (h_beyond st') = length (h_beyond st)"
    "drop 4 (h_beyond st') = drop 4 (h_beyond st)"
    "\<exists>frame. h_sent st' = h_sent st @ [frame] \<and> length frame = 9018"
    using step by blast+
qed

theorem raw_types_preserved_witness:
  "\<exists>a out. lookup_local_addr
      (Some [\<lparr>ifa_name = ''eth4'', ifa_addr = Some (Sockaddr_ll [1, 2, 3, 4, 5, 6, 0, 0])\<rparr>]) ''eth4'' =
        Ok (a, out) \<and> wf_addr a \<and> mac a = [1, 2, 3, 4, 5, 6]"
proof -
  let ?ifs = "[\<lparr>ifa_name = ''eth4'', ifa_addr = Some (Sockaddr_ll [1, 2, 3, 4, 5, 6, 0, 0])\<rparr>]"
  let ?a = "zero_addr\<lparr>mac := [1, 2, 3, 4, 5, 6]\<rparr>"
  have "lookup_local_addr (Some ?ifs) ''eth4'' = Ok (?a, [])"
    by (simp add: lookup_local_addr_def local_addr_step_def)
  moreover have "\<forall>a out. lookup_local_addr (Some ?ifs) ''eth4'' = Ok (a, out) \<longrightarrow> wf_addr a"
    by (rule conjunct1 [OF raw_types_preserved [where arp = "\<lambda>_ _. Some (replicate 14 0)"
        and ether_aton = "\<lambda>_. Some (replicate 6 0)" and ?pton6.0 = "\<lambda>_. Some (replicate 16 0)"]])
       auto
  ultimately show ?thesis by (intro exI [of _ ?a] exI [of _ "[]"]) simp
qed

end
