(* ===== verification/Raw_Udp.thy ===== *)
theory Raw_Udp
  imports Lookup_Addr Sender_Loop Interruptible
begin

text \<open>
  Model of \<^verbatim>\<open>src/raw_udp.c\<close>, the sender that builds Ethernet, IPv4 and UDP headers by hand in one
  static buffer and sends it through a packet socket: the IPv4 header checksum, the constant header
  fields, the loop, and \<^verbatim>\<open>main\<close>. The header structs are overlays of the buffer, so a field
  assignment is a store of its little-endian bytes at the field's offset. Shown here: \<^verbatim>\<open>ipv4check\<close> is
  the complement of the ones' complement sum, and the headers it completes pass the check of RFC 1071
  on the big-endian words of the wire.
\<close>

section \<open>The IPv4 header checksum\<close>

text \<open>The loop of \<^verbatim>\<open>ipv4check\<close>: \<open>k\<close> further 16-bit words from index \<open>i\<close> on are added to the
  \<^verbatim>\<open>int32_t\<close> sum, whose overflow is undefined.\<close>

fun ipv4_sum :: "byte list \<Rightarrow> nat \<Rightarrow> nat \<Rightarrow> int \<Rightarrow> int outcome" where
  "ipv4_sum mem 0 i acc = Ok acc"
| "ipv4_sum mem (Suc k) i acc =
     (if length mem < 2 * i + 2 then UB
      else
        let acc' = acc + uint (of_le16 [mem ! (2 * i), mem ! (2 * i + 1)])
        in if 2 ^ 31 \<le> acc' then UB else ipv4_sum mem k (i + 1) acc')"

definition ipv4check :: "byte list \<Rightarrow> int \<Rightarrow> u16 outcome" where
  "ipv4check raw_data n =
     (if n - 1 < - (2 ^ 31) then UB
      else
      let n = 1 + c_div (n - 1) 2 in
      bind_outcome (ipv4_sum raw_data (nat n) 0 0) (\<lambda>s.
        let s = drop_bit 16 s + (s AND 0xffff);
            s = s + drop_bit 16 s
        in Ok (word_of_int (NOT s))))"

section \<open>The buffer and its headers\<close>

definition IP_MAXPACKET :: nat where "IP_MAXPACKET = 65535"
definition eth_size :: nat where "eth_size = 14"
definition ip_size :: nat where "ip_size = 20"
definition udp_size :: nat where "udp_size = 8"
definition header_size :: nat where "header_size = eth_size + ip_size + udp_size"
definition max_msg_size :: nat where "max_msg_size = IP_MAXPACKET - header_size"

declare eth_size_def [layout_simps] ip_size_def [layout_simps] udp_size_def [layout_simps]
  header_size_def [layout_simps]

text \<open>A 4-bit field in the low or the high half of the byte at an offset.\<close>

definition store_low :: "nat \<Rightarrow> byte \<Rightarrow> byte list \<Rightarrow> byte list" where
  "store_low off v buf = store_at off [(buf ! off AND 0xF0) OR (v AND 0x0F)] buf"

definition store_high :: "nat \<Rightarrow> byte \<Rightarrow> byte list \<Rightarrow> byte list" where
  "store_high off v buf = store_at off [(buf ! off AND 0x0F) OR push_bit 4 v] buf"

text \<open>The constant fields, in the order of the assignments of \<^verbatim>\<open>main\<close>: the Ethernet header, the IP
  header with its 32-bit \<^verbatim>\<open>htonl(54321)\<close> cut to the 16 bits of \<^verbatim>\<open>id\<close>, the UDP header.\<close>

definition init_ether :: "addr \<Rightarrow> addr \<Rightarrow> byte list \<Rightarrow> byte list" where
  "init_ether loc rem buf =
     (let buf = store_at 12 (le16 (htons 0x0800)) buf;
          buf = store_at 0 (take 6 (mac rem)) buf
      in store_at 6 (take 6 (mac loc)) buf)"

definition init_ip :: "addr \<Rightarrow> addr \<Rightarrow> byte list \<Rightarrow> byte list" where
  "init_ip loc rem buf =
     (let ip = eth_size;
          buf = store_low ip 5 buf;
          buf = store_high ip 4 buf;
          buf = store_at (ip + 1) [0] buf;
          buf = store_at (ip + 4) (le16 (ucast (htonl 54321))) buf;
          buf = store_at (ip + 6) (le16 0) buf;
          buf = store_at (ip + 8) [255] buf;
          buf = store_at (ip + 9) [17] buf;
          buf = store_at (ip + 16) (le32 (ipv4 rem)) buf
      in store_at (ip + 12) (le32 (ipv4 loc)) buf)"

definition init_udp :: "u16 \<Rightarrow> byte list \<Rightarrow> byte list" where
  "init_udp port buf =
     (let udp = eth_size + ip_size;
          buf = store_at (udp + 2) (le16 (htons port)) buf;
          buf = store_at udp (le16 (htons 4242)) buf
      in store_at (udp + 6) (le16 0) buf)"

section \<open>The loop\<close>

record raw_udp_state =
  ether_buffer :: "byte list"
  u_count :: int
  u_sent :: "byte list list"

text \<open>One iteration; \<open>result\<close> is the answer of \<^verbatim>\<open>sendto\<close>. \<^verbatim>\<open>count++\<close> is undefined at
  \<^verbatim>\<open>INT_MAX\<close>; both lengths are cut to 16 bits.\<close>

definition raw_udp_step :: "raw_udp_state \<Rightarrow> int \<Rightarrow> raw_udp_state outcome" where
  "raw_udp_step st result =
     (if u_count st = 2 ^ 31 - 1 then UB
      else
        let msg = snprintf_to (drop header_size (ether_buffer st)) max_msg_size (message_text (u_count st));
            buf = take header_size (ether_buffer st) @ fst msg;
            msg_size = snd msg
        in if msg_size < 0 \<or> int max_msg_size \<le> msg_size then Exit EXIT_FAILURE
           else
             let total_length = word_of_int (int header_size + msg_size) :: u16;
                 ip_length = word_of_int (uint total_length - int eth_size) :: u16;
                 buf = store_at (eth_size + 2) (le16 (htons ip_length)) buf;
                 buf = store_at (eth_size + ip_size + 4) (le16 (htons (word_of_int (8 + msg_size)))) buf;
                 buf = store_at (eth_size + 10) (le16 0) buf
             in bind_outcome (ipv4check (drop eth_size buf) (int ip_size)) (\<lambda>check.
                  let buf = store_at (eth_size + 10) (le16 check) buf
                  in if result = -1 then Exit EXIT_FAILURE
                     else Ok \<lparr>ether_buffer = buf, u_count = u_count st + 1,
                              u_sent = u_sent st @ [take (unat total_length) buf]\<rparr>))"

text \<open>The loop until the signal handler clears \<^verbatim>\<open>packet_loop\<close>: the answers of \<^verbatim>\<open>sendto\<close> before that.\<close>

fun raw_udp_loop :: "raw_udp_state \<Rightarrow> int list \<Rightarrow> raw_udp_state outcome" where
  "raw_udp_loop st [] = Ok st"
| "raw_udp_loop st (r # rs) = bind_outcome (raw_udp_step st r) (\<lambda>st'. raw_udp_loop st' rs)"

section \<open>The interrupt\<close>

text \<open>The flag of the loop with its initial value, the loop's condition, the signal handler that \<^verbatim>\<open>main\<close>
  installs for the interrupt, and what \<^verbatim>\<open>sendto\<close> answers when the handler interrupts it: -1.\<close>

definition raw_udp_packet_loop :: int where "raw_udp_packet_loop = 1"

definition raw_udp_loop_test :: "int \<Rightarrow> bool" where "raw_udp_loop_test packet_loop \<longleftrightarrow> packet_loop \<noteq> 0"

definition raw_udp_stop_loop :: "int \<Rightarrow> int \<Rightarrow> int" where "raw_udp_stop_loop sig flag = 0"

definition raw_udp_send_eintr :: "int option" where "raw_udp_send_eintr = Some (- 1)"

definition raw_udp_loop_body :: "raw_udp_state \<Rightarrow> int \<Rightarrow> raw_udp_state + raw_udp_state outcome" where
  "raw_udp_loop_body st r = outcome_body (raw_udp_step st r)"

text \<open>The complete runs of the loop under the interrupt.\<close>

abbreviation raw_udp_runs where
  "raw_udp_runs \<equiv> loop_run raw_udp_loop_test (raw_udp_stop_loop SIGINT) raw_udp_send_eintr
     raw_udp_loop_body Ok raw_udp_packet_loop"

interpretation raw_udp_interrupt: interruptible_loop raw_udp_loop_test "raw_udp_stop_loop SIGINT"
  raw_udp_send_eintr raw_udp_loop_body Ok raw_udp_packet_loop raw_udp_loop
proof unfold_locales
  fix st r rs
  show "raw_udp_loop st (r # rs) =
      (case raw_udp_loop_body st r of Inl st' \<Rightarrow> raw_udp_loop st' rs | Inr x \<Rightarrow> x)"
    by (cases "raw_udp_step st r") (simp_all add: raw_udp_loop_body_def)
qed (simp_all add: raw_udp_packet_loop_def raw_udp_stop_loop_def raw_udp_loop_test_def)

section \<open>Main\<close>

record raw_udp_env =
  u_sigaction :: int
  u_ifaddrs :: "ifaddrs list option"
  u_getaddrinfo :: "string \<Rightarrow> u32 option"
  u_arp_socket :: int
  u_arp :: "u32 \<Rightarrow> string \<Rightarrow> byte list option"
  u_pton6 :: "string \<Rightarrow> byte list option"
  u_ntop4 :: "u32 \<Rightarrow> string"
  u_ntop6 :: "byte list \<Rightarrow> string"
  u_ether_ntoa :: "byte list \<Rightarrow> string"
  u_nametoindex :: "string \<Rightarrow> int"
  u_socket :: int
  u_sends :: "int list"

text \<open>The members of \<^verbatim>\<open>struct sockaddr_ll\<close> that are set: the outgoing interface and the
  destination.\<close>

record link_device =
  ld_ifindex :: int
  ld_family :: int
  ld_halen :: int
  ld_addr :: "byte list"

definition raw_udp_main ::
  "raw_udp_env \<Rightarrow> string list \<Rightarrow> (link_device \<times> raw_udp_state \<times> string) outcome" where
  "raw_udp_main env argv =
     (if u_sigaction env \<noteq> 0 then Exit EXIT_FAILURE
      else if length argv \<noteq> 4 \<and> length argv \<noteq> 3 then Exit EXIT_FAILURE
      else
        let ifname = (if length argv = 4 then argv ! 3 else ''eth4'');
            pr = print_addr (u_ntop4 env) (u_ntop6 env) (u_ether_ntoa env) in
        bind_outcome (lookup_local_addr (u_ifaddrs env) ifname) (\<lambda>(loc, said).
        bind_outcome (lookup_remote_addr (u_getaddrinfo env) (u_arp_socket env) (u_arp env) (u_pton6 env)
            ifname (argv ! 2) None) (\<lambda>rem.
        let out = said @ ''Local address:'' @ nl @ pr loc @ nl @ ''Remote address:'' @ nl @ pr rem in
        if u_nametoindex env ifname = 0 then Exit EXIT_FAILURE
        else
          let dev = \<lparr>ld_ifindex = u_nametoindex env ifname, ld_family = 17, ld_halen = 6,
                     ld_addr = take 6 (mac rem)\<rparr>;
              buf = init_ip loc rem (init_ether loc rem (replicate IP_MAXPACKET 0)) in
          bind_outcome (atoi (argv ! 1)) (\<lambda>port.
          if u_socket env = -1 then Exit EXIT_FAILURE
          else
            bind_outcome (raw_udp_loop
                \<lparr>ether_buffer = init_udp (word_of_int port) buf, u_count = 0, u_sent = []\<rparr> (u_sends env))
              (\<lambda>st. Ok (dev, st, out))))))"


section \<open>Ones' complement arithmetic\<close>

text \<open>The reference: 16-bit addition with end-around carry, and its sum over a list of words. The
  receiver of a header adds its big-endian words and accepts the sum of all ones (RFC 1071).\<close>

definition oc_add :: "nat \<Rightarrow> nat \<Rightarrow> nat" where
  "oc_add a b = (if a + b < 65536 then a + b else a + b - 65535)"

definition ones_sum :: "nat list \<Rightarrow> nat" where
  "ones_sum ws = foldl oc_add 0 ws"

fun le_words :: "byte list \<Rightarrow> nat list" where
  "le_words (a # b # bs) = (unat a + 256 * unat b) # le_words bs"
| "le_words _ = []"

fun be_words :: "byte list \<Rightarrow> nat list" where
  "be_words (a # b # bs) = (256 * unat a + unat b) # be_words bs"
| "be_words _ = []"

definition header_valid :: "byte list \<Rightarrow> bool" where
  "header_valid bs \<longleftrightarrow> ones_sum (be_words bs) = 65535"

text \<open>Closed form: the sum is the residue modulo 65535, with 65535 for the multiples but zero.\<close>

definition oc_norm :: "nat \<Rightarrow> nat" where
  "oc_norm s = (if s = 0 then 0 else (s - 1) mod 65535 + 1)"

lemma oc_norm_small: "s < 65536 \<Longrightarrow> oc_norm s = s"
  by (auto simp: oc_norm_def)

lemma oc_norm_less: "oc_norm s < 65536"
  by (simp add: oc_norm_def)

lemma oc_norm_cong: "oc_norm s mod 65535 = s mod 65535"
  by (cases s) (simp_all add: oc_norm_def mod_Suc_eq)

lemma oc_norm_0: "oc_norm s = 0 \<longleftrightarrow> s = 0"
  by (simp add: oc_norm_def)

lemma mod_eq_top:
  "x mod m = y mod m \<Longrightarrow> 0 < x \<Longrightarrow> 0 < y \<Longrightarrow> x \<le> m \<Longrightarrow> y \<le> m \<Longrightarrow> x = y" for x y m :: nat
  by (cases "x = m"; cases "y = m") simp_all

lemma oc_norm_unique:
  assumes "x < 65536" and "x mod 65535 = s mod 65535" and "x = 0 \<longleftrightarrow> s = 0"
  shows "x = oc_norm s"
proof (cases "s = 0")
  case True
  then show ?thesis using assms by (simp add: oc_norm_def)
next
  case False
  have "x mod 65535 = oc_norm s mod 65535" by (simp only: oc_norm_cong assms(2))
  moreover have "0 < x" "0 < oc_norm s" using False assms(3) by (simp_all only: oc_norm_0 zero_less_iff_neq_zero) simp_all
  moreover have "x \<le> 65535" "oc_norm s \<le> 65535" using assms(1) oc_norm_less [of s] by linarith+
  ultimately show ?thesis by (rule mod_eq_top)
qed

lemma oc_norm_top: "oc_norm s = 65535 \<longleftrightarrow> 0 < s \<and> 65535 dvd s"
proof
  assume top: "oc_norm s = 65535"
  then have "s mod 65535 = 0" using oc_norm_cong [of s] by simp
  moreover have "s \<noteq> 0" using top oc_norm_0 [of s] by linarith
  ultimately show "0 < s \<and> 65535 dvd s" by (simp add: dvd_eq_mod_eq_0)
next
  assume "0 < s \<and> 65535 dvd s"
  then show "oc_norm s = 65535" by (intro oc_norm_unique [symmetric]) auto
qed

lemma oc_add_cong: "oc_add a b mod 65535 = (a + b) mod 65535"
  by (simp add: oc_add_def le_mod_geq)

lemma oc_norm_add: "w < 65536 \<Longrightarrow> oc_add (oc_norm s) w = oc_norm (s + w)"
proof (rule oc_norm_unique)
  assume w: "w < 65536"
  show "oc_add (oc_norm s) w < 65536" using w oc_norm_less [of s] by (auto simp: oc_add_def)
  show "oc_add (oc_norm s) w mod 65535 = (s + w) mod 65535"
    unfolding oc_add_cong by (metis oc_norm_cong mod_add_left_eq)
  show "oc_add (oc_norm s) w = 0 \<longleftrightarrow> s + w = 0"
    using oc_norm_0 [of s] by (auto simp: oc_add_def)
qed

lemma ones_sum_eq: "\<forall>w \<in> set ws. w < 65536 \<Longrightarrow> ones_sum ws = oc_norm (sum_list ws)"
proof -
  have "foldl oc_add (oc_norm s) ws = oc_norm (s + sum_list ws)" if "\<forall>w \<in> set ws. w < 65536" for s
    using that by (induction ws arbitrary: s) (simp_all add: oc_norm_add add.assoc)
  from this [of 0] show "\<forall>w \<in> set ws. w < 65536 \<Longrightarrow> ?thesis"
    by (simp add: ones_sum_def oc_norm_def)
qed

lemma unat_byte: "unat (b :: byte) < 256"
  by (rule order.strict_trans2 [OF unsigned_less]) simp

lemma le_words_bound: "\<forall>w \<in> set (le_words bs). w < 65536"
proof (induction bs rule: le_words.induct)
  case (1 a b bs)
  then show ?case using unat_byte [of a] unat_byte [of b] by simp
qed simp_all

lemma be_words_bound: "\<forall>w \<in> set (be_words bs). w < 65536"
proof (induction bs rule: be_words.induct)
  case (1 a b bs)
  then show ?case using unat_byte [of a] unat_byte [of b] by simp
qed simp_all

lemma sum_list_be_words: "256 * sum_list (be_words bs) mod 65535 = sum_list (le_words bs) mod 65535"
proof (induction bs rule: le_words.induct)
  case (1 a b bs)
  have "256 * (256 * unat a + unat b) mod 65535 = (unat a + 256 * unat b) mod 65535" 
  proof -
    have "256 * (256 * unat a + unat b) = unat a + 256 * unat b + unat a * 65535" by simp
    then show ?thesis by (simp only: mod_mult_self1)
  qed
  from mod_add_cong [OF this 1] show ?case by (simp add: distrib_left)
qed simp_all

text \<open>The sum does not depend on the byte order of the words, up to the byte order of the result; a
  sum of all ones is the same in both orders.\<close>

lemma dvd_256: "65535 dvd 256 * s \<longleftrightarrow> 65535 dvd (s :: nat)"
proof (rule coprime_dvd_mult_right_iff)
  show "coprime 65535 (256 :: nat)" by (simp add: coprime_iff_gcd_eq_1 gcd_non_0_nat)
qed

lemma header_valid_iff: "header_valid bs \<longleftrightarrow> ones_sum (le_words bs) = 65535"
proof -
  let ?b = "sum_list (be_words bs)" and ?l = "sum_list (le_words bs)"
  have "65535 dvd ?b \<longleftrightarrow> 65535 dvd ?l"
    using sum_list_be_words [of bs] dvd_256 [of ?b] by (simp add: dvd_eq_mod_eq_0)
  moreover have "?b = 0 \<longleftrightarrow> ?l = 0" by (induction bs rule: le_words.induct) auto
  ultimately show ?thesis
    by (simp only: header_valid_def ones_sum_eq [OF be_words_bound] ones_sum_eq [OF le_words_bound]
      oc_norm_top zero_less_iff_neq_zero)
qed


section \<open>The checksum routine computes the complement of the sum\<close>

lemma uint_of_le16: "uint (of_le16 [a, b]) = int (unat a + 256 * unat b)"
proof -
  have "uint (of_le16 [a, b]) = uint a OR push_bit 8 (uint b)"
    by (rule bit_eqI) (auto simp: bit_simps dest: bit_imp_le_length)
  also have "\<dots> = uint a + push_bit 8 (uint b)"
    by (rule disjunctive_add_eq_or [symmetric], rule bit_eqI) (auto simp: bit_simps dest: bit_imp_le_length)
  finally show ?thesis by (simp add: push_bit_eq_mult)
qed

lemma ipv4_sum_short: "length mem < 2 * (i + k) \<Longrightarrow> 0 < k \<Longrightarrow> ipv4_sum mem k i acc = UB"
proof (induction k arbitrary: i acc)
  case (Suc k)
  have "ipv4_sum mem k (i + 1) acc' = UB" if "\<not> length mem < 2 * i + 2" for acc'
    using Suc that by (cases "k = 0") simp_all
  then show ?case by (simp add: Let_def)
qed simp

lemma ipv4_sum_eq:
  assumes "2 * (i + k) \<le> length mem" and "0 \<le> acc" and "acc < 2 ^ 31"
  defines "s \<equiv> \<lambda>a. a + int (sum_list (le_words (take (2 * k) (drop (2 * i) mem))))"
  shows "ipv4_sum mem k i acc = (if s acc < 2 ^ 31 then Ok (s acc) else UB)"
  using assms(1-3) unfolding s_def
proof (induction k arbitrary: i acc)
  case 0
  then show ?case by simp
next
  case (Suc k)
  let ?w = "uint (of_le16 [mem ! (2 * i), mem ! (2 * i + 1)])"
  have "drop (2 * i) mem = mem ! (2 * i) # mem ! (2 * i + 1) # drop (2 * (i + 1)) mem"
    using Suc.prems(1) by (simp add: Cons_nth_drop_Suc)
  then have ws: "int (sum_list (le_words (take (2 * Suc k) (drop (2 * i) mem)))) =
      ?w + int (sum_list (le_words (take (2 * k) (drop (2 * (i + 1)) mem))))"
    by (simp add: uint_of_le16 del: of_le16.simps)
  have w: "0 \<le> ?w" by simp
  show ?case
  proof (cases "acc + ?w < 2 ^ 31")
    case True
    with Suc.IH [of "i + 1" "acc + ?w"] Suc.prems w ws show ?thesis
      by (simp add: Let_def add.assoc del: of_le16.simps)
  next
    case False
    then have "\<not> acc + (?w + int (sum_list (le_words (take (2 * k) (drop (2 * (i + 1)) mem))))) < 2 ^ 31"
      by linarith
    with False Suc.prems(1) ws show ?thesis by (simp add: Let_def del: of_le16.simps)
  qed
qed

text \<open>Folding the carries twice: enough for every sum that fits the accumulator.\<close>

lemma fold_carries:
  assumes "n < 2 ^ 31"
  defines "s \<equiv> n div 65536 + n mod 65536"
  shows "(s + s div 65536) mod 65536 = oc_norm n"
proof (rule oc_norm_unique)
  have n: "n = 65536 * (n div 65536) + n mod 65536" by simp
  have h: "n div 65536 < 32768" using assms(1) by (simp add: less_mult_imp_div_less)
  have l: "n mod 65536 < 65536" by simp
  have s: "s < 65536 + 32767" unfolding s_def using h l by linarith
  have "n = s + n div 65536 * 65535" unfolding s_def using n by linarith
  then have cong: "s mod 65535 = n mod 65535" by (metis mod_mult_self1)
  have zero: "s = 0 \<longleftrightarrow> n = 0" unfolding s_def using n by (metis add_is_0 mult_0_right div_0 mod_0)
  have fold: "(s + s div 65536) mod 65536 = (if s < 65536 then s else s - 65535)"
  proof (cases "s < 65536")
    case False
    then have "s div 65536 = 1" using s by (simp add: div_nat_eqI)
    moreover have "(s + 1) mod 65536 = s + 1 - 65536" using False s by (simp add: le_mod_geq)
    ultimately show ?thesis using False by simp
  qed simp
  show "(s + s div 65536) mod 65536 < 65536" by simp
  show "(s + s div 65536) mod 65536 mod 65535 = n mod 65535"
    unfolding fold cong [symmetric] by (simp add: le_mod_geq)
  show "(s + s div 65536) mod 65536 = 0 \<longleftrightarrow> n = 0"
    unfolding fold zero [symmetric] by auto
qed

lemma word_of_nat_mod: "(word_of_nat (m mod 65536) :: u16) = word_of_nat m"
  by (simp add: word_of_nat_eq_iff take_bit_eq_mod)

lemma fold_carries_word:
  assumes "n < 2 ^ 31"
  defines "s \<equiv> drop_bit 16 (int n) + (int n AND 0xffff)"
  shows "word_of_int (NOT (s + drop_bit 16 s)) = (NOT (word_of_nat (oc_norm n)) :: u16)"
proof -
  let ?t = "n div 65536 + n mod 65536"
  have "int n AND 0xffff = int (n mod 65536)"
    using take_bit_eq_mask [of 16 "int n"] by (simp add: take_bit_eq_mod mask_eq_exp_minus_1 zmod_int)
  then have "s = int ?t" by (simp add: s_def drop_bit_eq_div zdiv_int)
  then have "s + drop_bit 16 s = int (?t + ?t div 65536)" by (simp add: drop_bit_eq_div zdiv_int)
  then have "(word_of_int (s + drop_bit 16 s) :: u16) = word_of_nat (?t + ?t div 65536)" by simp
  also have "\<dots> = word_of_nat ((?t + ?t div 65536) mod 65536)"
    by (simp only: word_of_nat_mod)
  also have "\<dots> = word_of_nat (oc_norm n)" by (simp only: fold_carries [OF assms(1)])
  finally show ?thesis by (simp add: of_int_not_eq)
qed


text \<open>The number of words the loop reads: a size of zero still reads one word, because C rounds \<open>-1 / 2\<close> up
  to zero; a negative size reads none.\<close>

definition ipv4_words :: "int \<Rightarrow> nat" where
  "ipv4_words n = (if n = 0 then 1 else nat ((n + 1) div 2))"

lemma ipv4_words: "nat (1 + c_div (n - 1) 2) = ipv4_words n"
proof -
  consider "1 \<le> n" | "n = 0" | "n < 0" by linarith
  then show ?thesis
  proof cases
    case 3
    then have "(n + 1) div 2 \<le> 0" and "1 \<le> (1 - n) div 2" by linarith+
    moreover have "c_div (n - 1) 2 = - ((1 - n) div 2)" using 3 by (simp add: c_div_def)
    ultimately show ?thesis using 3 by (simp add: ipv4_words_def)
  next
    case 1
    then show ?thesis by (simp add: ipv4_words_def c_div_nonneg)
  next
    case 2
    then show ?thesis by (simp add: ipv4_words_def c_div_def)
  qed
qed

lemma ipv4check_words:
  "ipv4check raw n =
    (let k = ipv4_words n; ws = le_words (take (2 * k) raw) in
     if n \<le> - (2 ^ 31) \<or> length raw < 2 * k \<or> 2 ^ 31 \<le> sum_list ws then UB
     else Ok (NOT (word_of_nat (ones_sum ws))))"
proof (cases "n \<le> - (2 ^ 31)")
  case True
  then show ?thesis by (simp add: ipv4check_def)
next
  case n: False
  define k where "k = ipv4_words n"
  let ?ws = "le_words (take (2 * k) raw)"
  have run: "ipv4_sum raw k 0 0 = (if length raw < 2 * k \<or> 2 ^ 31 \<le> sum_list ?ws then UB else Ok (int (sum_list ?ws)))"
    using ipv4_sum_short [of raw 0 k 0] ipv4_sum_eq [of 0 k raw 0] by (cases "length raw < 2 * k") auto
  show ?thesis
    using n by (simp add: ipv4check_def ipv4_words run Let_def fold_carries_word ones_sum_eq [OF le_words_bound]
        flip: k_def)
qed

text \<open>A checksum word that is zero while the sum is taken and then set to the complement makes the
  header valid.\<close>

lemma le_words_append: "even (length xs) \<Longrightarrow> le_words (xs @ ys) = le_words xs @ le_words ys"
  by (induction xs rule: le_words.induct) simp_all

lemma le_words_le16: "le_words (le16 w @ bs) = unat w # le_words bs"
proof -
  have "of_le16 (le16 w) = w" by simp
  then have "uint w = int (unat (ucast w :: byte) + 256 * unat (ucast (drop_bit 8 w) :: byte))"
    using uint_of_le16 [of "ucast w" "ucast (drop_bit 8 w)"] by (simp add: le16_def del: of_le16.simps)
  then have "unat w = unat (ucast w :: byte) + 256 * unat (ucast (drop_bit 8 w) :: byte)"
    by (simp only: unat_eq_nat_uint nat_int)
  then show ?thesis by (simp add: le16_def)
qed

lemma unat_word_of_nat: "m < 65536 \<Longrightarrow> unat (word_of_nat m :: u16) = m"
  by (simp add: unsigned_of_nat take_bit_nat_eq_self)

lemma unat_complement: "s \<le> 65535 \<Longrightarrow> unat (NOT (word_of_nat s) :: u16) = 65535 - s"
proof -
  assume s: "s \<le> 65535"
  have "(NOT (word_of_nat s) :: u16) = word_of_nat (65535 - s)"
    using s by (simp add: not_eq_complement of_nat_diff)
  then have "unat (NOT (word_of_nat s) :: u16) = unat (word_of_nat (65535 - s) :: u16)" by (rule arg_cong)
  also have "\<dots> = 65535 - s" using s by (intro unat_word_of_nat) simp
  finally show ?thesis .
qed

lemma ones_sum_split:
  "even (length pre) \<Longrightarrow> ones_sum (le_words (pre @ le16 w @ post)) =
     oc_norm (sum_list (le_words pre) + sum_list (le_words post) + unat w)"
  unfolding ones_sum_eq [OF le_words_bound] by (simp add: le_words_append le_words_le16 add_ac)

lemma header_valid_unique:
  assumes "even (length pre)" and "header_valid (pre @ le16 w @ post)" and "header_valid (pre @ le16 w' @ post)"
  shows "w = w' \<or> w = 0 \<and> w' = 0xFFFF \<or> w = 0xFFFF \<and> w' = 0"
proof -
  let ?s = "sum_list (le_words pre) + sum_list (le_words post)"
  have dvd: "65535 dvd ?s + unat w" "65535 dvd ?s + unat w'"
    using assms(2,3) by (simp_all only: header_valid_iff ones_sum_split [OF assms(1)] oc_norm_top)
  have same: "u = v \<or> u = 0 \<and> v = m \<or> u = m \<and> v = 0"
    if "m dvd s + u" "m dvd s + v" "u \<le> m" "v \<le> m" for s u v m :: nat
  proof -
    have gap: "y = x + m" if "m dvd s + x" "m dvd s + y" "x < y" "y \<le> m" for x y
    proof -
      have "m dvd y - x" using dvd_diff_nat [OF that(2,1)] by simp
      then have "m \<le> y - x" using that(3) by (intro dvd_imp_le) simp_all
      then show ?thesis using that(3,4) by simp
    qed
    show ?thesis
      using gap [of u v] gap [of v u] that by (cases u v rule: linorder_cases) auto
  qed
  have "unat x \<le> 65535" for x :: u16
    using unsigned_less [of x, where ?'a = nat] by simp
  from same [OF dvd this this]
  have "unat w = unat w' \<or> unat w = 0 \<and> unat w' = 65535 \<or> unat w = 65535 \<and> unat w' = 0" .
  moreover have "unat (0xFFFF :: u16) = 65535" by simp
  ultimately show ?thesis by (metis unat_0 word_unat_eq_iff)
qed

lemma sum_list_bounded: "\<forall>w \<in> set ws. w < 65536 \<Longrightarrow> sum_list ws \<le> length ws * 65535" for ws :: "nat list"
  by (induction ws) auto

lemma le16_small: "m \<le> 47 \<Longrightarrow> rev (le16 (word_of_nat m)) = [0, word_of_nat m]"
proof -
  assume m: "m \<le> 47"
  have "drop_bit 8 (word_of_nat m :: u16) = 0"
  proof -
    have "unat (drop_bit 8 (word_of_nat m :: u16)) = drop_bit 8 m"
      using m unat_word_of_nat [of m] by (simp add: unsigned_drop_bit_eq take_bit_nat_eq_self)
    also have "\<dots> = 0" using m by (simp add: drop_bit_eq_div)
    finally show ?thesis by (simp only: unat_eq_zero)
  qed
  moreover have "ucast (word_of_nat m :: u16) = (word_of_nat m :: byte)"
    by (rule bit_word_eqI) (simp add: bit_simps)
  ultimately show ?thesis by (simp add: le16_def)
qed

lemma header_valid_complete:
  assumes "even (length pre)"
  shows "header_valid (pre @ le16 (NOT (word_of_nat (ones_sum (le_words (pre @ le16 0 @ post))))) @ post)"
proof -
  let ?s = "sum_list (le_words pre) + sum_list (le_words post)"
  have s: "ones_sum (le_words (pre @ le16 0 @ post)) = oc_norm ?s"
    by (simp add: ones_sum_split [OF assms])
  have c: "unat (NOT (word_of_nat (oc_norm ?s)) :: u16) = 65535 - oc_norm ?s"
    using oc_norm_less [of ?s] by (intro unat_complement) simp
  have "ones_sum (le_words (pre @ le16 (NOT (word_of_nat (oc_norm ?s))) @ post))
      = oc_norm (?s + (65535 - oc_norm ?s))"
    by (simp only: ones_sum_split [OF assms] c)
  also have "\<dots> = oc_add (oc_norm ?s) (65535 - oc_norm ?s)"
    by (rule oc_norm_add [symmetric]) simp
  also have "\<dots> = 65535" using oc_norm_less [of ?s] by (simp add: oc_add_def)
  finally show ?thesis by (simp add: header_valid_iff s)
qed


section \<open>The frame\<close>

text \<open>The IP header up to and after its checksum, and the 42 header bytes, for a total length, a
  checksum and a UDP length as they lie in the buffer.\<close>

definition ip_front :: "u16 \<Rightarrow> byte list" where
  "ip_front tot_len = [0x45, 0] @ le16 tot_len @ [0, 0, 0, 0, 255, 17]"

definition ip_addresses :: "addr \<Rightarrow> addr \<Rightarrow> byte list" where
  "ip_addresses loc rem = le32 (ipv4 loc) @ le32 (ipv4 rem)"

definition frame_header :: "addr \<Rightarrow> addr \<Rightarrow> u16 \<Rightarrow> u16 \<Rightarrow> u16 \<Rightarrow> u16 \<Rightarrow> byte list" where
  "frame_header loc rem port tot_len check len =
     mac rem @ mac loc @ [0x08, 0x00]
     @ ip_front tot_len @ le16 check @ ip_addresses loc rem
     @ [0x10, 0x92] @ rev (le16 port) @ le16 len @ [0, 0]"

definition ip_check :: "addr \<Rightarrow> addr \<Rightarrow> u16 \<Rightarrow> u16" where
  "ip_check loc rem tot_len =
     NOT (word_of_nat (ones_sum (le_words (ip_front tot_len @ le16 0 @ ip_addresses loc rem))))"

text \<open>The frame for a payload: both lengths in network order, the completed checksum.\<close>

definition udp_frame :: "addr \<Rightarrow> addr \<Rightarrow> u16 \<Rightarrow> byte list \<Rightarrow> byte list" where
  "udp_frame loc rem port bs =
     frame_header loc rem port (htons (word_of_nat (28 + length bs)))
       (ip_check loc rem (htons (word_of_nat (28 + length bs)))) (htons (word_of_nat (8 + length bs))) @ bs"

lemma length_ip_front [simp]: "length (ip_front t) = 10"
  by (simp add: ip_front_def)

lemma length_ip_addresses [simp]: "length (ip_addresses loc rem) = 8"
  by (simp add: ip_addresses_def)

lemma length_frame_header [simp]:
  "wf_addr loc \<Longrightarrow> wf_addr rem \<Longrightarrow> length (frame_header loc rem port t c u) = 42"
  by (simp add: frame_header_def wf_addr_def)

text \<open>The stores of the program on a buffer that starts with such a header.\<close>

lemma store_tot_len:
  assumes "wf_addr loc" and "wf_addr rem"
  shows "store_at 16 (le16 t') (frame_header loc rem port t c u @ rest) = frame_header loc rem port t' c u @ rest"
  using assms by (simp add: frame_header_def ip_front_def store_at_def wf_addr_def)

lemma store_udp_len:
  assumes "wf_addr loc" and "wf_addr rem"
  shows "store_at 38 (le16 u') (frame_header loc rem port t c u @ rest) = frame_header loc rem port t c u' @ rest"
  using assms by (simp add: frame_header_def store_at_def wf_addr_def)

lemma store_check:
  assumes "wf_addr loc" and "wf_addr rem"
  shows "store_at 24 (le16 c') (frame_header loc rem port t c u @ rest) = frame_header loc rem port t c' u @ rest"
  using assms by (simp add: frame_header_def store_at_def wf_addr_def)

lemma init_ether_bytes:
  assumes "wf_addr loc" and "wf_addr rem"
  shows "init_ether loc rem (replicate 14 0 @ rest) = (mac rem @ mac loc @ [0x08, 0x00]) @ rest"
proof -
  have "le16 (htons 0x0800) = [0x08, 0x00]" by (simp add: bytes_simps) (simp add: le16_def drop_bit_eq_div)
  then show ?thesis
    using assms by (simp add: init_ether_def store_at_def wf_addr_def)
qed

lemma ip_id_zero: "ucast (htonl 54321) = (0 :: u16)"
  by (simp add: htonl_def le32_def drop_bit_eq_div push_bit_eq_mult)

lemma init_ip_bytes:
  assumes "length pre = 14"
  shows "init_ip loc rem (pre @ replicate 20 0 @ rest) = pre @ (ip_front 0 @ le16 0 @ ip_addresses loc rem) @ rest"
proof -
  have at: "store_at (14 + k) bs (pre @ buf) = pre @ store_at k bs buf" for k bs buf
    using store_at_skip [of pre k bs buf] assms by simp
  have low: "store_low 14 v (pre @ b # buf) = pre @ ((b AND 0xF0) OR (v AND 0x0F)) # buf" for v b buf
    using at [of 0 "[(b AND 0xF0) OR (v AND 0x0F)]" "b # buf"] assms
    by (simp add: store_low_def nth_append store_at_def)
  have high: "store_high 14 v (pre @ b # buf) = pre @ ((b AND 0x0F) OR push_bit 4 v) # buf" for v b buf
    using at [of 0 "[(b AND 0x0F) OR push_bit 4 v]" "b # buf"] assms
    by (simp add: store_high_def nth_append store_at_def)
  have rep: "replicate 20 0 @ rest = 0 # replicate 19 0 @ rest" by (simp add: eval_nat_numeral)
  have le: "le16 0 = [0, 0]" by (simp add: le16_def)
  show ?thesis
    unfolding init_ip_def Let_def eth_size_def rep low high at ip_id_zero le
    by (simp add: store_at_def ip_front_def ip_addresses_def le numeral_2_eq_2)
qed

lemma init_udp_bytes:
  assumes "length pre = 34"
  shows "init_udp port (pre @ replicate 8 0 @ rest) = pre @ [0x10, 0x92] @ rev (le16 port) @ [0, 0, 0, 0] @ rest"
proof -
  have at: "store_at (34 + k) bs (pre @ buf) = pre @ store_at k bs buf" for k bs buf
    using store_at_skip [of pre k bs buf] assms by simp
  have le: "le16 0 = [0, 0]" by (simp add: le16_def)
  have src: "le16 (htons 4242) = [0x10, 0x92]"
    by (simp add: bytes_simps) (simp add: le16_def drop_bit_eq_div)
  have off: "eth_size + ip_size = 34" by (simp add: layout_simps)
  have at0: "store_at 34 bs (pre @ buf) = pre @ store_at 0 bs buf" for bs buf
    using at [of 0] by simp
  show ?thesis
    unfolding init_udp_def Let_def off le src at at0
    by (simp add: store_at_def bytes_simps numeral_2_eq_2)
qed

lemma init_buffer:
  assumes "wf_addr loc" and "wf_addr rem"
  shows "init_udp port (init_ip loc rem (init_ether loc rem (replicate 42 0 @ rest)))
    = frame_header loc rem port 0 0 0 @ rest"
proof -
  have "replicate 42 0 @ rest = replicate 14 0 @ replicate 20 0 @ replicate 8 0 @ rest"
    by (simp flip: replicate_add append_assoc)
  then have "init_udp port (init_ip loc rem (init_ether loc rem (replicate 42 0 @ rest))) =
      init_udp port (init_ip loc rem ((mac rem @ mac loc @ [0x08, 0x00]) @ replicate 20 0 @ replicate 8 0 @ rest))"
    by (simp only: init_ether_bytes [OF assms])
  also have "\<dots> = init_udp port (((mac rem @ mac loc @ [0x08, 0x00]) @ ip_front 0 @ le16 0 @ ip_addresses loc rem)
      @ replicate 8 0 @ rest)"
    using assms by (subst init_ip_bytes) (simp_all add: wf_addr_def)
  also have "\<dots> = frame_header loc rem port 0 0 0 @ rest"
    using assms by (subst init_udp_bytes) (simp_all add: wf_addr_def frame_header_def le16_def)
  finally show ?thesis .
qed

lemma header_of_frame:
  assumes "wf_addr loc" and "wf_addr rem"
  shows "take 20 (drop 14 (frame_header loc rem port t c u @ rest)) = ip_front t @ le16 c @ ip_addresses loc rem"
  using assms by (simp add: frame_header_def wf_addr_def)

lemma ipv4check_header:
  assumes "wf_addr loc" and "wf_addr rem"
  shows "ipv4check (drop 14 (frame_header loc rem port t 0 u @ rest)) 20 = Ok (ip_check loc rem t)"
proof -
  let ?h = "ip_front t @ le16 0 @ ip_addresses loc rem"
  have h: "take 20 (drop 14 (frame_header loc rem port t 0 u @ rest)) = ?h"
    by (rule header_of_frame [OF assms])
  have "sum_list (le_words ?h) \<le> length (le_words ?h) * 65535"
    by (rule sum_list_bounded [OF le_words_bound])
  moreover have "length (le_words bs) \<le> length bs" for bs
    by (induction bs rule: le_words.induct) simp_all
  then have "length (le_words ?h) \<le> 20" by (rule order.trans) simp
  ultimately have "sum_list (le_words ?h) < 2 ^ 31" by simp
  moreover have "20 \<le> length (drop 14 (frame_header loc rem port t 0 u @ rest))"
    using assms by simp
  ultimately show ?thesis
    using ipv4check_words [of "drop 14 (frame_header loc rem port t 0 u @ rest)" 20]
    by (simp add: h ip_check_def ipv4_words_def Let_def del: drop_append)
qed

lemma udp_frame_valid:
  assumes "wf_addr loc" and "wf_addr rem"
  shows "header_valid (take 20 (drop 14 (udp_frame loc rem port bs)))"
  unfolding udp_frame_def header_of_frame [OF assms] ip_check_def
  by (rule header_valid_complete) simp


section \<open>The loop sends numbered datagrams\<close>

definition raw_udp_inv :: "addr \<Rightarrow> addr \<Rightarrow> u16 \<Rightarrow> raw_udp_state \<Rightarrow> bool" where
  "raw_udp_inv loc rem port st \<longleftrightarrow> wf_addr loc \<and> wf_addr rem \<and> length (ether_buffer st) = IP_MAXPACKET \<and>
     (\<exists>t c u. take 42 (ether_buffer st) = frame_header loc rem port t c u)"

lemma raw_udp_step_eq:
  assumes inv: "raw_udp_inv loc rem port st" and cnt: "0 \<le> u_count st" "u_count st < 2 ^ 31 - 1"
  shows "\<exists>st'. raw_udp_step st r = (if r = -1 then Exit EXIT_FAILURE else Ok st') \<and>
    raw_udp_inv loc rem port st' \<and> u_count st' = u_count st + 1 \<and>
    u_sent st' = u_sent st @ [udp_frame loc rem port (map of_char (message_text (u_count st)))]"
proof -
  let ?t = "message_text (u_count st)"
  define m where "m = length ?t"
  have m: "m \<le> 19" unfolding m_def using cnt by (intro length_message_text) simp_all
  have wf: "wf_addr loc" "wf_addr rem" and len: "length (ether_buffer st) = IP_MAXPACKET"
    using inv by (simp_all add: raw_udp_inv_def)
  obtain t c u where hd: "take header_size (ether_buffer st) = frame_header loc rem port t c u"
    using inv by (auto simp: raw_udp_inv_def layout_simps)
  define rest where "rest = fst (snprintf_to (drop header_size (ether_buffer st)) max_msg_size ?t)"
  have max: "m < max_msg_size" using m by (simp add: max_msg_size_def IP_MAXPACKET_def layout_simps)
  have "length rest = IP_MAXPACKET - 42"
    using len unfolding rest_def by (subst length_snprintf_to) (simp_all add: max_msg_size_def layout_simps)
  moreover have "take m rest = map of_char ?t"
    using max unfolding rest_def by (simp add: snprintf_to_def m_def Let_def)
  ultimately have rest: "length rest = IP_MAXPACKET - 42" "take m rest = map of_char ?t" by simp_all
  have msg: "snprintf_to (drop header_size (ether_buffer st)) max_msg_size ?t = (rest, int m)"
    unfolding rest_def m_def by (simp add: snprintf_to_def)
  have tl: "word_of_int (int header_size + int m) = (word_of_nat (42 + m) :: u16)"
    by (simp add: layout_simps)
  have utl: "unat (word_of_nat (42 + m) :: u16) = 42 + m"
    using m by (intro unat_word_of_nat) simp
  have il: "word_of_int (uint (word_of_nat (42 + m) :: u16) - int eth_size) = (word_of_nat (28 + m) :: u16)"
  proof -
    have "uint (word_of_nat (42 + m) :: u16) = int (42 + m)" by (metis utl of_nat_unat)
    then have "uint (word_of_nat (42 + m) :: u16) - int eth_size = int (28 + m)" by (simp add: layout_simps)
    then show ?thesis by (simp only: of_int_of_nat_eq)
  qed
  have ul: "word_of_int (8 + int m) = (word_of_nat (8 + m) :: u16)" by simp
  let ?tl = "htons (word_of_nat (28 + m))" and ?ul = "htons (word_of_nat (8 + m))"
  let ?buf = "frame_header loc rem port ?tl (ip_check loc rem ?tl) ?ul @ rest"
  let ?st = "\<lparr>ether_buffer = ?buf, u_count = u_count st + 1, u_sent = u_sent st @ [take (42 + m) ?buf]\<rparr>"
  have off: "eth_size + 2 = 16" "eth_size + ip_size + 4 = 38" "eth_size + 10 = 24"
    "drop eth_size = (drop 14 :: byte list \<Rightarrow> byte list)" "int ip_size = 20"
    by (simp_all add: layout_simps)
  have step: "raw_udp_step st r = (if r = -1 then Exit EXIT_FAILURE else Ok ?st)"
    using cnt max unfolding raw_udp_step_def Let_def msg fst_conv snd_conv hd tl utl il ul off
      store_tot_len [OF wf] store_udp_len [OF wf] store_check [OF wf] ipv4check_header [OF wf]
    by simp
  have "take (42 + m) ?buf = udp_frame loc rem port (map of_char ?t)"
    using rest wf by (simp add: udp_frame_def m_def)
  with step rest wf show ?thesis
    by (intro exI [of _ ?st]) (auto simp: raw_udp_inv_def IP_MAXPACKET_def)
qed

interpretation raw_udp_sender: counting_sender raw_udp_loop Ok "\<lambda>_. Exit EXIT_FAILURE" u_count u_sent
  "raw_udp_inv loc rem port" "\<lambda>_ r. r \<noteq> -1" "\<lambda>k. udp_frame loc rem port (map of_char (message_text k))"
  for loc rem port
proof unfold_locales
  fix st and r :: int
  assume "raw_udp_inv loc rem port st" and "0 \<le> u_count st" and "u_count st < 2 ^ 31 - 1" and "r \<noteq> -1"
  then show "\<exists>st'. (\<forall>rs. raw_udp_loop st (r # rs) = raw_udp_loop st' rs) \<and> raw_udp_inv loc rem port st' \<and>
      u_count st' = u_count st + 1 \<and>
      u_sent st' = u_sent st @ [udp_frame loc rem port (map of_char (message_text (u_count st)))]"
    using raw_udp_step_eq [of loc rem port st r] by auto
next
  fix st and r :: int and rs
  assume "raw_udp_inv loc rem port st" and "0 \<le> u_count st" and "u_count st < 2 ^ 31 - 1" and "\<not> r \<noteq> -1"
  then show "\<exists>st'. raw_udp_loop st (r # rs) = Exit EXIT_FAILURE \<and> raw_udp_inv loc rem port st' \<and>
      u_sent st' = u_sent st"
    using raw_udp_step_eq [of loc rem port st r] by auto
qed simp

text \<open>The state in which \<^verbatim>\<open>main\<close> enters the loop.\<close>

definition raw_udp_start :: "addr \<Rightarrow> addr \<Rightarrow> u16 \<Rightarrow> raw_udp_state" where
  "raw_udp_start loc rem port =
     \<lparr>ether_buffer = init_udp port (init_ip loc rem (init_ether loc rem (replicate IP_MAXPACKET 0))),
      u_count = 0, u_sent = []\<rparr>"

lemma raw_udp_start_inv:
  assumes "wf_addr loc" and "wf_addr rem"
  shows "raw_udp_inv loc rem port (raw_udp_start loc rem port)"
proof -
  have "IP_MAXPACKET = 42 + (IP_MAXPACKET - 42)" by (simp add: IP_MAXPACKET_def)
  then have "replicate IP_MAXPACKET (0 :: byte) = replicate 42 0 @ replicate (IP_MAXPACKET - 42) 0"
    by (metis replicate_add)
  then have "ether_buffer (raw_udp_start loc rem port)
      = frame_header loc rem port 0 0 0 @ replicate (IP_MAXPACKET - 42) 0"
    by (simp only: raw_udp_start_def raw_udp_state.simps init_buffer [OF assms])
  with assms show ?thesis by (auto simp: raw_udp_inv_def IP_MAXPACKET_def)
qed


lemma raw_udp_loop_cases:
  assumes "wf_addr loc" and "wf_addr rem" and "length sends < 2 ^ 31 - 1"
  shows "if -1 \<in> set sends then raw_udp_loop (raw_udp_start loc rem port) sends = Exit EXIT_FAILURE
    else \<exists>st. raw_udp_loop (raw_udp_start loc rem port) sends = Ok st \<and>
      u_sent st = map (\<lambda>k. udp_frame loc rem port (map of_char (message_text (int k)))) [0..<length sends]"
proof -
  note inv = raw_udp_start_inv [OF assms(1,2), of port]
  have start: "u_count (raw_udp_start loc rem port) = 0" "u_sent (raw_udp_start loc rem port) = []"
    by (simp_all add: raw_udp_start_def)
  have acc: "-1 \<notin> set rs \<Longrightarrow> raw_udp_sender.accepts c rs" for rs c
    by (auto simp: raw_udp_sender.accepts_def in_set_conv_nth)
  show ?thesis
  proof (cases "-1 \<in> set sends")
    case True
    then obtain rs more where split: "sends = rs @ -1 # more" "-1 \<notin> set rs"
      by (metis split_list_first)
    then have "int (length rs) < 2 ^ 31 - 1" using assms(3) by simp
    with raw_udp_sender.loop_stops [OF inv, of rs "-1" more] acc [OF split(2)] start split True
    show ?thesis by auto
  next
    case False
    have "int (length sends) < 2 ^ 31" using assms(3) by simp
    with raw_udp_sender.loop_sends [OF inv, of sends] acc [OF False] start False
    show ?thesis by (auto simp: raw_udp_sender.frames_def)
  qed
qed

text \<open>The loop under the interrupt.\<close>

lemma raw_udp_loop_interrupted:
  assumes "wf_addr loc" and "wf_addr rem" and "length as < 2 ^ 31 - 1"
    and run: "raw_udp_runs (raw_udp_start loc rem port) flag as r"
  shows "if -1 \<in> set as then r = Exit EXIT_FAILURE
    else \<not> raw_udp_loop_test flag \<and>
      (\<exists>st. r = Ok st \<and>
        u_sent st = map (\<lambda>k. udp_frame loc rem port (map of_char (message_text (int k)))) [0..<length as])"
proof -
  have "r = raw_udp_loop (raw_udp_start loc rem port) as"
    by (rule raw_udp_interrupt.loop_run_result [OF run])
  moreover have "\<not> raw_udp_loop_test flag" if "r = Ok st" for st
    by (rule raw_udp_interrupt.left_by_test [OF run]) (simp add: that raw_udp_loop_body_def)
  ultimately show ?thesis using raw_udp_loop_cases [OF assms(1-3), of port] by auto
qed

section \<open>Properties\<close>

text \<open>C33: \<^verbatim>\<open>ipv4check\<close> against its reference, for every buffer and every \<^verbatim>\<open>int\<close> size. It
  returns the complement of the ones' complement sum of the 16-bit words it reads: those that cover the
  bytes when the size is positive (an odd last byte takes its successor along), one word when the size is
  zero, none when it is negative. It has no meaning exactly when those words leave the buffer, when their
  plain sum overflows the signed accumulator, or when the size is the least \<^verbatim>\<open>int\<close>. The two folds of the
  carries are enough for every sum that fits.\<close>

theorem ipv4check_correct:
  "ipv4check raw n =
    (let k = (if n = 0 then 1 else nat ((n + 1) div 2)); ws = le_words (take (2 * k) raw) in
     if n \<le> - (2 ^ 31) \<or> length raw < 2 * k \<or> 2 ^ 31 \<le> sum_list ws then UB
     else Ok (NOT (word_of_nat (ones_sum ws))))"
  unfolding ipv4_words_def [symmetric] by (rule ipv4check_words)

theorem ipv4check_correct_witness:
  "ipv4check [0x45, 0x00, 0xFF, 0xFF] 3 = Ok (NOT (word_of_nat (ones_sum [0x45, 0xFFFF]))) \<and>
   ipv4check [0x45, 0x00, 0xFF, 0xFF] 0 = Ok (NOT (word_of_nat (ones_sum [0x45]))) \<and>
   ipv4check [0x45] 0 = UB \<and> ipv4check [] (- 5) = Ok (NOT 0)"
  using ipv4check_correct [of "[0x45, 0x00, 0xFF, 0xFF]" 3] ipv4check_correct [of "[0x45, 0x00, 0xFF, 0xFF]" 0]
    ipv4check_correct [of "[0x45]" 0] ipv4check_correct [of "[]" "- 5"]
  by (simp add: ones_sum_def)

text \<open>C34: a header whose checksum word was zero while \<^verbatim>\<open>ipv4check\<close> ran is valid for the receiver once
  the result is stored: the ones' complement sum of its big-endian words is all ones. No other value of
  the checksum word is valid, up to the two representations of zero, so every change of one 16-bit
  word to another value is detected.\<close>

theorem ipv4check_verifies:
  assumes "even (length pre)" and "even (length post)" and "length pre + length post < 65536"
  shows "\<exists>c. ipv4check (pre @ le16 0 @ post @ tail) (int (length pre + 2 + length post)) = Ok c \<and>
    header_valid (pre @ le16 c @ post) \<and>
    (\<forall>w. header_valid (pre @ le16 w @ post) \<longrightarrow> w = c \<or> {w, c} = {0, 0xFFFF})"
proof -
  let ?h = "pre @ le16 0 @ post" and ?n = "int (length pre + 2 + length post)"
  define c :: u16 where "c = NOT (word_of_nat (ones_sum (le_words ?h)))"
  have "even (length pre + 2 + length post)" using assms(1,2) by simp
  then obtain j where "length pre + 2 + length post = 2 * j" by (rule evenE)
  then have k: "2 * ipv4_words ?n = length pre + 2 + length post" by (simp add: ipv4_words_def)
  have words: "length (le_words bs) = length bs div 2" for bs
    by (induction bs rule: le_words.induct) simp_all
  have "sum_list (le_words ?h) < 2 ^ 31"
    using sum_list_bounded [OF le_words_bound, of ?h] assms(3) by (simp add: words)
  moreover have "take (length pre + 2 + length post) (pre @ le16 0 @ post @ tail) = ?h" by simp
  ultimately have "ipv4check (pre @ le16 0 @ post @ tail) ?n = Ok c"
    using ipv4check_words [of "pre @ le16 0 @ post @ tail" ?n] unfolding k c_def Let_def by simp
  moreover have valid: "header_valid (pre @ le16 c @ post)"
    unfolding c_def by (rule header_valid_complete [OF assms(1)])
  moreover have "w = c \<or> {w, c} = {0, 0xFFFF}" if "header_valid (pre @ le16 w @ post)" for w
    using header_valid_unique [OF assms(1) valid that] by auto
  ultimately show ?thesis by blast
qed

theorem ipv4check_verifies_witness:
  "\<exists>c. ipv4check [0x45, 0x00, 0x00, 0x00, 0x12, 0x34] 6 = Ok c \<and>
    header_valid ([0x45, 0x00] @ le16 c @ [0x12, 0x34])"
  using ipv4check_verifies [of "[0x45, 0x00]" "[0x12, 0x34]" "[]"] by (auto simp: le16_def)

text \<open>C35: the loop from the initialised buffer. As long as \<^verbatim>\<open>sendto\<close> does not fail, one frame per
  iteration leaves the buffer, and the \<open>k\<close>-th is, byte by byte: Ethernet header of type 0x0800, IP
  header of version 4 and five words with the datagram's length, identification 0, time to live 255,
  protocol 17, both addresses and a checksum that makes it valid, UDP header with source port 4242, the
  given port, the length and no checksum, and the text \<open>Message: k\<close>. The first failure ends the
  program.\<close>

theorem raw_udp_frames_on_wire:
  assumes "wf_addr loc" and "wf_addr rem" and "length sends < 2 ^ 31 - 1"
  shows "if -1 \<in> set sends then raw_udp_loop (raw_udp_start loc rem port) sends = Exit EXIT_FAILURE
    else \<exists>st. raw_udp_loop (raw_udp_start loc rem port) sends = Ok st \<and> length (u_sent st) = length sends \<and>
      (\<forall>k < length sends. \<exists>check. let text = message_text (int k) in
         u_sent st ! k =
           mac rem @ mac loc @ [0x08, 0x00]
           @ [0x45, 0, 0, word_of_nat (28 + length text), 0, 0, 0, 0, 255, 17] @ le16 check
           @ le32 (ipv4 loc) @ le32 (ipv4 rem)
           @ [0x10, 0x92] @ rev (le16 port) @ [0, word_of_nat (8 + length text), 0, 0]
           @ map of_char text \<and>
         header_valid (take 20 (drop 14 (u_sent st ! k))))"
proof (cases "-1 \<in> set sends")
  case True
  with raw_udp_loop_cases [OF assms, of port] show ?thesis by simp
next
  case False
  with raw_udp_loop_cases [OF assms, of port] obtain st
    where run: "raw_udp_loop (raw_udp_start loc rem port) sends = Ok st"
      and sent: "u_sent st = map (\<lambda>k. udp_frame loc rem port (map of_char (message_text (int k)))) [0..<length sends]"
    by auto
  have "\<exists>check. let text = message_text (int k) in
       u_sent st ! k =
         mac rem @ mac loc @ [0x08, 0x00]
         @ [0x45, 0, 0, word_of_nat (28 + length text), 0, 0, 0, 0, 255, 17] @ le16 check
         @ le32 (ipv4 loc) @ le32 (ipv4 rem)
         @ [0x10, 0x92] @ rev (le16 port) @ [0, word_of_nat (8 + length text), 0, 0]
         @ map of_char text \<and>
       header_valid (take 20 (drop 14 (u_sent st ! k)))" if k: "k < length sends" for k
  proof -
    let ?t = "message_text (int k)"
    have "length ?t \<le> 19" using k assms(3) by (intro length_message_text) simp_all
    then have "rev (le16 (word_of_nat (28 + length ?t))) = [0, word_of_nat (28 + length ?t)]"
      "rev (le16 (word_of_nat (8 + length ?t))) = [0, word_of_nat (8 + length ?t)]"
      by (simp_all only: le16_small)
    then have "u_sent st ! k =
         mac rem @ mac loc @ [0x08, 0x00]
         @ [0x45, 0, 0, word_of_nat (28 + length ?t), 0, 0, 0, 0, 255, 17]
         @ le16 (ip_check loc rem (htons (word_of_nat (28 + length ?t))))
         @ le32 (ipv4 loc) @ le32 (ipv4 rem)
         @ [0x10, 0x92] @ rev (le16 port) @ [0, word_of_nat (8 + length ?t), 0, 0] @ map of_char ?t"
      using k by (simp add: sent udp_frame_def frame_header_def ip_front_def ip_addresses_def le16_htons)
    moreover have "header_valid (take 20 (drop 14 (u_sent st ! k)))"
      using k udp_frame_valid [OF assms(1,2)] by (simp add: sent)
    ultimately show ?thesis unfolding Let_def by blast
  qed
  with False run sent show ?thesis by auto
qed


theorem raw_udp_frames_on_wire_witness:
  "raw_udp_loop (raw_udp_start zero_addr zero_addr 7) [-1] = Exit EXIT_FAILURE \<and>
   (\<exists>st. raw_udp_loop (raw_udp_start zero_addr zero_addr 7) [52, 52] = Ok st \<and> length (u_sent st) = 2)"
proof -
  have wf: "wf_addr zero_addr" by (simp add: wf_addr_def zero_addr_def)
  show ?thesis
    using raw_udp_frames_on_wire [OF wf wf, of "[-1]" 7] raw_udp_frames_on_wire [OF wf wf, of "[52, 52]" 7]
    by auto
qed

text \<open>C36: the whole run. With a handler installed, a known interface and both lookups delivering
  addresses, \<^verbatim>\<open>main\<close> returns having sent, through the interface named on the command line or \<open>eth4\<close>
  and to the remote MAC address, one datagram per iteration with exactly those addresses and the port
  of the command line modulo \<open>2 ^ 16\<close>; the first failing \<^verbatim>\<open>sendto\<close> ends it with the failure status.\<close>

theorem raw_udp_main_sends:
  assumes "u_sigaction env = 0" and "opt = [] \<or> opt = [name]"
    and "ifname = (if opt = [] then ''eth4'' else name)"
    and "lookup_local_addr (u_ifaddrs env) ifname = Ok (loc, said)"
    and "lookup_remote_addr (u_getaddrinfo env) (u_arp_socket env) (u_arp env) (u_pton6 env) ifname ip None
           = Ok rem"
    and "wf_addr loc" and "wf_addr rem" and "- (2 ^ 31) \<le> q" and "q < 2 ^ 31"
    and "u_nametoindex env ifname \<noteq> 0" and "u_socket env \<noteq> -1" and "length (u_sends env) < 2 ^ 31 - 1"
  shows "if -1 \<in> set (u_sends env) then raw_udp_main env ([prog, fmt_d q, ip] @ opt) = Exit EXIT_FAILURE
    else \<exists>st out. raw_udp_main env ([prog, fmt_d q, ip] @ opt) =
        Ok (\<lparr>ld_ifindex = u_nametoindex env ifname, ld_family = 17, ld_halen = 6, ld_addr = mac rem\<rparr>, st, out) \<and>
      u_sent st = map (\<lambda>k. udp_frame loc rem (word_of_int q) (map of_char (message_text (int k))))
        [0..<length (u_sends env)]"
proof -
  let ?loop = "raw_udp_loop (raw_udp_start loc rem (word_of_int q)) (u_sends env)"
  have argv: "length ([prog, fmt_d q, ip] @ opt) = 4 \<or> length ([prog, fmt_d q, ip] @ opt) = 3"
    and name: "(if length ([prog, fmt_d q, ip] @ opt) = 4 then ([prog, fmt_d q, ip] @ opt) ! 3 else ''eth4'') = ifname"
    using assms(2,3) by auto
  have six: "take 6 (mac rem) = mac rem" using assms(7) by (simp add: wf_addr_def)
  have "\<exists>out. raw_udp_main env ([prog, fmt_d q, ip] @ opt) = bind_outcome ?loop (\<lambda>st.
      Ok (\<lparr>ld_ifindex = u_nametoindex env ifname, ld_family = 17, ld_halen = 6, ld_addr = mac rem\<rparr>, st, out))"
    using assms(1,4,5,8-11) argv unfolding raw_udp_main_def Let_def name raw_udp_start_def
    by (auto simp: six atoi_fmt_d)
  with raw_udp_loop_cases [OF assms(6,7,12), of "word_of_int q"] show ?thesis by auto
qed

definition example_udp_env :: raw_udp_env where
  "example_udp_env =
     \<lparr>u_sigaction = 0, u_ifaddrs = Some [\<lparr>ifa_name = ''eth0'', ifa_addr = Some (Sockaddr_in 1)\<rparr>],
      u_getaddrinfo = (\<lambda>_. Some 2), u_arp_socket = 3, u_arp = (\<lambda>_ _. Some [1, 2, 3, 4, 5, 6]),
      u_pton6 = (\<lambda>_. None), u_ntop4 = (\<lambda>_. []), u_ntop6 = (\<lambda>_. []), u_ether_ntoa = (\<lambda>_. []),
      u_nametoindex = (\<lambda>_. 2), u_socket = 4, u_sends = [52]\<rparr>"

theorem raw_udp_main_sends_witness:
  "\<exists>st out. raw_udp_main example_udp_env [''raw_udp'', fmt_d 5001, ''10.0.0.1'', ''eth0''] =
      Ok (\<lparr>ld_ifindex = 2, ld_family = 17, ld_halen = 6, ld_addr = [1, 2, 3, 4, 5, 6]\<rparr>, st, out) \<and>
    u_sent st = [udp_frame (zero_addr\<lparr>ipv4 := 1\<rparr>) (zero_addr\<lparr>mac := [1, 2, 3, 4, 5, 6], ipv4 := 2\<rparr>) 5001
      (map of_char (message_text 0))]"
proof -
  have "lookup_local_addr (u_ifaddrs example_udp_env) ''eth0'' = Ok (zero_addr\<lparr>ipv4 := 1\<rparr>, [])"
    by (simp add: example_udp_env_def lookup_local_addr_def local_addr_step_def)
  moreover have "lookup_remote_addr (u_getaddrinfo example_udp_env) (u_arp_socket example_udp_env)
      (u_arp example_udp_env) (u_pton6 example_udp_env) ''eth0'' ''10.0.0.1'' None
      = Ok (zero_addr\<lparr>mac := [1, 2, 3, 4, 5, 6], ipv4 := 2\<rparr>)"
    by (simp add: example_udp_env_def lookup_remote_addr_def)
  ultimately show ?thesis
    using raw_udp_main_sends [of example_udp_env "[''eth0'']" "''eth0''" "''eth0''"
      "zero_addr\<lparr>ipv4 := 1\<rparr>" "[]" "''10.0.0.1''" "zero_addr\<lparr>mac := [1, 2, 3, 4, 5, 6], ipv4 := 2\<rparr>" 5001 "''raw_udp''"]
    by (simp add: example_udp_env_def wf_addr_def zero_addr_def)
qed

text \<open>The error paths of \<^verbatim>\<open>main\<close> before the loop. A failing signal handler, a wrong number of
  arguments, an unreadable interface list, an unknown interface and a failing socket each end the
  program with the failure status; a destination that does not resolve makes the lookup read through
  an uninitialised pointer.\<close>

theorem raw_udp_main_rejects:
  assumes "ifname = (if length argv = 4 then argv ! 3 else ''eth4'')"
  shows "(u_sigaction env \<noteq> 0 \<or> length argv \<notin> {3, 4} \<or> u_ifaddrs env = None \<longrightarrow>
      raw_udp_main env argv = Exit EXIT_FAILURE) \<and>
    (u_sigaction env = 0 \<and> length argv \<in> {3, 4} \<and> lookup_local_addr (u_ifaddrs env) ifname = Ok l \<longrightarrow>
      (u_getaddrinfo env (argv ! 2) = None \<longrightarrow> raw_udp_main env argv = UB) \<and>
      (lookup_remote_addr (u_getaddrinfo env) (u_arp_socket env) (u_arp env) (u_pton6 env) ifname (argv ! 2) None
         = Ok rem \<and> (u_nametoindex env ifname = 0 \<or> atoi (argv ! 1) = Ok q \<and> u_socket env = -1) \<longrightarrow>
       raw_udp_main env argv = Exit EXIT_FAILURE))"
proof -
  have "raw_udp_main env argv = Exit EXIT_FAILURE"
    if "u_sigaction env \<noteq> 0 \<or> length argv \<notin> {3, 4} \<or> u_ifaddrs env = None"
    using that by (auto simp: raw_udp_main_def Let_def lookup_local_addr_def)
  moreover have "raw_udp_main env argv = UB"
    if "u_sigaction env = 0" "length argv \<in> {3, 4}" "lookup_local_addr (u_ifaddrs env) ifname = Ok l"
      "u_getaddrinfo env (argv ! 2) = None"
    using that assms by (cases l) (auto simp: raw_udp_main_def Let_def lookup_remote_addr_def)
  moreover have "raw_udp_main env argv = Exit EXIT_FAILURE"
    if "u_sigaction env = 0" "length argv \<in> {3, 4}" "lookup_local_addr (u_ifaddrs env) ifname = Ok l"
      "lookup_remote_addr (u_getaddrinfo env) (u_arp_socket env) (u_arp env) (u_pton6 env) ifname (argv ! 2) None = Ok rem"
      "u_nametoindex env ifname = 0 \<or> atoi (argv ! 1) = Ok q \<and> u_socket env = -1"
    using that assms by (cases l) (auto simp: raw_udp_main_def Let_def)
  ultimately show ?thesis by blast
qed

theorem raw_udp_main_rejects_witness:
  "raw_udp_main (example_udp_env\<lparr>u_ifaddrs := None\<rparr>) [''raw_udp'', ''1'', ''x''] = Exit EXIT_FAILURE"
  using raw_udp_main_rejects [of "''eth4''" "[''raw_udp'', ''1'', ''x'']" "example_udp_env\<lparr>u_ifaddrs := None\<rparr>"]
  by simp

end
