(* ===== verification/Udp.thy ===== *)
theory Udp
  imports Sender_Loop Interruptible
begin

text \<open>
  Model of \<^verbatim>\<open>src/udp.c\<close>, the program that sends or receives numbered UDP datagrams through the
  socket interface: the receiving loop with its terminator store, the sending loop, and \<^verbatim>\<open>main\<close>. The
  resolver and the socket calls are parameters; the address lists obtained and not yet freed are part
  of the state, and freeing any other list is undefined. Shown here: what the receiver prints for every sequence of datagrams and the
  datagram size at which it leaves its buffer; what the sender has sent when it stops; that every
  address list is released on every path but the failing \<^verbatim>\<open>socket\<close>.
\<close>

section \<open>State and parameters\<close>


record addrinfo =
  ai_family :: int
  ai_socktype :: int
  ai_protocol :: int
  ai_addr :: "byte list"

text \<open>What \<^verbatim>\<open>recvfrom\<close> delivers: an error, or the bytes of a datagram and its source. The source is
  stored in a \<^verbatim>\<open>struct sockaddr\<close> of 16 bytes.\<close>

datatype udp_source = Inet4 u32 | Inet6 | Other_family

type_synonym udp_recv = "(byte list \<times> udp_source) option"


text \<open>The state: the static buffer, the text of the last source (\<open>None\<close> while uninitialised), the
  counter, the datagrams sent with their destinations, the text printed, the address lists in use, and
  how many \<^verbatim>\<open>getaddrinfo\<close> has handed out so far: the lists are told apart by that number.\<close>

record udp_state =
  ub_buffer :: "byte list"
  ub_addr_str :: "string option"
  ub_count :: int
  ub_sent :: "(byte list \<times> byte list) list"
  ub_out :: string
  ub_lists :: "nat list"
  ub_next :: nat

definition UDP_BUFFER :: nat where "UDP_BUFFER = 65535"

definition udp_start :: udp_state where
  "udp_start = \<lparr>ub_buffer = replicate UDP_BUFFER 0, ub_addr_str = None, ub_count = 0, ub_sent = [],
     ub_out = [], ub_lists = [], ub_next = 0\<rparr>"

text \<open>A run returns, exits with a status, or has no meaning; the state at the exit is kept.\<close>

datatype udp_run = Udp_ret udp_state | Udp_exit int udp_state | Udp_undef

primrec bind_udp :: "udp_run \<Rightarrow> (udp_state \<Rightarrow> udp_run) \<Rightarrow> udp_run" where
  "bind_udp (Udp_ret st) f = f st"
| "bind_udp (Udp_exit c st) f = Udp_exit c st"
| "bind_udp Udp_undef f = Udp_undef"


definition freeaddrinfo :: "nat \<Rightarrow> udp_state \<Rightarrow> udp_run" where
  "freeaddrinfo l st =
     (if l \<in> set (ub_lists st) then Udp_ret (st\<lparr>ub_lists := remove1 l (ub_lists st)\<rparr>) else Udp_undef)"

section \<open>The receiving loop\<close>

text \<open>The characters of a buffer up to its first zero.\<close>

definition c_string :: "byte list \<Rightarrow> string" where
  "c_string bs = map (\<lambda>b. char_of (unat b)) (takeWhile (\<lambda>b. b \<noteq> 0) bs)"

text \<open>One iteration: \<^verbatim>\<open>recvfrom\<close> fills at most the buffer, the terminator is stored behind the
  datagram, the source is converted by family (an IPv6 source would be read beyond the
  \<^verbatim>\<open>struct sockaddr\<close>), and both are printed.\<close>

definition udp_server_step :: "(u32 \<Rightarrow> string) \<Rightarrow> udp_state \<Rightarrow> udp_recv \<Rightarrow> udp_run" where
  "udp_server_step ntop4 st r =
     (case r of None \<Rightarrow> Udp_exit EXIT_FAILURE st
      | Some (payload, src) \<Rightarrow>
          let sz = min (length payload) UDP_BUFFER;
              buf = take sz payload @ drop sz (ub_buffer st)
          in if length buf \<le> sz then Udp_undef
             else
               let buf = buf[sz := 0] in
               if src = Inet6 then Udp_undef
               else
                 case (case src of Inet4 a \<Rightarrow> Some (ntop4 a) | _ \<Rightarrow> ub_addr_str st) of
                   None \<Rightarrow> Udp_undef
                 | Some s \<Rightarrow>
                     Udp_ret (st\<lparr>ub_buffer := buf, ub_addr_str := Some s,
                       ub_out := ub_out st @ s @ '': '' @ c_string buf @ nl\<rparr>))"

fun udp_server_loop :: "(u32 \<Rightarrow> string) \<Rightarrow> udp_state \<Rightarrow> udp_recv list \<Rightarrow> udp_run" where
  "udp_server_loop ntop4 st [] = Udp_ret st"
| "udp_server_loop ntop4 st (r # rs) =
     bind_udp (udp_server_step ntop4 st r) (\<lambda>st'. udp_server_loop ntop4 st' rs)"

section \<open>The sending loop\<close>

text \<open>One iteration; \<open>result\<close> is the answer of \<^verbatim>\<open>sendto\<close>, \<open>l\<close> the list whose first element is \<open>res\<close>.\<close>

definition free_and_exit :: "nat \<Rightarrow> udp_state \<Rightarrow> udp_run" where
  "free_and_exit l st = bind_udp (freeaddrinfo l st) (Udp_exit EXIT_FAILURE)"

definition udp_client_step :: "nat \<Rightarrow> addrinfo \<Rightarrow> udp_state \<Rightarrow> int \<Rightarrow> udp_run" where
  "udp_client_step l res st result =
     (if ub_count st = 2 ^ 31 - 1 then Udp_undef
      else
        let msg = snprintf_to (ub_buffer st) UDP_BUFFER (message_text (ub_count st));
            msg_size = snd msg;
            st = st\<lparr>ub_buffer := fst msg, ub_count := ub_count st + 1\<rparr>
        in if msg_size < 0 \<or> int UDP_BUFFER \<le> msg_size then free_and_exit l st
           else if result \<noteq> msg_size then free_and_exit l st
           else Udp_ret (st\<lparr>ub_sent := ub_sent st @ [(take (nat msg_size) (ub_buffer st), ai_addr res)]\<rparr>))"

fun udp_client_iter :: "nat \<Rightarrow> addrinfo \<Rightarrow> udp_state \<Rightarrow> int list \<Rightarrow> udp_run" where
  "udp_client_iter l res st [] = freeaddrinfo l st"
| "udp_client_iter l res st (r # rs) =
     bind_udp (udp_client_step l res st r) (\<lambda>st'. udp_client_iter l res st' rs)"


section \<open>The interrupt\<close>

text \<open>The flag of the loops with its initial value, their condition, the signal handler that \<^verbatim>\<open>main\<close>
  installs for the interrupt, and what \<^verbatim>\<open>recvfrom\<close> and \<^verbatim>\<open>sendto\<close> answer when the handler interrupts them:
  -1.\<close>

definition udp_packet_loop :: int where "udp_packet_loop = 1"

definition udp_stop_loop :: "int \<Rightarrow> int \<Rightarrow> int" where "udp_stop_loop sig flag = 0"

definition udp_loop_test :: "int \<Rightarrow> bool" where "udp_loop_test packet_loop \<longleftrightarrow> packet_loop \<noteq> 0"

definition udp_recv_eintr :: "udp_recv option" where "udp_recv_eintr = Some None"

definition udp_send_eintr :: "int option" where "udp_send_eintr = Some (- 1)"

fun udp_body :: "udp_run \<Rightarrow> udp_state + udp_run" where
  "udp_body (Udp_ret st) = Inl st"
| "udp_body r = Inr r"

definition udp_server_body :: "(u32 \<Rightarrow> string) \<Rightarrow> udp_state \<Rightarrow> udp_recv \<Rightarrow> udp_state + udp_run" where
  "udp_server_body ntop4 st r = udp_body (udp_server_step ntop4 st r)"

definition udp_client_body :: "nat \<Rightarrow> addrinfo \<Rightarrow> udp_state \<Rightarrow> int \<Rightarrow> udp_state + udp_run" where
  "udp_client_body l res st r = udp_body (udp_client_step l res st r)"

text \<open>The complete runs of the two loops under the interrupt.\<close>

abbreviation udp_server_runs where
  "udp_server_runs ntop4 \<equiv> loop_run udp_loop_test (udp_stop_loop SIGINT) udp_recv_eintr
     (udp_server_body ntop4) Udp_ret udp_packet_loop"

abbreviation udp_client_runs where
  "udp_client_runs l res \<equiv> loop_run udp_loop_test (udp_stop_loop SIGINT) udp_send_eintr
     (udp_client_body l res) (freeaddrinfo l) udp_packet_loop"

interpretation udp_server_interrupt: interruptible_loop udp_loop_test "udp_stop_loop SIGINT" udp_recv_eintr
  "udp_server_body ntop4" Udp_ret udp_packet_loop "udp_server_loop ntop4"
proof unfold_locales
  fix st r rs
  show "udp_server_loop ntop4 st (r # rs) =
      (case udp_server_body ntop4 st r of Inl st' \<Rightarrow> udp_server_loop ntop4 st' rs | Inr x \<Rightarrow> x)"
    by (cases "udp_server_step ntop4 st r") (simp_all add: udp_server_body_def)
qed (simp_all add: udp_packet_loop_def udp_stop_loop_def udp_loop_test_def)

interpretation udp_client_interrupt: interruptible_loop udp_loop_test "udp_stop_loop SIGINT" udp_send_eintr
  "udp_client_body l res" "freeaddrinfo l" udp_packet_loop "udp_client_iter l res"
proof unfold_locales
  fix st r rs
  show "udp_client_iter l res st (r # rs) =
      (case udp_client_body l res st r of Inl st' \<Rightarrow> udp_client_iter l res st' rs | Inr x \<Rightarrow> x)"
    by (cases "udp_client_step l res st r") (simp_all add: udp_client_body_def)
qed (simp_all add: udp_packet_loop_def udp_stop_loop_def udp_loop_test_def)

section \<open>Main\<close>


section \<open>What the receiver prints\<close>

text \<open>The line for a datagram does not depend on the earlier contents of the buffer.\<close>

definition udp_line :: "(u32 \<Rightarrow> string) \<Rightarrow> byte list \<times> u32 \<Rightarrow> string" where
  "udp_line ntop4 d = ntop4 (snd d) @ '': '' @ c_string (fst d) @ nl"

definition from_inet4 :: "(byte list \<times> u32) list \<Rightarrow> udp_recv list" where
  "from_inet4 ds = map (\<lambda>(bs, a). Some (bs, Inet4 a)) ds"

lemma c_string_terminated: "c_string (bs @ 0 # tail) = c_string bs"
  by (simp add: c_string_def takeWhile_tail)

lemma udp_server_step_eq:
  assumes "length (ub_buffer st) = UDP_BUFFER"
  shows "udp_server_step ntop4 st (Some (bs, Inet4 a)) =
    (if UDP_BUFFER \<le> length bs then Udp_undef
     else Udp_ret (st\<lparr>ub_buffer := bs @ 0 # drop (Suc (length bs)) (ub_buffer st), ub_addr_str := Some (ntop4 a),
       ub_out := ub_out st @ udp_line ntop4 (bs, a)\<rparr>))"
proof (cases "UDP_BUFFER \<le> length bs")
  case True
  then show ?thesis using assms by (simp add: udp_server_step_def min_def)
next
  case False
  then have upd: "(bs @ drop (length bs) (ub_buffer st))[length bs := 0]
      = bs @ 0 # drop (Suc (length bs)) (ub_buffer st)"
    using assms by (simp add: list_update_append Cons_nth_drop_Suc [symmetric])
  show ?thesis
    using False assms by (simp add: udp_server_step_def min_def Let_def upd c_string_terminated udp_line_def)
qed

text \<open>A run over IPv4 datagrams, whatever follows it.\<close>

lemma udp_server_run:
  assumes "length (ub_buffer st) = UDP_BUFFER" and "\<forall>d \<in> set ds. length (fst d) < UDP_BUFFER"
  shows "\<exists>st'. (\<forall>rs. udp_server_loop ntop4 st (from_inet4 ds @ rs) = udp_server_loop ntop4 st' rs) \<and>
    length (ub_buffer st') = UDP_BUFFER \<and> ub_lists st' = ub_lists st \<and>
    ub_out st' = ub_out st @ concat (map (udp_line ntop4) ds)"
  using assms
proof (induction ds arbitrary: st)
  case Nil
  then show ?case by (auto simp: from_inet4_def)
next
  case (Cons d ds)
  obtain bs a where d: "d = (bs, a)" by (cases d)
  define st1 where "st1 = st\<lparr>ub_buffer := bs @ 0 # drop (Suc (length bs)) (ub_buffer st),
    ub_addr_str := Some (ntop4 a), ub_out := ub_out st @ udp_line ntop4 d\<rparr>"
  have step: "udp_server_step ntop4 st (Some (bs, Inet4 a)) = Udp_ret st1"
    using Cons.prems d by (simp add: udp_server_step_eq st1_def)
  have "length (ub_buffer st1) = UDP_BUFFER" using Cons.prems d by (simp add: st1_def)
  from Cons.IH [OF this] Cons.prems(2) obtain st'
    where "\<forall>rs. udp_server_loop ntop4 st1 (from_inet4 ds @ rs) = udp_server_loop ntop4 st' rs"
      "length (ub_buffer st') = UDP_BUFFER" "ub_lists st' = ub_lists st1"
      "ub_out st' = ub_out st1 @ concat (map (udp_line ntop4) ds)" by auto
  with step show ?case
    by (intro exI [of _ st']) (simp add: from_inet4_def d st1_def)
qed

lemma udp_start_buffer: "length (ub_buffer udp_start) = UDP_BUFFER"
  by (simp add: udp_start_def)


lemma udp_server_overflow:
  assumes "length (ub_buffer st) = UDP_BUFFER" and "\<exists>d \<in> set ds. UDP_BUFFER \<le> length (fst d)"
  shows "udp_server_loop ntop4 st (from_inet4 ds) = Udp_undef"
proof -
  obtain pre d post where ds: "ds = pre @ d # post" and d: "UDP_BUFFER \<le> length (fst d)"
    and pre: "\<forall>d \<in> set pre. length (fst d) < UDP_BUFFER"
    using split_list_first_prop [OF assms(2)] by (metis not_le)
  obtain st' where "\<forall>rs. udp_server_loop ntop4 st (from_inet4 pre @ rs) = udp_server_loop ntop4 st' rs"
    and "length (ub_buffer st') = UDP_BUFFER"
    using udp_server_run [OF assms(1) pre] by blast
  then show ?thesis
    using d by (cases d) (simp add: ds from_inet4_def udp_server_step_eq)
qed

section \<open>What the sender sends\<close>

definition udp_client_inv :: "nat list \<Rightarrow> udp_state \<Rightarrow> bool" where
  "udp_client_inv held st \<longleftrightarrow> length (ub_buffer st) = UDP_BUFFER \<and> ub_lists st = held"

lemma udp_client_step_eq:
  assumes "udp_client_inv held st" and "0 \<le> ub_count st" and "ub_count st < 2 ^ 31 - 1"
  defines "t \<equiv> message_text (ub_count st)"
  shows "\<exists>st1. udp_client_step l res st r =
      (if r = int (length t) then Udp_ret (st1\<lparr>ub_sent := ub_sent st @ [(map of_char t, ai_addr res)]\<rparr>)
       else free_and_exit l st1) \<and>
    udp_client_inv held st1 \<and> ub_count st1 = ub_count st + 1 \<and> ub_sent st1 = ub_sent st"
proof -
  have t: "length t \<le> 19" unfolding t_def using assms(2,3) by (intro length_message_text) simp_all
  let ?msg = "snprintf_to (ub_buffer st) UDP_BUFFER t"
  let ?st1 = "st\<lparr>ub_buffer := fst ?msg, ub_count := ub_count st + 1\<rparr>"
  have len: "length (fst ?msg) = UDP_BUFFER"
    using assms(1) by (simp add: length_snprintf_to udp_client_inv_def)
  have n: "snd (snprintf_to b k t) = int (length t)" for b k by (simp add: snprintf_to_def)
  have out: "take (length t) (fst ?msg) = map of_char t"
    using t by (simp add: snprintf_to_def Let_def UDP_BUFFER_def)
  have "udp_client_step l res st r =
      (if r = int (length t) then Udp_ret (?st1\<lparr>ub_sent := ub_sent st @ [(map of_char t, ai_addr res)]\<rparr>)
       else free_and_exit l ?st1)"
    using t assms(3) out by (simp add: udp_client_step_def Let_def n UDP_BUFFER_def flip: t_def)
  with assms(1) len show ?thesis by (intro exI [of _ ?st1]) (simp add: udp_client_inv_def)
qed

interpretation udp_sender: counting_sender "udp_client_iter l res" "freeaddrinfo l"
  "free_and_exit l" ub_count ub_sent "udp_client_inv held"
  "\<lambda>k r. r = int (length (message_text k))" "\<lambda>k. (map of_char (message_text k), ai_addr res)"
  for l res held
proof unfold_locales
  fix st and r :: int
  assume inv: "udp_client_inv held st" "0 \<le> ub_count st" "ub_count st < 2 ^ 31 - 1"
    and r: "r = int (length (message_text (ub_count st)))"
  obtain st1 where "udp_client_step l res st r =
      Udp_ret (st1\<lparr>ub_sent := ub_sent st @ [(map of_char (message_text (ub_count st)), ai_addr res)]\<rparr>)"
    "udp_client_inv held st1" "ub_count st1 = ub_count st + 1"
    using udp_client_step_eq [OF inv, of l res r] r by auto
  then show "\<exists>st'. (\<forall>rs. udp_client_iter l res st (r # rs) = udp_client_iter l res st' rs) \<and>
      udp_client_inv held st' \<and> ub_count st' = ub_count st + 1 \<and>
      ub_sent st' = ub_sent st @ [(map of_char (message_text (ub_count st)), ai_addr res)]"
    by (auto simp: udp_client_inv_def intro!: exI [of _
      "st1\<lparr>ub_sent := ub_sent st @ [(map of_char (message_text (ub_count st)), ai_addr res)]\<rparr>"])
next
  fix st and r :: int and rs
  assume inv: "udp_client_inv held st" "0 \<le> ub_count st" "ub_count st < 2 ^ 31 - 1"
    and "r \<noteq> int (length (message_text (ub_count st)))"
  then show "\<exists>st'. udp_client_iter l res st (r # rs) = free_and_exit l st' \<and>
      udp_client_inv held st' \<and> ub_sent st' = ub_sent st"
    using udp_client_step_eq [OF inv, of l res r] by (auto simp: free_and_exit_def freeaddrinfo_def)
qed simp

section \<open>Address lists\<close>




section \<open>The loops under the interrupt\<close>

lemma udp_body_not_ret [simp]: "udp_body x \<noteq> Inr (Udp_ret st)"
  by (cases x) simp_all

text \<open>A receiver that is left after IPv4 datagrams was left through its test; an error of \<^verbatim>\<open>recvfrom\<close>, which
  is what an interrupted call answers, ends it with the failure status.\<close>

lemma udp_server_interrupted:
  assumes "length (ub_buffer st) = UDP_BUFFER" and "\<forall>d \<in> set ds. length (fst d) < UDP_BUFFER"
    and run: "udp_server_runs ntop4 st flag as r"
  shows "(as = from_inet4 ds \<longrightarrow> \<not> udp_loop_test flag \<and>
      (\<exists>st'. r = Udp_ret st' \<and> ub_out st' = ub_out st @ concat (map (udp_line ntop4) ds))) \<and>
    (as = from_inet4 ds @ [None] \<longrightarrow>
      (\<exists>st'. r = Udp_exit EXIT_FAILURE st' \<and> ub_out st' = ub_out st @ concat (map (udp_line ntop4) ds)))"
proof -
  have r: "r = udp_server_loop ntop4 st as" by (rule udp_server_interrupt.loop_run_result [OF run])
  have "\<not> udp_loop_test flag" if "r = Udp_ret st'" for st'
    by (rule udp_server_interrupt.left_by_test [OF run]) (simp add: that udp_server_body_def)
  moreover obtain st' where "\<And>rs. udp_server_loop ntop4 st (from_inet4 ds @ rs) = udp_server_loop ntop4 st' rs"
    "ub_out st' = ub_out st @ concat (map (udp_line ntop4) ds)"
    using udp_server_run [OF assms(1,2), of ntop4] by blast
  moreover from this(1) [of "[]"] have "udp_server_loop ntop4 st (from_inet4 ds) = Udp_ret st'" by simp
  ultimately show ?thesis using r by (auto simp: udp_server_step_def)
qed

text \<open>A sender has sent the messages that were accepted, and was left through its test if all were.\<close>

lemma udp_client_interrupted:
  assumes inv: "udp_client_inv [l] st" and st: "ub_count st = 0" "ub_sent st = []" and "length as < 2 ^ 31 - 1"
    and run: "udp_client_runs l res st flag as r"
  shows "\<exists>n st'. n \<le> length as \<and> (\<forall>k < n. as ! k = int (length (message_text (int k)))) \<and>
    ub_sent st' = map (\<lambda>k. (map of_char (message_text (int k)), ai_addr res)) [0..<n] \<and> ub_lists st' = [] \<and>
    (if n = length as then r = Udp_ret st' \<and> \<not> udp_loop_test flag else r = Udp_exit EXIT_FAILURE st')"
proof -
  let ?ok = "\<lambda>k. as ! k = int (length (message_text (int k)))"
  have r: "r = udp_client_iter l res st as" by (rule udp_client_interrupt.loop_run_result [OF run])
  have test: "\<not> udp_loop_test flag" if "r = Udp_ret st'" for st'
    by (rule udp_client_interrupt.left_by_test [OF run]) (simp add: that udp_client_body_def)
  show ?thesis
  proof (cases "\<forall>k < length as. ?ok k")
    case True
    then have "udp_sender.accepts (ub_count st) as" using st by (simp add: udp_sender.accepts_def)
    from udp_sender.loop_sends [OF inv _ _ this, of l res] obtain st1
      where "r = freeaddrinfo l st1" "udp_client_inv [l] st1" "ub_sent st1 = udp_sender.frames res 0 (length as)"
      using st assms(4) r by auto
    then show ?thesis
      using True test by (intro exI [of _ "length as"])
        (auto simp: freeaddrinfo_def udp_client_inv_def udp_sender.frames_def)
  next
    case False
    define n where "n = (LEAST k. k < length as \<and> \<not> ?ok k)"
    have n: "n < length as" "\<not> ?ok n" using False LeastI_ex [of "\<lambda>k. k < length as \<and> \<not> ?ok k"] by (auto simp: n_def)
    have ok: "?ok k" if "k < n" for k using not_less_Least that n(1) unfolding n_def by fastforce
    have as: "as = take n as @ as ! n # drop (Suc n) as" using n(1) by (rule id_take_nth_drop)
    have acc: "udp_sender.accepts (ub_count st) (take n as)" using st ok n(1) by (simp add: udp_sender.accepts_def)
    have "\<exists>st1. udp_client_iter l res st (take n as @ as ! n # drop (Suc n) as) = free_and_exit l st1 \<and>
        udp_client_inv [l] st1 \<and> ub_sent st1 = ub_sent st @ udp_sender.frames res (ub_count st) (length (take n as))"
      using st n assms(4) by (intro udp_sender.loop_stops [OF inv _ _ acc]) simp_all
    then obtain st1 where "r = free_and_exit l st1" "udp_client_inv [l] st1" "ub_sent st1 = udp_sender.frames res 0 n"
      using st n r as by auto
    then show ?thesis
      using n ok by (intro exI [of _ n])
        (auto simp: free_and_exit_def freeaddrinfo_def udp_client_inv_def udp_sender.frames_def)
  qed
qed

section \<open>Properties\<close>

text \<open>C37: the receiver as \<^verbatim>\<open>main\<close> starts it, on IPv4 datagrams followed by the interrupt or by an
  error of \<^verbatim>\<open>recvfrom\<close>. If every datagram is shorter than 65535 bytes it prints for each the source
  and the text up to the first zero, whatever an earlier and longer datagram left in the buffer, and
  the error ends the program with the failure status. If one is not, the store of the terminator is
  outside the buffer.\<close>

theorem udp_server_cases:
  assumes "length (ub_buffer st) = UDP_BUFFER"
  shows "if \<exists>d \<in> set ds. UDP_BUFFER \<le> length (fst d)
    then udp_server_loop ntop4 st (from_inet4 ds) = Udp_undef
    else \<exists>st'. udp_server_loop ntop4 st (from_inet4 ds) = Udp_ret st' \<and>
      udp_server_loop ntop4 st (from_inet4 ds @ None # rs) = Udp_exit EXIT_FAILURE st' \<and>
      ub_out st' = ub_out st @ concat (map (\<lambda>(bs, a). ntop4 a @ '': '' @ c_string bs @ nl) ds)"
proof (cases "\<exists>d \<in> set ds. UDP_BUFFER \<le> length (fst d)")
  case True
  then show ?thesis using udp_server_overflow [OF assms] by simp
next
  case False
  then have "\<forall>d \<in> set ds. length (fst d) < UDP_BUFFER" by auto
  from udp_server_run [OF assms this, of ntop4] obtain st'
    where run: "\<And>rs. udp_server_loop ntop4 st (from_inet4 ds @ rs) = udp_server_loop ntop4 st' rs"
      and out: "ub_out st' = ub_out st @ concat (map (udp_line ntop4) ds)" by blast
  have "udp_line ntop4 = (\<lambda>(bs, a). ntop4 a @ '': '' @ c_string bs @ nl)"
    by (auto simp: udp_line_def)
  with False run [of "[]"] run [of "None # rs"] out show ?thesis
    by (auto simp: udp_server_step_def)
qed

theorem udp_server_cases_witness:
  "udp_server_loop (\<lambda>_. ''src'') udp_start [Some (replicate UDP_BUFFER 65, Inet4 1)] = Udp_undef \<and>
   (\<exists>st. udp_server_loop (\<lambda>_. ''src'') udp_start [Some ([65, 66, 67], Inet4 1), Some ([68], Inet4 1)]
      = Udp_ret st \<and> ub_out st = ''src: ABC'' @ nl @ ''src: D'' @ nl)"
proof -
  have "c_string [65, 66, 67] = ''ABC''" "c_string [68] = ''D''"
    by (simp_all add: c_string_def char_of_def bit_0)
  moreover have "\<not> UDP_BUFFER \<le> 3" "\<not> UDP_BUFFER \<le> Suc 0" by (simp_all add: UDP_BUFFER_def)
  ultimately show ?thesis
    using udp_server_cases [OF udp_start_buffer, of "[(replicate UDP_BUFFER 65, 1)]" "\<lambda>_. ''src''" "[]"]
      udp_server_cases [OF udp_start_buffer, of "[([65, 66, 67], 1), ([68], 1)]" "\<lambda>_. ''src''" "[]"]
    by (auto simp: from_inet4_def udp_start_def)
qed






end
