(* ===== verification/Verbs.thy ===== *)
theory Verbs
  imports Ib_Prelude
begin

text \<open>
  The vocabulary of \<^verbatim>\<open>src/sys/verbs.h\<close> the RDMA programs use: enumerations with their C values, bit
  masks, the structs the programs fill or read, and the inline functions that compute something. The
  library behind the header is not part of the repository; its answers are parameters of the
  theories that call it. Object pointers of the library (contexts, protection domains, queues) are
  opaque and modelled as numbers, with \<open>None\<close> for NULL; pointers into the program's own arrays are
  indices.
\<close>

section \<open>Enumerations\<close>

datatype ibv_mtu = IBV_MTU_256 | IBV_MTU_512 | IBV_MTU_1024 | IBV_MTU_2048 | IBV_MTU_4096

fun ibv_mtu_value :: "ibv_mtu \<Rightarrow> nat" where
  "ibv_mtu_value IBV_MTU_256 = 1"
| "ibv_mtu_value IBV_MTU_512 = 2"
| "ibv_mtu_value IBV_MTU_1024 = 3"
| "ibv_mtu_value IBV_MTU_2048 = 4"
| "ibv_mtu_value IBV_MTU_4096 = 5"

datatype ibv_port_state = IBV_PORT_NOP | IBV_PORT_DOWN | IBV_PORT_INIT | IBV_PORT_ARMED
  | IBV_PORT_ACTIVE | IBV_PORT_ACTIVE_DEFER

datatype ibv_wc_status =
    IBV_WC_SUCCESS | IBV_WC_LOC_LEN_ERR | IBV_WC_LOC_QP_OP_ERR | IBV_WC_LOC_EEC_OP_ERR
  | IBV_WC_LOC_PROT_ERR | IBV_WC_WR_FLUSH_ERR | IBV_WC_MW_BIND_ERR | IBV_WC_BAD_RESP_ERR
  | IBV_WC_LOC_ACCESS_ERR | IBV_WC_REM_INV_REQ_ERR | IBV_WC_REM_ACCESS_ERR | IBV_WC_REM_OP_ERR
  | IBV_WC_RETRY_EXC_ERR | IBV_WC_RNR_RETRY_EXC_ERR | IBV_WC_LOC_RDD_VIOL_ERR
  | IBV_WC_REM_INV_RD_REQ_ERR | IBV_WC_REM_ABORT_ERR | IBV_WC_INV_EECN_ERR
  | IBV_WC_INV_EEC_STATE_ERR | IBV_WC_FATAL_ERR | IBV_WC_RESP_TIMEOUT_ERR | IBV_WC_GENERAL_ERR
  | IBV_WC_TM_ERR | IBV_WC_TM_RNDV_INCOMPLETE

datatype ibv_wc_opcode =
    IBV_WC_SEND | IBV_WC_RDMA_WRITE | IBV_WC_RDMA_READ | IBV_WC_COMP_SWAP | IBV_WC_FETCH_ADD
  | IBV_WC_BIND_MW | IBV_WC_LOCAL_INV | IBV_WC_TSO | IBV_WC_RECV | IBV_WC_RECV_RDMA_WITH_IMM
  | IBV_WC_TM_ADD | IBV_WC_TM_DEL | IBV_WC_TM_SYNC | IBV_WC_TM_RECV | IBV_WC_TM_NO_TAG

fun ibv_wc_opcode_value :: "ibv_wc_opcode \<Rightarrow> u32" where
  "ibv_wc_opcode_value IBV_WC_SEND = 0"
| "ibv_wc_opcode_value IBV_WC_RDMA_WRITE = 1"
| "ibv_wc_opcode_value IBV_WC_RDMA_READ = 2"
| "ibv_wc_opcode_value IBV_WC_COMP_SWAP = 3"
| "ibv_wc_opcode_value IBV_WC_FETCH_ADD = 4"
| "ibv_wc_opcode_value IBV_WC_BIND_MW = 5"
| "ibv_wc_opcode_value IBV_WC_LOCAL_INV = 6"
| "ibv_wc_opcode_value IBV_WC_TSO = 7"
| "ibv_wc_opcode_value IBV_WC_RECV = push_bit 7 1"
| "ibv_wc_opcode_value IBV_WC_RECV_RDMA_WITH_IMM = push_bit 7 1 + 1"
| "ibv_wc_opcode_value IBV_WC_TM_ADD = push_bit 7 1 + 2"
| "ibv_wc_opcode_value IBV_WC_TM_DEL = push_bit 7 1 + 3"
| "ibv_wc_opcode_value IBV_WC_TM_SYNC = push_bit 7 1 + 4"
| "ibv_wc_opcode_value IBV_WC_TM_RECV = push_bit 7 1 + 5"
| "ibv_wc_opcode_value IBV_WC_TM_NO_TAG = push_bit 7 1 + 6"

datatype ibv_qp_type = IBV_QPT_RC | IBV_QPT_UC | IBV_QPT_UD | IBV_QPT_RAW_PACKET
  | IBV_QPT_XRC_SEND | IBV_QPT_XRC_RECV | IBV_QPT_DRIVER

fun ibv_qp_type_value :: "ibv_qp_type \<Rightarrow> nat" where
  "ibv_qp_type_value IBV_QPT_RC = 2"
| "ibv_qp_type_value IBV_QPT_UC = 3"
| "ibv_qp_type_value IBV_QPT_UD = 4"
| "ibv_qp_type_value IBV_QPT_RAW_PACKET = 8"
| "ibv_qp_type_value IBV_QPT_XRC_SEND = 9"
| "ibv_qp_type_value IBV_QPT_XRC_RECV = 10"
| "ibv_qp_type_value IBV_QPT_DRIVER = 255"

datatype ibv_qp_state = IBV_QPS_RESET | IBV_QPS_INIT | IBV_QPS_RTR | IBV_QPS_RTS | IBV_QPS_SQD
  | IBV_QPS_SQE | IBV_QPS_ERR | IBV_QPS_UNKNOWN

datatype ibv_mig_state = IBV_MIG_MIGRATED | IBV_MIG_REARM | IBV_MIG_ARMED

datatype ibv_wr_opcode =
    IBV_WR_RDMA_WRITE | IBV_WR_RDMA_WRITE_WITH_IMM | IBV_WR_SEND | IBV_WR_SEND_WITH_IMM
  | IBV_WR_RDMA_READ | IBV_WR_ATOMIC_CMP_AND_SWP | IBV_WR_ATOMIC_FETCH_AND_ADD
  | IBV_WR_LOCAL_INV | IBV_WR_BIND_MW | IBV_WR_SEND_WITH_INV | IBV_WR_TSO

section \<open>Bit masks\<close>

definition IBV_QP_STATE :: u32 where "IBV_QP_STATE = push_bit 0 1"
definition IBV_QP_PKEY_INDEX :: u32 where "IBV_QP_PKEY_INDEX = push_bit 4 1"
definition IBV_QP_PORT :: u32 where "IBV_QP_PORT = push_bit 5 1"
definition IBV_QP_QKEY :: u32 where "IBV_QP_QKEY = push_bit 6 1"
definition IBV_QP_SQ_PSN :: u32 where "IBV_QP_SQ_PSN = push_bit 16 1"
definition IBV_QP_CAP :: u32 where "IBV_QP_CAP = push_bit 19 1"

definition IBV_SEND_SIGNALED :: u32 where "IBV_SEND_SIGNALED = push_bit 1 1"
definition IBV_SEND_INLINE :: u32 where "IBV_SEND_INLINE = push_bit 3 1"

definition IBV_ACCESS_LOCAL_WRITE :: u32 where "IBV_ACCESS_LOCAL_WRITE = 1"

named_theorems mask_defs

declare IBV_QP_STATE_def [mask_defs] IBV_QP_PKEY_INDEX_def [mask_defs] IBV_QP_PORT_def [mask_defs]
  IBV_QP_QKEY_def [mask_defs] IBV_QP_SQ_PSN_def [mask_defs] IBV_QP_CAP_def [mask_defs]
  IBV_SEND_SIGNALED_def [mask_defs] IBV_SEND_INLINE_def [mask_defs]
  IBV_ACCESS_LOCAL_WRITE_def [mask_defs]

section \<open>Structs\<close>

text \<open>\<^verbatim>\<open>union ibv_gid\<close>: its sixteen raw bytes.\<close>

type_synonym ibv_gid = "byte list"

record ibv_port_attr =
  port_state :: ibv_port_state
  port_max_mtu :: ibv_mtu
  active_mtu :: ibv_mtu
  gid_tbl_len :: int
  port_cap_flags :: u32
  max_msg_sz :: u32
  bad_pkey_cntr :: u32
  qkey_viol_cntr :: u32
  pkey_tbl_len :: u16
  port_lid :: u16
  sm_lid :: u16
  lmc :: byte
  max_vl_num :: byte
  sm_sl :: byte
  subnet_timeout :: byte
  init_type_reply :: byte
  active_width :: byte
  active_speed :: byte
  phys_state :: byte
  link_layer :: byte
  port_reserved :: byte

record ibv_wc =
  wc_wr_id :: u64
  status :: ibv_wc_status
  wc_opcode :: ibv_wc_opcode
  vendor_err :: u32
  byte_len :: u32
  wc_imm_data :: u32
  wc_qp_num :: u32
  src_qp :: u32
  wc_flags :: u32
  wc_pkey_index :: u16
  slid :: u16
  wc_sl :: byte
  dlid_path_bits :: byte

record ibv_mr =
  mr_context :: "nat option"
  mr_pd :: "nat option"
  mr_addr :: nat
  mr_length :: u64
  mr_handle :: u32
  lkey :: u32
  rkey :: u32

record ibv_global_route =
  dgid :: ibv_gid
  gr_flow_label :: u32
  sgid_index :: byte
  gr_hop_limit :: byte
  traffic_class :: byte

record ibv_ah_attr =
  ah_grh :: ibv_global_route
  dlid :: u16
  ah_sl :: byte
  src_path_bits :: byte
  static_rate :: byte
  is_global :: byte
  ah_port_num :: byte

record ibv_qp_cap =
  max_send_wr :: u32
  max_recv_wr :: u32
  max_send_sge :: u32
  max_recv_sge :: u32
  max_inline_data :: u32

record ibv_qp_init_attr =
  qp_context :: "nat option"
  send_cq :: "nat option"
  recv_cq :: "nat option"
  srq :: "nat option"
  cap :: ibv_qp_cap
  qp_type :: ibv_qp_type
  sq_sig_all :: int

record ibv_qp_attr =
  qp_state :: ibv_qp_state
  cur_qp_state :: ibv_qp_state
  path_mtu :: ibv_mtu
  path_mig_state :: ibv_mig_state
  qkey :: u32
  rq_psn :: u32
  sq_psn :: u32
  dest_qp_num :: u32
  qp_access_flags :: u32
  qp_cap :: ibv_qp_cap
  qp_ah_attr :: ibv_ah_attr
  alt_ah_attr :: ibv_ah_attr
  pkey_index :: u16
  alt_pkey_index :: u16
  en_sqd_async_notify :: byte
  sq_draining :: byte
  max_rd_atomic :: byte
  max_dest_rd_atomic :: byte
  min_rnr_timer :: byte
  port_num :: byte
  timeout :: byte
  retry_cnt :: byte
  rnr_retry :: byte
  alt_port_num :: byte
  alt_timeout :: byte
  rate_limit :: u32

record ibv_sge =
  sge_addr :: u64
  sge_length :: u32
  sge_lkey :: u32

text \<open>\<^verbatim>\<open>next\<close> is an index into the array the request lives in, \<^verbatim>\<open>sg_list\<close> an index into the
  scatter-gather array. Of the unions of \<^verbatim>\<open>ibv_send_wr\<close> the programs use the UD member.\<close>

record ibv_recv_wr =
  rwr_id :: u64
  rwr_next :: "nat option"
  rwr_sg_list :: nat
  rwr_num_sge :: int

record ibv_send_wr =
  swr_id :: u64
  swr_next :: "nat option"
  swr_sg_list :: nat
  swr_num_sge :: int
  swr_opcode :: ibv_wr_opcode
  swr_send_flags :: u32
  ud_ah :: "nat option"
  ud_remote_qpn :: u32
  ud_remote_qkey :: u32

section \<open>Inline functions\<close>

definition IBV_LINK_LAYER_UNSPECIFIED :: byte where "IBV_LINK_LAYER_UNSPECIFIED = 0"

text \<open>\<^verbatim>\<open>ibv_query_port\<close> is a macro for \<^verbatim>\<open>___ibv_query_port\<close>, which clears the fields an old library
  leaves alone and calls the library's function, here the parameter \<open>query\<close>.\<close>

definition ibv_query_port ::
  "(nat option \<Rightarrow> byte \<Rightarrow> ibv_port_attr \<Rightarrow> int \<times> ibv_port_attr) \<Rightarrow>
     nat option \<Rightarrow> byte \<Rightarrow> ibv_port_attr \<Rightarrow> int \<times> ibv_port_attr" where
  "ibv_query_port query c port attr =
     query c port
       (attr\<lparr>link_layer := IBV_LINK_LAYER_UNSPECIFIED, port_reserved := 0\<rparr>)"

end
