(* ===== verification/Verbs_Flags.thy ===== *)
theory Verbs_Flags
  imports Verbs
begin

text \<open>
  The enumerations of \<^verbatim>\<open>src/sys/verbs.h\<close> that the theory \<open>Verbs\<close> does not have: the flags of the
  attribute masks, capabilities and options, each an enumeration of bit numbers, and the plain
  enumerations with the values of their constants. A constant that another theory has as a word under
  its own name carries a suffix here. Two contracts say what an application relies on: distinct
  constants have distinct values, and the flags that were combined with \<^verbatim>\<open>|\<close> are told apart by
  \<^verbatim>\<open>&\<close>.
\<close>

unbundle bit_operations_syntax

section \<open>Enumerations and masks\<close>

text \<open>The word of a list of flags, \<^verbatim>\<open>1 << n | 1 << m | ...\<close>.\<close>

definition flag_mask :: "('f \<Rightarrow> nat) \<Rightarrow> 'f list \<Rightarrow> u32" where
  "flag_mask bit_of fs = foldr (\<lambda>f m. push_bit (bit_of f) 1 OR m) fs 0"

text \<open>Testing a mask for a flag finds the flags it was made of, whatever they are.\<close>

definition tells_flags :: "('f \<Rightarrow> nat) \<Rightarrow> bool" where
  "tells_flags bit_of \<longleftrightarrow>
     (\<forall>fs f. flag_mask bit_of fs AND push_bit (bit_of f) 1 \<noteq> 0 \<longleftrightarrow> f \<in> set fs)"

lemma inj_by_list: "(\<And>f. f \<in> set fs) \<Longrightarrow> distinct (map g fs) \<Longrightarrow> inj g"
  by (metis distinct_map inj_onI inj_onD)

locale c_enum =
  fixes value_of :: "'f \<Rightarrow> int"
  assumes value_inj: "inj value_of"
begin

lemma value_eq_iff: "value_of x = value_of y \<longleftrightarrow> x = y"
  using value_inj by (simp add: inj_eq)

end

locale flag_enum =
  fixes bit_of :: "'f \<Rightarrow> nat"
  assumes bit_inj: "inj bit_of" and bit_small: "bit_of f < 32"

sublocale flag_enum \<subseteq> c_enum "\<lambda>f. 2 ^ bit_of f"
  by unfold_locales (use bit_inj in \<open>auto simp: inj_def\<close>)

context flag_enum
begin

lemma bit_mask: "bit (flag_mask bit_of fs) n \<longleftrightarrow> n \<in> bit_of ` set fs"
proof (induction fs)
  case (Cons f fs)
  have "bit (push_bit (bit_of f) 1 :: u32) n \<longleftrightarrow> n = bit_of f"
    using bit_small [of f] by (auto simp: bit_simps)
  with Cons show ?case by (simp add: flag_mask_def bit_simps)
qed (simp add: flag_mask_def)

lemma single_flag: "m AND push_bit (bit_of f) 1 \<noteq> 0 \<longleftrightarrow> bit m (bit_of f)" for m :: u32
proof -
  have "bit (m AND push_bit (bit_of f) 1) n \<longleftrightarrow> n = bit_of f \<and> bit m n" for n
    using bit_small [of f] by (auto simp: bit_simps)
  then show ?thesis by (metis bit_0_eq bot_apply bot_bool_def bit_eq_iff)
qed

lemma tells: "tells_flags bit_of"
  using bit_inj by (auto simp: tells_flags_def single_flag bit_mask inj_image_mem_iff simp del: push_bit_of_1)

lemma mask_eq_iff: "flag_mask bit_of fs = flag_mask bit_of gs \<longleftrightarrow> set fs = set gs"
proof
  assume "flag_mask bit_of fs = flag_mask bit_of gs"
  then have "bit_of ` set fs = bit_of ` set gs" by (metis bit_mask set_eqI)
  then show "set fs = set gs" using bit_inj by (simp add: inj_image_eq_iff)
qed (auto intro: bit_word_eqI simp: bit_mask)

end

section \<open>Flags\<close>

text \<open>The shift that one of the flags is defined with, and the maximum lengths of names.\<close>

definition IBV_WC_IP_CSUM_OK_SHIFT :: nat where "IBV_WC_IP_CSUM_OK_SHIFT = 2"

datatype ibv_device_cap_flags =
    IBV_DEVICE_RESIZE_MAX_WR | IBV_DEVICE_BAD_PKEY_CNTR | IBV_DEVICE_BAD_QKEY_CNTR |
    IBV_DEVICE_RAW_MULTI | IBV_DEVICE_AUTO_PATH_MIG | IBV_DEVICE_CHANGE_PHY_PORT |
    IBV_DEVICE_UD_AV_PORT_ENFORCE | IBV_DEVICE_CURR_QP_STATE_MOD | IBV_DEVICE_SHUTDOWN_PORT |
    IBV_DEVICE_INIT_TYPE | IBV_DEVICE_PORT_ACTIVE_EVENT | IBV_DEVICE_SYS_IMAGE_GUID |
    IBV_DEVICE_RC_RNR_NAK_GEN | IBV_DEVICE_SRQ_RESIZE | IBV_DEVICE_N_NOTIFY_CQ |
    IBV_DEVICE_MEM_WINDOW | IBV_DEVICE_UD_IP_CSUM | IBV_DEVICE_XRC |
    IBV_DEVICE_MEM_MGT_EXTENSIONS | IBV_DEVICE_MEM_WINDOW_TYPE_2A |
    IBV_DEVICE_MEM_WINDOW_TYPE_2B | IBV_DEVICE_RC_IP_CSUM | IBV_DEVICE_RAW_IP_CSUM |
    IBV_DEVICE_MANAGED_FLOW_STEERING

fun ibv_device_cap_flags_bit :: "ibv_device_cap_flags \<Rightarrow> nat" where
  "ibv_device_cap_flags_bit IBV_DEVICE_RESIZE_MAX_WR = 0"
| "ibv_device_cap_flags_bit IBV_DEVICE_BAD_PKEY_CNTR = 1"
| "ibv_device_cap_flags_bit IBV_DEVICE_BAD_QKEY_CNTR = 2"
| "ibv_device_cap_flags_bit IBV_DEVICE_RAW_MULTI = 3"
| "ibv_device_cap_flags_bit IBV_DEVICE_AUTO_PATH_MIG = 4"
| "ibv_device_cap_flags_bit IBV_DEVICE_CHANGE_PHY_PORT = 5"
| "ibv_device_cap_flags_bit IBV_DEVICE_UD_AV_PORT_ENFORCE = 6"
| "ibv_device_cap_flags_bit IBV_DEVICE_CURR_QP_STATE_MOD = 7"
| "ibv_device_cap_flags_bit IBV_DEVICE_SHUTDOWN_PORT = 8"
| "ibv_device_cap_flags_bit IBV_DEVICE_INIT_TYPE = 9"
| "ibv_device_cap_flags_bit IBV_DEVICE_PORT_ACTIVE_EVENT = 10"
| "ibv_device_cap_flags_bit IBV_DEVICE_SYS_IMAGE_GUID = 11"
| "ibv_device_cap_flags_bit IBV_DEVICE_RC_RNR_NAK_GEN = 12"
| "ibv_device_cap_flags_bit IBV_DEVICE_SRQ_RESIZE = 13"
| "ibv_device_cap_flags_bit IBV_DEVICE_N_NOTIFY_CQ = 14"
| "ibv_device_cap_flags_bit IBV_DEVICE_MEM_WINDOW = 17"
| "ibv_device_cap_flags_bit IBV_DEVICE_UD_IP_CSUM = 18"
| "ibv_device_cap_flags_bit IBV_DEVICE_XRC = 20"
| "ibv_device_cap_flags_bit IBV_DEVICE_MEM_MGT_EXTENSIONS = 21"
| "ibv_device_cap_flags_bit IBV_DEVICE_MEM_WINDOW_TYPE_2A = 23"
| "ibv_device_cap_flags_bit IBV_DEVICE_MEM_WINDOW_TYPE_2B = 24"
| "ibv_device_cap_flags_bit IBV_DEVICE_RC_IP_CSUM = 25"
| "ibv_device_cap_flags_bit IBV_DEVICE_RAW_IP_CSUM = 26"
| "ibv_device_cap_flags_bit IBV_DEVICE_MANAGED_FLOW_STEERING = 29"

datatype ibv_odp_transport_cap_bits =
    IBV_ODP_SUPPORT_SEND | IBV_ODP_SUPPORT_RECV | IBV_ODP_SUPPORT_WRITE | IBV_ODP_SUPPORT_READ |
    IBV_ODP_SUPPORT_ATOMIC

fun ibv_odp_transport_cap_bits_bit :: "ibv_odp_transport_cap_bits \<Rightarrow> nat" where
  "ibv_odp_transport_cap_bits_bit IBV_ODP_SUPPORT_SEND = 0"
| "ibv_odp_transport_cap_bits_bit IBV_ODP_SUPPORT_RECV = 1"
| "ibv_odp_transport_cap_bits_bit IBV_ODP_SUPPORT_WRITE = 2"
| "ibv_odp_transport_cap_bits_bit IBV_ODP_SUPPORT_READ = 3"
| "ibv_odp_transport_cap_bits_bit IBV_ODP_SUPPORT_ATOMIC = 4"

datatype ibv_odp_general_caps =
    IBV_ODP_SUPPORT

fun ibv_odp_general_caps_bit :: "ibv_odp_general_caps \<Rightarrow> nat" where
  "ibv_odp_general_caps_bit IBV_ODP_SUPPORT = 0"

datatype ibv_rx_hash_function_flags =
    IBV_RX_HASH_FUNC_TOEPLITZ

fun ibv_rx_hash_function_flags_bit :: "ibv_rx_hash_function_flags \<Rightarrow> nat" where
  "ibv_rx_hash_function_flags_bit IBV_RX_HASH_FUNC_TOEPLITZ = 0"

datatype ibv_rx_hash_fields =
    IBV_RX_HASH_SRC_IPV4 | IBV_RX_HASH_DST_IPV4 | IBV_RX_HASH_SRC_IPV6 | IBV_RX_HASH_DST_IPV6 |
    IBV_RX_HASH_SRC_PORT_TCP | IBV_RX_HASH_DST_PORT_TCP | IBV_RX_HASH_SRC_PORT_UDP |
    IBV_RX_HASH_DST_PORT_UDP | IBV_RX_HASH_INNER

fun ibv_rx_hash_fields_bit :: "ibv_rx_hash_fields \<Rightarrow> nat" where
  "ibv_rx_hash_fields_bit IBV_RX_HASH_SRC_IPV4 = 0"
| "ibv_rx_hash_fields_bit IBV_RX_HASH_DST_IPV4 = 1"
| "ibv_rx_hash_fields_bit IBV_RX_HASH_SRC_IPV6 = 2"
| "ibv_rx_hash_fields_bit IBV_RX_HASH_DST_IPV6 = 3"
| "ibv_rx_hash_fields_bit IBV_RX_HASH_SRC_PORT_TCP = 4"
| "ibv_rx_hash_fields_bit IBV_RX_HASH_DST_PORT_TCP = 5"
| "ibv_rx_hash_fields_bit IBV_RX_HASH_SRC_PORT_UDP = 6"
| "ibv_rx_hash_fields_bit IBV_RX_HASH_DST_PORT_UDP = 7"
| "ibv_rx_hash_fields_bit IBV_RX_HASH_INNER = 31"

datatype ibv_raw_packet_caps =
    IBV_RAW_PACKET_CAP_CVLAN_STRIPPING | IBV_RAW_PACKET_CAP_SCATTER_FCS |
    IBV_RAW_PACKET_CAP_IP_CSUM | IBV_RAW_PACKET_CAP_DELAY_DROP

fun ibv_raw_packet_caps_bit :: "ibv_raw_packet_caps \<Rightarrow> nat" where
  "ibv_raw_packet_caps_bit IBV_RAW_PACKET_CAP_CVLAN_STRIPPING = 0"
| "ibv_raw_packet_caps_bit IBV_RAW_PACKET_CAP_SCATTER_FCS = 1"
| "ibv_raw_packet_caps_bit IBV_RAW_PACKET_CAP_IP_CSUM = 2"
| "ibv_raw_packet_caps_bit IBV_RAW_PACKET_CAP_DELAY_DROP = 3"

datatype ibv_tm_cap_flags =
    IBV_TM_CAP_RC

fun ibv_tm_cap_flags_bit :: "ibv_tm_cap_flags \<Rightarrow> nat" where
  "ibv_tm_cap_flags_bit IBV_TM_CAP_RC = 0"

datatype ibv_port_cap_flags =
    IBV_PORT_SM | IBV_PORT_NOTICE_SUP | IBV_PORT_TRAP_SUP | IBV_PORT_OPT_IPD_SUP |
    IBV_PORT_AUTO_MIGR_SUP | IBV_PORT_SL_MAP_SUP | IBV_PORT_MKEY_NVRAM | IBV_PORT_PKEY_NVRAM |
    IBV_PORT_LED_INFO_SUP | IBV_PORT_SYS_IMAGE_GUID_SUP | IBV_PORT_PKEY_SW_EXT_PORT_TRAP_SUP |
    IBV_PORT_EXTENDED_SPEEDS_SUP | IBV_PORT_CM_SUP | IBV_PORT_SNMP_TUNNEL_SUP |
    IBV_PORT_REINIT_SUP | IBV_PORT_DEVICE_MGMT_SUP | IBV_PORT_VENDOR_CLASS_SUP |
    IBV_PORT_DR_NOTICE_SUP | IBV_PORT_CAP_MASK_NOTICE_SUP | IBV_PORT_BOOT_MGMT_SUP |
    IBV_PORT_LINK_LATENCY_SUP | IBV_PORT_CLIENT_REG_SUP | IBV_PORT_IP_BASED_GIDS

fun ibv_port_cap_flags_bit :: "ibv_port_cap_flags \<Rightarrow> nat" where
  "ibv_port_cap_flags_bit IBV_PORT_SM = 1"
| "ibv_port_cap_flags_bit IBV_PORT_NOTICE_SUP = 2"
| "ibv_port_cap_flags_bit IBV_PORT_TRAP_SUP = 3"
| "ibv_port_cap_flags_bit IBV_PORT_OPT_IPD_SUP = 4"
| "ibv_port_cap_flags_bit IBV_PORT_AUTO_MIGR_SUP = 5"
| "ibv_port_cap_flags_bit IBV_PORT_SL_MAP_SUP = 6"
| "ibv_port_cap_flags_bit IBV_PORT_MKEY_NVRAM = 7"
| "ibv_port_cap_flags_bit IBV_PORT_PKEY_NVRAM = 8"
| "ibv_port_cap_flags_bit IBV_PORT_LED_INFO_SUP = 9"
| "ibv_port_cap_flags_bit IBV_PORT_SYS_IMAGE_GUID_SUP = 11"
| "ibv_port_cap_flags_bit IBV_PORT_PKEY_SW_EXT_PORT_TRAP_SUP = 12"
| "ibv_port_cap_flags_bit IBV_PORT_EXTENDED_SPEEDS_SUP = 14"
| "ibv_port_cap_flags_bit IBV_PORT_CM_SUP = 16"
| "ibv_port_cap_flags_bit IBV_PORT_SNMP_TUNNEL_SUP = 17"
| "ibv_port_cap_flags_bit IBV_PORT_REINIT_SUP = 18"
| "ibv_port_cap_flags_bit IBV_PORT_DEVICE_MGMT_SUP = 19"
| "ibv_port_cap_flags_bit IBV_PORT_VENDOR_CLASS_SUP = 20"
| "ibv_port_cap_flags_bit IBV_PORT_DR_NOTICE_SUP = 21"
| "ibv_port_cap_flags_bit IBV_PORT_CAP_MASK_NOTICE_SUP = 22"
| "ibv_port_cap_flags_bit IBV_PORT_BOOT_MGMT_SUP = 23"
| "ibv_port_cap_flags_bit IBV_PORT_LINK_LATENCY_SUP = 24"
| "ibv_port_cap_flags_bit IBV_PORT_CLIENT_REG_SUP = 25"
| "ibv_port_cap_flags_bit IBV_PORT_IP_BASED_GIDS = 26"

datatype ibv_create_cq_wc_flags =
    IBV_WC_EX_WITH_BYTE_LEN | IBV_WC_EX_WITH_IMM | IBV_WC_EX_WITH_QP_NUM |
    IBV_WC_EX_WITH_SRC_QP | IBV_WC_EX_WITH_SLID | IBV_WC_EX_WITH_SL |
    IBV_WC_EX_WITH_DLID_PATH_BITS | IBV_WC_EX_WITH_COMPLETION_TIMESTAMP | IBV_WC_EX_WITH_CVLAN |
    IBV_WC_EX_WITH_FLOW_TAG | IBV_WC_EX_WITH_TM_INFO |
    IBV_WC_EX_WITH_COMPLETION_TIMESTAMP_WALLCLOCK

fun ibv_create_cq_wc_flags_bit :: "ibv_create_cq_wc_flags \<Rightarrow> nat" where
  "ibv_create_cq_wc_flags_bit IBV_WC_EX_WITH_BYTE_LEN = 0"
| "ibv_create_cq_wc_flags_bit IBV_WC_EX_WITH_IMM = 1"
| "ibv_create_cq_wc_flags_bit IBV_WC_EX_WITH_QP_NUM = 2"
| "ibv_create_cq_wc_flags_bit IBV_WC_EX_WITH_SRC_QP = 3"
| "ibv_create_cq_wc_flags_bit IBV_WC_EX_WITH_SLID = 4"
| "ibv_create_cq_wc_flags_bit IBV_WC_EX_WITH_SL = 5"
| "ibv_create_cq_wc_flags_bit IBV_WC_EX_WITH_DLID_PATH_BITS = 6"
| "ibv_create_cq_wc_flags_bit IBV_WC_EX_WITH_COMPLETION_TIMESTAMP = 7"
| "ibv_create_cq_wc_flags_bit IBV_WC_EX_WITH_CVLAN = 8"
| "ibv_create_cq_wc_flags_bit IBV_WC_EX_WITH_FLOW_TAG = 9"
| "ibv_create_cq_wc_flags_bit IBV_WC_EX_WITH_TM_INFO = 10"
| "ibv_create_cq_wc_flags_bit IBV_WC_EX_WITH_COMPLETION_TIMESTAMP_WALLCLOCK = 11"

datatype ibv_wc_flags =
    IBV_WC_GRH | IBV_WC_WITH_IMM | IBV_WC_IP_CSUM_OK | IBV_WC_WITH_INV | IBV_WC_TM_SYNC_REQ |
    IBV_WC_TM_MATCH | IBV_WC_TM_DATA_VALID

fun ibv_wc_flags_bit :: "ibv_wc_flags \<Rightarrow> nat" where
  "ibv_wc_flags_bit IBV_WC_GRH = 0"
| "ibv_wc_flags_bit IBV_WC_WITH_IMM = 1"
| "ibv_wc_flags_bit IBV_WC_IP_CSUM_OK = IBV_WC_IP_CSUM_OK_SHIFT"
| "ibv_wc_flags_bit IBV_WC_WITH_INV = 3"
| "ibv_wc_flags_bit IBV_WC_TM_SYNC_REQ = 4"
| "ibv_wc_flags_bit IBV_WC_TM_MATCH = 5"
| "ibv_wc_flags_bit IBV_WC_TM_DATA_VALID = 6"

datatype ibv_access_flags =
    IBV_ACCESS_LOCAL_WRITE_flag | IBV_ACCESS_REMOTE_WRITE | IBV_ACCESS_REMOTE_READ |
    IBV_ACCESS_REMOTE_ATOMIC | IBV_ACCESS_MW_BIND | IBV_ACCESS_ZERO_BASED | IBV_ACCESS_ON_DEMAND

fun ibv_access_flags_bit :: "ibv_access_flags \<Rightarrow> nat" where
  "ibv_access_flags_bit IBV_ACCESS_LOCAL_WRITE_flag = 0"
| "ibv_access_flags_bit IBV_ACCESS_REMOTE_WRITE = 1"
| "ibv_access_flags_bit IBV_ACCESS_REMOTE_READ = 2"
| "ibv_access_flags_bit IBV_ACCESS_REMOTE_ATOMIC = 3"
| "ibv_access_flags_bit IBV_ACCESS_MW_BIND = 4"
| "ibv_access_flags_bit IBV_ACCESS_ZERO_BASED = 5"
| "ibv_access_flags_bit IBV_ACCESS_ON_DEMAND = 6"

datatype ibv_xrcd_init_attr_mask =
    IBV_XRCD_INIT_ATTR_FD | IBV_XRCD_INIT_ATTR_OFLAGS | IBV_XRCD_INIT_ATTR_RESERVED

fun ibv_xrcd_init_attr_mask_bit :: "ibv_xrcd_init_attr_mask \<Rightarrow> nat" where
  "ibv_xrcd_init_attr_mask_bit IBV_XRCD_INIT_ATTR_FD = 0"
| "ibv_xrcd_init_attr_mask_bit IBV_XRCD_INIT_ATTR_OFLAGS = 1"
| "ibv_xrcd_init_attr_mask_bit IBV_XRCD_INIT_ATTR_RESERVED = 2"

datatype ibv_rereg_mr_flags =
    IBV_REREG_MR_CHANGE_TRANSLATION | IBV_REREG_MR_CHANGE_PD | IBV_REREG_MR_CHANGE_ACCESS |
    IBV_REREG_MR_KEEP_VALID

fun ibv_rereg_mr_flags_bit :: "ibv_rereg_mr_flags \<Rightarrow> nat" where
  "ibv_rereg_mr_flags_bit IBV_REREG_MR_CHANGE_TRANSLATION = 0"
| "ibv_rereg_mr_flags_bit IBV_REREG_MR_CHANGE_PD = 1"
| "ibv_rereg_mr_flags_bit IBV_REREG_MR_CHANGE_ACCESS = 2"
| "ibv_rereg_mr_flags_bit IBV_REREG_MR_KEEP_VALID = 3"

datatype ibv_srq_attr_mask =
    IBV_SRQ_MAX_WR | IBV_SRQ_LIMIT

fun ibv_srq_attr_mask_bit :: "ibv_srq_attr_mask \<Rightarrow> nat" where
  "ibv_srq_attr_mask_bit IBV_SRQ_MAX_WR = 0"
| "ibv_srq_attr_mask_bit IBV_SRQ_LIMIT = 1"

datatype ibv_srq_init_attr_mask =
    IBV_SRQ_INIT_ATTR_TYPE_flag | IBV_SRQ_INIT_ATTR_PD_flag | IBV_SRQ_INIT_ATTR_XRCD |
    IBV_SRQ_INIT_ATTR_CQ | IBV_SRQ_INIT_ATTR_TM | IBV_SRQ_INIT_ATTR_RESERVED

fun ibv_srq_init_attr_mask_bit :: "ibv_srq_init_attr_mask \<Rightarrow> nat" where
  "ibv_srq_init_attr_mask_bit IBV_SRQ_INIT_ATTR_TYPE_flag = 0"
| "ibv_srq_init_attr_mask_bit IBV_SRQ_INIT_ATTR_PD_flag = 1"
| "ibv_srq_init_attr_mask_bit IBV_SRQ_INIT_ATTR_XRCD = 2"
| "ibv_srq_init_attr_mask_bit IBV_SRQ_INIT_ATTR_CQ = 3"
| "ibv_srq_init_attr_mask_bit IBV_SRQ_INIT_ATTR_TM = 4"
| "ibv_srq_init_attr_mask_bit IBV_SRQ_INIT_ATTR_RESERVED = 5"

datatype ibv_wq_init_attr_mask =
    IBV_WQ_INIT_ATTR_FLAGS | IBV_WQ_INIT_ATTR_RESERVED

fun ibv_wq_init_attr_mask_bit :: "ibv_wq_init_attr_mask \<Rightarrow> nat" where
  "ibv_wq_init_attr_mask_bit IBV_WQ_INIT_ATTR_FLAGS = 0"
| "ibv_wq_init_attr_mask_bit IBV_WQ_INIT_ATTR_RESERVED = 1"

datatype ibv_wq_flags =
    IBV_WQ_FLAGS_CVLAN_STRIPPING | IBV_WQ_FLAGS_SCATTER_FCS | IBV_WQ_FLAGS_DELAY_DROP |
    IBV_WQ_FLAGS_PCI_WRITE_END_PADDING | IBV_WQ_FLAGS_RESERVED

fun ibv_wq_flags_bit :: "ibv_wq_flags \<Rightarrow> nat" where
  "ibv_wq_flags_bit IBV_WQ_FLAGS_CVLAN_STRIPPING = 0"
| "ibv_wq_flags_bit IBV_WQ_FLAGS_SCATTER_FCS = 1"
| "ibv_wq_flags_bit IBV_WQ_FLAGS_DELAY_DROP = 2"
| "ibv_wq_flags_bit IBV_WQ_FLAGS_PCI_WRITE_END_PADDING = 3"
| "ibv_wq_flags_bit IBV_WQ_FLAGS_RESERVED = 4"

datatype ibv_wq_attr_mask =
    IBV_WQ_ATTR_STATE | IBV_WQ_ATTR_CURR_STATE | IBV_WQ_ATTR_FLAGS | IBV_WQ_ATTR_RESERVED

fun ibv_wq_attr_mask_bit :: "ibv_wq_attr_mask \<Rightarrow> nat" where
  "ibv_wq_attr_mask_bit IBV_WQ_ATTR_STATE = 0"
| "ibv_wq_attr_mask_bit IBV_WQ_ATTR_CURR_STATE = 1"
| "ibv_wq_attr_mask_bit IBV_WQ_ATTR_FLAGS = 2"
| "ibv_wq_attr_mask_bit IBV_WQ_ATTR_RESERVED = 3"

datatype ibv_ind_table_init_attr_mask =
    IBV_CREATE_IND_TABLE_RESERVED

fun ibv_ind_table_init_attr_mask_bit :: "ibv_ind_table_init_attr_mask \<Rightarrow> nat" where
  "ibv_ind_table_init_attr_mask_bit IBV_CREATE_IND_TABLE_RESERVED = 0"

datatype ibv_qp_init_attr_mask =
    IBV_QP_INIT_ATTR_PD_flag | IBV_QP_INIT_ATTR_XRCD | IBV_QP_INIT_ATTR_CREATE_FLAGS |
    IBV_QP_INIT_ATTR_MAX_TSO_HEADER | IBV_QP_INIT_ATTR_IND_TABLE | IBV_QP_INIT_ATTR_RX_HASH |
    IBV_QP_INIT_ATTR_RESERVED

fun ibv_qp_init_attr_mask_bit :: "ibv_qp_init_attr_mask \<Rightarrow> nat" where
  "ibv_qp_init_attr_mask_bit IBV_QP_INIT_ATTR_PD_flag = 0"
| "ibv_qp_init_attr_mask_bit IBV_QP_INIT_ATTR_XRCD = 1"
| "ibv_qp_init_attr_mask_bit IBV_QP_INIT_ATTR_CREATE_FLAGS = 2"
| "ibv_qp_init_attr_mask_bit IBV_QP_INIT_ATTR_MAX_TSO_HEADER = 3"
| "ibv_qp_init_attr_mask_bit IBV_QP_INIT_ATTR_IND_TABLE = 4"
| "ibv_qp_init_attr_mask_bit IBV_QP_INIT_ATTR_RX_HASH = 5"
| "ibv_qp_init_attr_mask_bit IBV_QP_INIT_ATTR_RESERVED = 6"

datatype ibv_qp_create_flags =
    IBV_QP_CREATE_BLOCK_SELF_MCAST_LB | IBV_QP_CREATE_SCATTER_FCS |
    IBV_QP_CREATE_CVLAN_STRIPPING | IBV_QP_CREATE_SOURCE_QPN | IBV_QP_CREATE_PCI_WRITE_END_PADDING

fun ibv_qp_create_flags_bit :: "ibv_qp_create_flags \<Rightarrow> nat" where
  "ibv_qp_create_flags_bit IBV_QP_CREATE_BLOCK_SELF_MCAST_LB = 1"
| "ibv_qp_create_flags_bit IBV_QP_CREATE_SCATTER_FCS = 8"
| "ibv_qp_create_flags_bit IBV_QP_CREATE_CVLAN_STRIPPING = 9"
| "ibv_qp_create_flags_bit IBV_QP_CREATE_SOURCE_QPN = 10"
| "ibv_qp_create_flags_bit IBV_QP_CREATE_PCI_WRITE_END_PADDING = 11"

datatype ibv_qp_open_attr_mask =
    IBV_QP_OPEN_ATTR_NUM | IBV_QP_OPEN_ATTR_XRCD | IBV_QP_OPEN_ATTR_CONTEXT |
    IBV_QP_OPEN_ATTR_TYPE | IBV_QP_OPEN_ATTR_RESERVED

fun ibv_qp_open_attr_mask_bit :: "ibv_qp_open_attr_mask \<Rightarrow> nat" where
  "ibv_qp_open_attr_mask_bit IBV_QP_OPEN_ATTR_NUM = 0"
| "ibv_qp_open_attr_mask_bit IBV_QP_OPEN_ATTR_XRCD = 1"
| "ibv_qp_open_attr_mask_bit IBV_QP_OPEN_ATTR_CONTEXT = 2"
| "ibv_qp_open_attr_mask_bit IBV_QP_OPEN_ATTR_TYPE = 3"
| "ibv_qp_open_attr_mask_bit IBV_QP_OPEN_ATTR_RESERVED = 4"

datatype ibv_qp_attr_mask =
    IBV_QP_STATE_flag | IBV_QP_CUR_STATE | IBV_QP_EN_SQD_ASYNC_NOTIFY | IBV_QP_ACCESS_FLAGS |
    IBV_QP_PKEY_INDEX_flag | IBV_QP_PORT_flag | IBV_QP_QKEY_flag | IBV_QP_AV | IBV_QP_PATH_MTU |
    IBV_QP_TIMEOUT | IBV_QP_RETRY_CNT | IBV_QP_RNR_RETRY | IBV_QP_RQ_PSN |
    IBV_QP_MAX_QP_RD_ATOMIC | IBV_QP_ALT_PATH | IBV_QP_MIN_RNR_TIMER | IBV_QP_SQ_PSN_flag |
    IBV_QP_MAX_DEST_RD_ATOMIC | IBV_QP_PATH_MIG_STATE | IBV_QP_CAP_flag | IBV_QP_DEST_QPN |
    IBV_QP_RATE_LIMIT

fun ibv_qp_attr_mask_bit :: "ibv_qp_attr_mask \<Rightarrow> nat" where
  "ibv_qp_attr_mask_bit IBV_QP_STATE_flag = 0"
| "ibv_qp_attr_mask_bit IBV_QP_CUR_STATE = 1"
| "ibv_qp_attr_mask_bit IBV_QP_EN_SQD_ASYNC_NOTIFY = 2"
| "ibv_qp_attr_mask_bit IBV_QP_ACCESS_FLAGS = 3"
| "ibv_qp_attr_mask_bit IBV_QP_PKEY_INDEX_flag = 4"
| "ibv_qp_attr_mask_bit IBV_QP_PORT_flag = 5"
| "ibv_qp_attr_mask_bit IBV_QP_QKEY_flag = 6"
| "ibv_qp_attr_mask_bit IBV_QP_AV = 7"
| "ibv_qp_attr_mask_bit IBV_QP_PATH_MTU = 8"
| "ibv_qp_attr_mask_bit IBV_QP_TIMEOUT = 9"
| "ibv_qp_attr_mask_bit IBV_QP_RETRY_CNT = 10"
| "ibv_qp_attr_mask_bit IBV_QP_RNR_RETRY = 11"
| "ibv_qp_attr_mask_bit IBV_QP_RQ_PSN = 12"
| "ibv_qp_attr_mask_bit IBV_QP_MAX_QP_RD_ATOMIC = 13"
| "ibv_qp_attr_mask_bit IBV_QP_ALT_PATH = 14"
| "ibv_qp_attr_mask_bit IBV_QP_MIN_RNR_TIMER = 15"
| "ibv_qp_attr_mask_bit IBV_QP_SQ_PSN_flag = 16"
| "ibv_qp_attr_mask_bit IBV_QP_MAX_DEST_RD_ATOMIC = 17"
| "ibv_qp_attr_mask_bit IBV_QP_PATH_MIG_STATE = 18"
| "ibv_qp_attr_mask_bit IBV_QP_CAP_flag = 19"
| "ibv_qp_attr_mask_bit IBV_QP_DEST_QPN = 20"
| "ibv_qp_attr_mask_bit IBV_QP_RATE_LIMIT = 25"

datatype ibv_send_flags =
    IBV_SEND_FENCE | IBV_SEND_SIGNALED_flag | IBV_SEND_SOLICITED | IBV_SEND_INLINE_flag |
    IBV_SEND_IP_CSUM

fun ibv_send_flags_bit :: "ibv_send_flags \<Rightarrow> nat" where
  "ibv_send_flags_bit IBV_SEND_FENCE = 0"
| "ibv_send_flags_bit IBV_SEND_SIGNALED_flag = 1"
| "ibv_send_flags_bit IBV_SEND_SOLICITED = 2"
| "ibv_send_flags_bit IBV_SEND_INLINE_flag = 3"
| "ibv_send_flags_bit IBV_SEND_IP_CSUM = 4"

datatype ibv_ops_flags =
    IBV_OPS_SIGNALED | IBV_OPS_TM_SYNC

fun ibv_ops_flags_bit :: "ibv_ops_flags \<Rightarrow> nat" where
  "ibv_ops_flags_bit IBV_OPS_SIGNALED = 0"
| "ibv_ops_flags_bit IBV_OPS_TM_SYNC = 1"

datatype ibv_cq_attr_mask =
    IBV_CQ_ATTR_MODERATE | IBV_CQ_ATTR_RESERVED

fun ibv_cq_attr_mask_bit :: "ibv_cq_attr_mask \<Rightarrow> nat" where
  "ibv_cq_attr_mask_bit IBV_CQ_ATTR_MODERATE = 0"
| "ibv_cq_attr_mask_bit IBV_CQ_ATTR_RESERVED = 1"

datatype ibv_flow_flags =
    IBV_FLOW_ATTR_FLAGS_ALLOW_LOOP_BACK | IBV_FLOW_ATTR_FLAGS_DONT_TRAP

fun ibv_flow_flags_bit :: "ibv_flow_flags \<Rightarrow> nat" where
  "ibv_flow_flags_bit IBV_FLOW_ATTR_FLAGS_ALLOW_LOOP_BACK = 0"
| "ibv_flow_flags_bit IBV_FLOW_ATTR_FLAGS_DONT_TRAP = 1"

datatype ibv_cq_init_attr_mask =
    IBV_CQ_INIT_ATTR_MASK_FLAGS | IBV_CQ_INIT_ATTR_MASK_RESERVED

fun ibv_cq_init_attr_mask_bit :: "ibv_cq_init_attr_mask \<Rightarrow> nat" where
  "ibv_cq_init_attr_mask_bit IBV_CQ_INIT_ATTR_MASK_FLAGS = 0"
| "ibv_cq_init_attr_mask_bit IBV_CQ_INIT_ATTR_MASK_RESERVED = 1"

datatype ibv_create_cq_attr_flags =
    IBV_CREATE_CQ_ATTR_SINGLE_THREADED | IBV_CREATE_CQ_ATTR_RESERVED

fun ibv_create_cq_attr_flags_bit :: "ibv_create_cq_attr_flags \<Rightarrow> nat" where
  "ibv_create_cq_attr_flags_bit IBV_CREATE_CQ_ATTR_SINGLE_THREADED = 0"
| "ibv_create_cq_attr_flags_bit IBV_CREATE_CQ_ATTR_RESERVED = 1"

datatype ibv_values_mask =
    IBV_VALUES_MASK_RAW_CLOCK | IBV_VALUES_MASK_RESERVED

fun ibv_values_mask_bit :: "ibv_values_mask \<Rightarrow> nat" where
  "ibv_values_mask_bit IBV_VALUES_MASK_RAW_CLOCK = 0"
| "ibv_values_mask_bit IBV_VALUES_MASK_RESERVED = 1"

text \<open>Masks and flags the header computes from others, and the two device capabilities that do not fit
  their enumeration.\<close>

definition IBV_WC_STANDARD_FLAGS :: u32 where
  "IBV_WC_STANDARD_FLAGS = flag_mask ibv_create_cq_wc_flags_bit
     [IBV_WC_EX_WITH_BYTE_LEN, IBV_WC_EX_WITH_IMM, IBV_WC_EX_WITH_QP_NUM, IBV_WC_EX_WITH_SRC_QP,
      IBV_WC_EX_WITH_SLID, IBV_WC_EX_WITH_SL, IBV_WC_EX_WITH_DLID_PATH_BITS]"

definition IBV_CREATE_CQ_SUP_WC_FLAGS :: u32 where
  "IBV_CREATE_CQ_SUP_WC_FLAGS = IBV_WC_STANDARD_FLAGS OR flag_mask ibv_create_cq_wc_flags_bit
     [IBV_WC_EX_WITH_COMPLETION_TIMESTAMP, IBV_WC_EX_WITH_CVLAN, IBV_WC_EX_WITH_FLOW_TAG,
      IBV_WC_EX_WITH_TM_INFO, IBV_WC_EX_WITH_COMPLETION_TIMESTAMP_WALLCLOCK]"

definition IBV_REREG_MR_FLAGS_SUPPORTED :: u32 where
  "IBV_REREG_MR_FLAGS_SUPPORTED =
     push_bit 1 (push_bit (ibv_rereg_mr_flags_bit IBV_REREG_MR_KEEP_VALID) 1) - 1"

definition IBV_DEVICE_RAW_SCATTER_FCS :: u64 where "IBV_DEVICE_RAW_SCATTER_FCS = push_bit 34 1"

definition IBV_DEVICE_PCI_WRITE_END_PADDING :: u64 where
  "IBV_DEVICE_PCI_WRITE_END_PADDING = push_bit 36 1"

section \<open>Plain enumerations\<close>

datatype ibv_node_type =
    IBV_NODE_UNKNOWN | IBV_NODE_CA | IBV_NODE_SWITCH | IBV_NODE_ROUTER | IBV_NODE_RNIC |
    IBV_NODE_USNIC | IBV_NODE_USNIC_UDP

fun ibv_node_type_value :: "ibv_node_type \<Rightarrow> int" where
  "ibv_node_type_value IBV_NODE_UNKNOWN = - 1"
| "ibv_node_type_value IBV_NODE_CA = 1"
| "ibv_node_type_value IBV_NODE_SWITCH = 2"
| "ibv_node_type_value IBV_NODE_ROUTER = 3"
| "ibv_node_type_value IBV_NODE_RNIC = 4"
| "ibv_node_type_value IBV_NODE_USNIC = 5"
| "ibv_node_type_value IBV_NODE_USNIC_UDP = 6"

datatype ibv_transport_type =
    IBV_TRANSPORT_UNKNOWN | IBV_TRANSPORT_IB | IBV_TRANSPORT_IWARP | IBV_TRANSPORT_USNIC |
    IBV_TRANSPORT_USNIC_UDP

fun ibv_transport_type_value :: "ibv_transport_type \<Rightarrow> int" where
  "ibv_transport_type_value IBV_TRANSPORT_UNKNOWN = - 1"
| "ibv_transport_type_value IBV_TRANSPORT_IB = 0"
| "ibv_transport_type_value IBV_TRANSPORT_IWARP = 1"
| "ibv_transport_type_value IBV_TRANSPORT_USNIC = 2"
| "ibv_transport_type_value IBV_TRANSPORT_USNIC_UDP = 3"

datatype ibv_atomic_cap =
    IBV_ATOMIC_NONE | IBV_ATOMIC_HCA | IBV_ATOMIC_GLOB

fun ibv_atomic_cap_value :: "ibv_atomic_cap \<Rightarrow> int" where
  "ibv_atomic_cap_value IBV_ATOMIC_NONE = 0"
| "ibv_atomic_cap_value IBV_ATOMIC_HCA = 1"
| "ibv_atomic_cap_value IBV_ATOMIC_GLOB = 2"

datatype ibv_event_type =
    IBV_EVENT_CQ_ERR | IBV_EVENT_QP_FATAL | IBV_EVENT_QP_REQ_ERR | IBV_EVENT_QP_ACCESS_ERR |
    IBV_EVENT_COMM_EST | IBV_EVENT_SQ_DRAINED | IBV_EVENT_PATH_MIG | IBV_EVENT_PATH_MIG_ERR |
    IBV_EVENT_DEVICE_FATAL | IBV_EVENT_PORT_ACTIVE | IBV_EVENT_PORT_ERR | IBV_EVENT_LID_CHANGE |
    IBV_EVENT_PKEY_CHANGE | IBV_EVENT_SM_CHANGE | IBV_EVENT_SRQ_ERR |
    IBV_EVENT_SRQ_LIMIT_REACHED | IBV_EVENT_QP_LAST_WQE_REACHED | IBV_EVENT_CLIENT_REREGISTER |
    IBV_EVENT_GID_CHANGE | IBV_EVENT_WQ_FATAL

fun ibv_event_type_value :: "ibv_event_type \<Rightarrow> int" where
  "ibv_event_type_value IBV_EVENT_CQ_ERR = 0"
| "ibv_event_type_value IBV_EVENT_QP_FATAL = 1"
| "ibv_event_type_value IBV_EVENT_QP_REQ_ERR = 2"
| "ibv_event_type_value IBV_EVENT_QP_ACCESS_ERR = 3"
| "ibv_event_type_value IBV_EVENT_COMM_EST = 4"
| "ibv_event_type_value IBV_EVENT_SQ_DRAINED = 5"
| "ibv_event_type_value IBV_EVENT_PATH_MIG = 6"
| "ibv_event_type_value IBV_EVENT_PATH_MIG_ERR = 7"
| "ibv_event_type_value IBV_EVENT_DEVICE_FATAL = 8"
| "ibv_event_type_value IBV_EVENT_PORT_ACTIVE = 9"
| "ibv_event_type_value IBV_EVENT_PORT_ERR = 10"
| "ibv_event_type_value IBV_EVENT_LID_CHANGE = 11"
| "ibv_event_type_value IBV_EVENT_PKEY_CHANGE = 12"
| "ibv_event_type_value IBV_EVENT_SM_CHANGE = 13"
| "ibv_event_type_value IBV_EVENT_SRQ_ERR = 14"
| "ibv_event_type_value IBV_EVENT_SRQ_LIMIT_REACHED = 15"
| "ibv_event_type_value IBV_EVENT_QP_LAST_WQE_REACHED = 16"
| "ibv_event_type_value IBV_EVENT_CLIENT_REREGISTER = 17"
| "ibv_event_type_value IBV_EVENT_GID_CHANGE = 18"
| "ibv_event_type_value IBV_EVENT_WQ_FATAL = 19"

datatype ibv_mw_type =
    IBV_MW_TYPE_1_type | IBV_MW_TYPE_2

fun ibv_mw_type_value :: "ibv_mw_type \<Rightarrow> int" where
  "ibv_mw_type_value IBV_MW_TYPE_1_type = 1"
| "ibv_mw_type_value IBV_MW_TYPE_2 = 2"

datatype ibv_rate =
    IBV_RATE_MAX | IBV_RATE_2_5_GBPS | IBV_RATE_5_GBPS | IBV_RATE_10_GBPS | IBV_RATE_20_GBPS |
    IBV_RATE_30_GBPS | IBV_RATE_40_GBPS | IBV_RATE_60_GBPS | IBV_RATE_80_GBPS |
    IBV_RATE_120_GBPS | IBV_RATE_14_GBPS | IBV_RATE_56_GBPS | IBV_RATE_112_GBPS |
    IBV_RATE_168_GBPS | IBV_RATE_25_GBPS | IBV_RATE_100_GBPS | IBV_RATE_200_GBPS |
    IBV_RATE_300_GBPS

fun ibv_rate_value :: "ibv_rate \<Rightarrow> int" where
  "ibv_rate_value IBV_RATE_MAX = 0"
| "ibv_rate_value IBV_RATE_2_5_GBPS = 2"
| "ibv_rate_value IBV_RATE_5_GBPS = 5"
| "ibv_rate_value IBV_RATE_10_GBPS = 3"
| "ibv_rate_value IBV_RATE_20_GBPS = 6"
| "ibv_rate_value IBV_RATE_30_GBPS = 4"
| "ibv_rate_value IBV_RATE_40_GBPS = 7"
| "ibv_rate_value IBV_RATE_60_GBPS = 8"
| "ibv_rate_value IBV_RATE_80_GBPS = 9"
| "ibv_rate_value IBV_RATE_120_GBPS = 10"
| "ibv_rate_value IBV_RATE_14_GBPS = 11"
| "ibv_rate_value IBV_RATE_56_GBPS = 12"
| "ibv_rate_value IBV_RATE_112_GBPS = 13"
| "ibv_rate_value IBV_RATE_168_GBPS = 14"
| "ibv_rate_value IBV_RATE_25_GBPS = 15"
| "ibv_rate_value IBV_RATE_100_GBPS = 16"
| "ibv_rate_value IBV_RATE_200_GBPS = 17"
| "ibv_rate_value IBV_RATE_300_GBPS = 18"

datatype ibv_srq_type =
    IBV_SRQT_BASIC_type | IBV_SRQT_XRC | IBV_SRQT_TM

fun ibv_srq_type_value :: "ibv_srq_type \<Rightarrow> int" where
  "ibv_srq_type_value IBV_SRQT_BASIC_type = 0"
| "ibv_srq_type_value IBV_SRQT_XRC = 1"
| "ibv_srq_type_value IBV_SRQT_TM = 2"

datatype ibv_wq_type =
    IBV_WQT_RQ

fun ibv_wq_type_value :: "ibv_wq_type \<Rightarrow> int" where
  "ibv_wq_type_value IBV_WQT_RQ = 0"

datatype ibv_wq_state =
    IBV_WQS_RESET | IBV_WQS_RDY | IBV_WQS_ERR | IBV_WQS_UNKNOWN

fun ibv_wq_state_value :: "ibv_wq_state \<Rightarrow> int" where
  "ibv_wq_state_value IBV_WQS_RESET = 0"
| "ibv_wq_state_value IBV_WQS_RDY = 1"
| "ibv_wq_state_value IBV_WQS_ERR = 2"
| "ibv_wq_state_value IBV_WQS_UNKNOWN = 3"

datatype ibv_ops_wr_opcode =
    IBV_WR_TAG_ADD | IBV_WR_TAG_DEL | IBV_WR_TAG_SYNC

fun ibv_ops_wr_opcode_value :: "ibv_ops_wr_opcode \<Rightarrow> int" where
  "ibv_ops_wr_opcode_value IBV_WR_TAG_ADD = 0"
| "ibv_ops_wr_opcode_value IBV_WR_TAG_DEL = 1"
| "ibv_ops_wr_opcode_value IBV_WR_TAG_SYNC = 2"

datatype ibv_flow_attr_type =
    IBV_FLOW_ATTR_NORMAL | IBV_FLOW_ATTR_ALL_DEFAULT | IBV_FLOW_ATTR_MC_DEFAULT |
    IBV_FLOW_ATTR_SNIFFER

fun ibv_flow_attr_type_value :: "ibv_flow_attr_type \<Rightarrow> int" where
  "ibv_flow_attr_type_value IBV_FLOW_ATTR_NORMAL = 0x0"
| "ibv_flow_attr_type_value IBV_FLOW_ATTR_ALL_DEFAULT = 0x1"
| "ibv_flow_attr_type_value IBV_FLOW_ATTR_MC_DEFAULT = 0x2"
| "ibv_flow_attr_type_value IBV_FLOW_ATTR_SNIFFER = 0x3"

datatype ibv_flow_spec_type =
    IBV_FLOW_SPEC_ETH | IBV_FLOW_SPEC_IPV4 | IBV_FLOW_SPEC_IPV6 | IBV_FLOW_SPEC_IPV4_EXT |
    IBV_FLOW_SPEC_TCP | IBV_FLOW_SPEC_UDP | IBV_FLOW_SPEC_VXLAN_TUNNEL | IBV_FLOW_SPEC_INNER |
    IBV_FLOW_SPEC_ACTION_TAG | IBV_FLOW_SPEC_ACTION_DROP

fun ibv_flow_spec_type_value :: "ibv_flow_spec_type \<Rightarrow> int" where
  "ibv_flow_spec_type_value IBV_FLOW_SPEC_ETH = 0x20"
| "ibv_flow_spec_type_value IBV_FLOW_SPEC_IPV4 = 0x30"
| "ibv_flow_spec_type_value IBV_FLOW_SPEC_IPV6 = 0x31"
| "ibv_flow_spec_type_value IBV_FLOW_SPEC_IPV4_EXT = 0x32"
| "ibv_flow_spec_type_value IBV_FLOW_SPEC_TCP = 0x40"
| "ibv_flow_spec_type_value IBV_FLOW_SPEC_UDP = 0x41"
| "ibv_flow_spec_type_value IBV_FLOW_SPEC_VXLAN_TUNNEL = 0x50"
| "ibv_flow_spec_type_value IBV_FLOW_SPEC_INNER = 0x100"
| "ibv_flow_spec_type_value IBV_FLOW_SPEC_ACTION_TAG = 0x1000"
| "ibv_flow_spec_type_value IBV_FLOW_SPEC_ACTION_DROP = 0x1001"

datatype ibv_rereg_mr_err_code =
    IBV_REREG_MR_ERR_INPUT | IBV_REREG_MR_ERR_DONT_FORK_NEW | IBV_REREG_MR_ERR_DO_FORK_OLD |
    IBV_REREG_MR_ERR_CMD | IBV_REREG_MR_ERR_CMD_AND_DO_FORK_NEW

fun ibv_rereg_mr_err_code_value :: "ibv_rereg_mr_err_code \<Rightarrow> int" where
  "ibv_rereg_mr_err_code_value IBV_REREG_MR_ERR_INPUT = - 1"
| "ibv_rereg_mr_err_code_value IBV_REREG_MR_ERR_DONT_FORK_NEW = - 2"
| "ibv_rereg_mr_err_code_value IBV_REREG_MR_ERR_DO_FORK_OLD = - 3"
| "ibv_rereg_mr_err_code_value IBV_REREG_MR_ERR_CMD = - 4"
| "ibv_rereg_mr_err_code_value IBV_REREG_MR_ERR_CMD_AND_DO_FORK_NEW = - 5"

section \<open>The contracts hold\<close>

lemma c_enumI: "(\<And>f. f \<in> set fs) \<Longrightarrow> distinct (map g fs) \<Longrightarrow> c_enum g"
  unfolding c_enum_def by (rule inj_by_list)

lemma flag_enumI:
  "(\<And>f. f \<in> set fs) \<Longrightarrow> distinct (map g fs) \<Longrightarrow> list_all (\<lambda>f. g f < 32) fs \<Longrightarrow> flag_enum g"
  unfolding flag_enum_def list_all_iff using inj_by_list [of fs g] by blast

interpretation device_cap_flags: flag_enum ibv_device_cap_flags_bit
  by (rule flag_enumI [of "[IBV_DEVICE_RESIZE_MAX_WR, IBV_DEVICE_BAD_PKEY_CNTR, IBV_DEVICE_BAD_QKEY_CNTR,
      IBV_DEVICE_RAW_MULTI, IBV_DEVICE_AUTO_PATH_MIG, IBV_DEVICE_CHANGE_PHY_PORT,
      IBV_DEVICE_UD_AV_PORT_ENFORCE, IBV_DEVICE_CURR_QP_STATE_MOD, IBV_DEVICE_SHUTDOWN_PORT,
      IBV_DEVICE_INIT_TYPE, IBV_DEVICE_PORT_ACTIVE_EVENT, IBV_DEVICE_SYS_IMAGE_GUID,
      IBV_DEVICE_RC_RNR_NAK_GEN, IBV_DEVICE_SRQ_RESIZE, IBV_DEVICE_N_NOTIFY_CQ,
      IBV_DEVICE_MEM_WINDOW, IBV_DEVICE_UD_IP_CSUM, IBV_DEVICE_XRC,
      IBV_DEVICE_MEM_MGT_EXTENSIONS, IBV_DEVICE_MEM_WINDOW_TYPE_2A,
      IBV_DEVICE_MEM_WINDOW_TYPE_2B, IBV_DEVICE_RC_IP_CSUM, IBV_DEVICE_RAW_IP_CSUM,
      IBV_DEVICE_MANAGED_FLOW_STEERING]"],
      case_tac f, simp_all)

interpretation odp_transport_cap_bits: flag_enum ibv_odp_transport_cap_bits_bit
  by (rule flag_enumI [of "[IBV_ODP_SUPPORT_SEND, IBV_ODP_SUPPORT_RECV, IBV_ODP_SUPPORT_WRITE, IBV_ODP_SUPPORT_READ,
      IBV_ODP_SUPPORT_ATOMIC]"],
      case_tac f, simp_all)

interpretation odp_general_caps: flag_enum ibv_odp_general_caps_bit
  by (rule flag_enumI [of "[IBV_ODP_SUPPORT]"],
      case_tac f, simp_all)

interpretation rx_hash_function_flags: flag_enum ibv_rx_hash_function_flags_bit
  by (rule flag_enumI [of "[IBV_RX_HASH_FUNC_TOEPLITZ]"],
      case_tac f, simp_all)

interpretation rx_hash_fields: flag_enum ibv_rx_hash_fields_bit
  by (rule flag_enumI [of "[IBV_RX_HASH_SRC_IPV4, IBV_RX_HASH_DST_IPV4, IBV_RX_HASH_SRC_IPV6, IBV_RX_HASH_DST_IPV6,
      IBV_RX_HASH_SRC_PORT_TCP, IBV_RX_HASH_DST_PORT_TCP, IBV_RX_HASH_SRC_PORT_UDP,
      IBV_RX_HASH_DST_PORT_UDP, IBV_RX_HASH_INNER]"],
      case_tac f, simp_all)

interpretation raw_packet_caps: flag_enum ibv_raw_packet_caps_bit
  by (rule flag_enumI [of "[IBV_RAW_PACKET_CAP_CVLAN_STRIPPING, IBV_RAW_PACKET_CAP_SCATTER_FCS,
      IBV_RAW_PACKET_CAP_IP_CSUM, IBV_RAW_PACKET_CAP_DELAY_DROP]"],
      case_tac f, simp_all)

interpretation tm_cap_flags: flag_enum ibv_tm_cap_flags_bit
  by (rule flag_enumI [of "[IBV_TM_CAP_RC]"],
      case_tac f, simp_all)

interpretation port_cap_flags: flag_enum ibv_port_cap_flags_bit
  by (rule flag_enumI [of "[IBV_PORT_SM, IBV_PORT_NOTICE_SUP, IBV_PORT_TRAP_SUP, IBV_PORT_OPT_IPD_SUP,
      IBV_PORT_AUTO_MIGR_SUP, IBV_PORT_SL_MAP_SUP, IBV_PORT_MKEY_NVRAM, IBV_PORT_PKEY_NVRAM,
      IBV_PORT_LED_INFO_SUP, IBV_PORT_SYS_IMAGE_GUID_SUP, IBV_PORT_PKEY_SW_EXT_PORT_TRAP_SUP,
      IBV_PORT_EXTENDED_SPEEDS_SUP, IBV_PORT_CM_SUP, IBV_PORT_SNMP_TUNNEL_SUP,
      IBV_PORT_REINIT_SUP, IBV_PORT_DEVICE_MGMT_SUP, IBV_PORT_VENDOR_CLASS_SUP,
      IBV_PORT_DR_NOTICE_SUP, IBV_PORT_CAP_MASK_NOTICE_SUP, IBV_PORT_BOOT_MGMT_SUP,
      IBV_PORT_LINK_LATENCY_SUP, IBV_PORT_CLIENT_REG_SUP, IBV_PORT_IP_BASED_GIDS]"],
      case_tac f, simp_all)

interpretation create_cq_wc_flags: flag_enum ibv_create_cq_wc_flags_bit
  by (rule flag_enumI [of "[IBV_WC_EX_WITH_BYTE_LEN, IBV_WC_EX_WITH_IMM, IBV_WC_EX_WITH_QP_NUM, IBV_WC_EX_WITH_SRC_QP,
      IBV_WC_EX_WITH_SLID, IBV_WC_EX_WITH_SL, IBV_WC_EX_WITH_DLID_PATH_BITS,
      IBV_WC_EX_WITH_COMPLETION_TIMESTAMP, IBV_WC_EX_WITH_CVLAN, IBV_WC_EX_WITH_FLOW_TAG,
      IBV_WC_EX_WITH_TM_INFO, IBV_WC_EX_WITH_COMPLETION_TIMESTAMP_WALLCLOCK]"],
      case_tac f, simp_all)

interpretation wc_flags: flag_enum ibv_wc_flags_bit
  by (rule flag_enumI [of "[IBV_WC_GRH, IBV_WC_WITH_IMM, IBV_WC_IP_CSUM_OK, IBV_WC_WITH_INV, IBV_WC_TM_SYNC_REQ,
      IBV_WC_TM_MATCH, IBV_WC_TM_DATA_VALID]"],
      case_tac f, simp_all add: IBV_WC_IP_CSUM_OK_SHIFT_def)

interpretation access_flags: flag_enum ibv_access_flags_bit
  by (rule flag_enumI [of "[IBV_ACCESS_LOCAL_WRITE_flag, IBV_ACCESS_REMOTE_WRITE, IBV_ACCESS_REMOTE_READ,
      IBV_ACCESS_REMOTE_ATOMIC, IBV_ACCESS_MW_BIND, IBV_ACCESS_ZERO_BASED, IBV_ACCESS_ON_DEMAND]"],
      case_tac f, simp_all)

interpretation xrcd_init_attr_mask: flag_enum ibv_xrcd_init_attr_mask_bit
  by (rule flag_enumI [of "[IBV_XRCD_INIT_ATTR_FD, IBV_XRCD_INIT_ATTR_OFLAGS, IBV_XRCD_INIT_ATTR_RESERVED]"],
      case_tac f, simp_all)

interpretation rereg_mr_flags: flag_enum ibv_rereg_mr_flags_bit
  by (rule flag_enumI [of "[IBV_REREG_MR_CHANGE_TRANSLATION, IBV_REREG_MR_CHANGE_PD, IBV_REREG_MR_CHANGE_ACCESS,
      IBV_REREG_MR_KEEP_VALID]"],
      case_tac f, simp_all)

interpretation srq_attr_mask: flag_enum ibv_srq_attr_mask_bit
  by (rule flag_enumI [of "[IBV_SRQ_MAX_WR, IBV_SRQ_LIMIT]"],
      case_tac f, simp_all)

interpretation srq_init_attr_mask: flag_enum ibv_srq_init_attr_mask_bit
  by (rule flag_enumI [of "[IBV_SRQ_INIT_ATTR_TYPE_flag, IBV_SRQ_INIT_ATTR_PD_flag, IBV_SRQ_INIT_ATTR_XRCD,
      IBV_SRQ_INIT_ATTR_CQ, IBV_SRQ_INIT_ATTR_TM, IBV_SRQ_INIT_ATTR_RESERVED]"],
      case_tac f, simp_all)

interpretation wq_init_attr_mask: flag_enum ibv_wq_init_attr_mask_bit
  by (rule flag_enumI [of "[IBV_WQ_INIT_ATTR_FLAGS, IBV_WQ_INIT_ATTR_RESERVED]"],
      case_tac f, simp_all)

interpretation wq_flags: flag_enum ibv_wq_flags_bit
  by (rule flag_enumI [of "[IBV_WQ_FLAGS_CVLAN_STRIPPING, IBV_WQ_FLAGS_SCATTER_FCS, IBV_WQ_FLAGS_DELAY_DROP,
      IBV_WQ_FLAGS_PCI_WRITE_END_PADDING, IBV_WQ_FLAGS_RESERVED]"],
      case_tac f, simp_all)

interpretation wq_attr_mask: flag_enum ibv_wq_attr_mask_bit
  by (rule flag_enumI [of "[IBV_WQ_ATTR_STATE, IBV_WQ_ATTR_CURR_STATE, IBV_WQ_ATTR_FLAGS, IBV_WQ_ATTR_RESERVED]"],
      case_tac f, simp_all)

interpretation ind_table_init_attr_mask: flag_enum ibv_ind_table_init_attr_mask_bit
  by (rule flag_enumI [of "[IBV_CREATE_IND_TABLE_RESERVED]"],
      case_tac f, simp_all)

interpretation qp_init_attr_mask: flag_enum ibv_qp_init_attr_mask_bit
  by (rule flag_enumI [of "[IBV_QP_INIT_ATTR_PD_flag, IBV_QP_INIT_ATTR_XRCD, IBV_QP_INIT_ATTR_CREATE_FLAGS,
      IBV_QP_INIT_ATTR_MAX_TSO_HEADER, IBV_QP_INIT_ATTR_IND_TABLE, IBV_QP_INIT_ATTR_RX_HASH,
      IBV_QP_INIT_ATTR_RESERVED]"],
      case_tac f, simp_all)

interpretation qp_create_flags: flag_enum ibv_qp_create_flags_bit
  by (rule flag_enumI [of "[IBV_QP_CREATE_BLOCK_SELF_MCAST_LB, IBV_QP_CREATE_SCATTER_FCS,
      IBV_QP_CREATE_CVLAN_STRIPPING, IBV_QP_CREATE_SOURCE_QPN, IBV_QP_CREATE_PCI_WRITE_END_PADDING]"],
      case_tac f, simp_all)

interpretation qp_open_attr_mask: flag_enum ibv_qp_open_attr_mask_bit
  by (rule flag_enumI [of "[IBV_QP_OPEN_ATTR_NUM, IBV_QP_OPEN_ATTR_XRCD, IBV_QP_OPEN_ATTR_CONTEXT,
      IBV_QP_OPEN_ATTR_TYPE, IBV_QP_OPEN_ATTR_RESERVED]"],
      case_tac f, simp_all)

interpretation qp_attr_mask: flag_enum ibv_qp_attr_mask_bit
  by (rule flag_enumI [of "[IBV_QP_STATE_flag, IBV_QP_CUR_STATE, IBV_QP_EN_SQD_ASYNC_NOTIFY, IBV_QP_ACCESS_FLAGS,
      IBV_QP_PKEY_INDEX_flag, IBV_QP_PORT_flag, IBV_QP_QKEY_flag, IBV_QP_AV, IBV_QP_PATH_MTU,
      IBV_QP_TIMEOUT, IBV_QP_RETRY_CNT, IBV_QP_RNR_RETRY, IBV_QP_RQ_PSN, IBV_QP_MAX_QP_RD_ATOMIC,
      IBV_QP_ALT_PATH, IBV_QP_MIN_RNR_TIMER, IBV_QP_SQ_PSN_flag, IBV_QP_MAX_DEST_RD_ATOMIC,
      IBV_QP_PATH_MIG_STATE, IBV_QP_CAP_flag, IBV_QP_DEST_QPN, IBV_QP_RATE_LIMIT]"],
      case_tac f, simp_all)

interpretation send_flags: flag_enum ibv_send_flags_bit
  by (rule flag_enumI [of "[IBV_SEND_FENCE, IBV_SEND_SIGNALED_flag, IBV_SEND_SOLICITED, IBV_SEND_INLINE_flag,
      IBV_SEND_IP_CSUM]"],
      case_tac f, simp_all)

interpretation ops_flags: flag_enum ibv_ops_flags_bit
  by (rule flag_enumI [of "[IBV_OPS_SIGNALED, IBV_OPS_TM_SYNC]"],
      case_tac f, simp_all)

interpretation cq_attr_mask: flag_enum ibv_cq_attr_mask_bit
  by (rule flag_enumI [of "[IBV_CQ_ATTR_MODERATE, IBV_CQ_ATTR_RESERVED]"],
      case_tac f, simp_all)

interpretation flow_flags: flag_enum ibv_flow_flags_bit
  by (rule flag_enumI [of "[IBV_FLOW_ATTR_FLAGS_ALLOW_LOOP_BACK, IBV_FLOW_ATTR_FLAGS_DONT_TRAP]"],
      case_tac f, simp_all)

interpretation cq_init_attr_mask: flag_enum ibv_cq_init_attr_mask_bit
  by (rule flag_enumI [of "[IBV_CQ_INIT_ATTR_MASK_FLAGS, IBV_CQ_INIT_ATTR_MASK_RESERVED]"],
      case_tac f, simp_all)

interpretation create_cq_attr_flags: flag_enum ibv_create_cq_attr_flags_bit
  by (rule flag_enumI [of "[IBV_CREATE_CQ_ATTR_SINGLE_THREADED, IBV_CREATE_CQ_ATTR_RESERVED]"],
      case_tac f, simp_all)

interpretation values_mask: flag_enum ibv_values_mask_bit
  by (rule flag_enumI [of "[IBV_VALUES_MASK_RAW_CLOCK, IBV_VALUES_MASK_RESERVED]"],
      case_tac f, simp_all)

interpretation node_type: c_enum ibv_node_type_value
  by (rule c_enumI [of "[IBV_NODE_UNKNOWN, IBV_NODE_CA, IBV_NODE_SWITCH, IBV_NODE_ROUTER, IBV_NODE_RNIC,
      IBV_NODE_USNIC, IBV_NODE_USNIC_UDP]"],
      case_tac f, simp_all)

interpretation transport_type: c_enum ibv_transport_type_value
  by (rule c_enumI [of "[IBV_TRANSPORT_UNKNOWN, IBV_TRANSPORT_IB, IBV_TRANSPORT_IWARP, IBV_TRANSPORT_USNIC,
      IBV_TRANSPORT_USNIC_UDP]"],
      case_tac f, simp_all)

interpretation atomic_cap: c_enum ibv_atomic_cap_value
  by (rule c_enumI [of "[IBV_ATOMIC_NONE, IBV_ATOMIC_HCA, IBV_ATOMIC_GLOB]"],
      case_tac f, simp_all)

interpretation event_type: c_enum ibv_event_type_value
  by (rule c_enumI [of "[IBV_EVENT_CQ_ERR, IBV_EVENT_QP_FATAL, IBV_EVENT_QP_REQ_ERR, IBV_EVENT_QP_ACCESS_ERR,
      IBV_EVENT_COMM_EST, IBV_EVENT_SQ_DRAINED, IBV_EVENT_PATH_MIG, IBV_EVENT_PATH_MIG_ERR,
      IBV_EVENT_DEVICE_FATAL, IBV_EVENT_PORT_ACTIVE, IBV_EVENT_PORT_ERR, IBV_EVENT_LID_CHANGE,
      IBV_EVENT_PKEY_CHANGE, IBV_EVENT_SM_CHANGE, IBV_EVENT_SRQ_ERR, IBV_EVENT_SRQ_LIMIT_REACHED,
      IBV_EVENT_QP_LAST_WQE_REACHED, IBV_EVENT_CLIENT_REREGISTER, IBV_EVENT_GID_CHANGE,
      IBV_EVENT_WQ_FATAL]"],
      case_tac f, simp_all)

interpretation mw_type: c_enum ibv_mw_type_value
  by (rule c_enumI [of "[IBV_MW_TYPE_1_type, IBV_MW_TYPE_2]"],
      case_tac f, simp_all)

interpretation rate: c_enum ibv_rate_value
  by (rule c_enumI [of "[IBV_RATE_MAX, IBV_RATE_2_5_GBPS, IBV_RATE_5_GBPS, IBV_RATE_10_GBPS, IBV_RATE_20_GBPS,
      IBV_RATE_30_GBPS, IBV_RATE_40_GBPS, IBV_RATE_60_GBPS, IBV_RATE_80_GBPS, IBV_RATE_120_GBPS,
      IBV_RATE_14_GBPS, IBV_RATE_56_GBPS, IBV_RATE_112_GBPS, IBV_RATE_168_GBPS, IBV_RATE_25_GBPS,
      IBV_RATE_100_GBPS, IBV_RATE_200_GBPS, IBV_RATE_300_GBPS]"],
      case_tac f, simp_all)

interpretation srq_type: c_enum ibv_srq_type_value
  by (rule c_enumI [of "[IBV_SRQT_BASIC_type, IBV_SRQT_XRC, IBV_SRQT_TM]"],
      case_tac f, simp_all)

interpretation wq_type: c_enum ibv_wq_type_value
  by (rule c_enumI [of "[IBV_WQT_RQ]"],
      case_tac f, simp_all)

interpretation wq_state: c_enum ibv_wq_state_value
  by (rule c_enumI [of "[IBV_WQS_RESET, IBV_WQS_RDY, IBV_WQS_ERR, IBV_WQS_UNKNOWN]"],
      case_tac f, simp_all)

interpretation ops_wr_opcode: c_enum ibv_ops_wr_opcode_value
  by (rule c_enumI [of "[IBV_WR_TAG_ADD, IBV_WR_TAG_DEL, IBV_WR_TAG_SYNC]"],
      case_tac f, simp_all)

interpretation flow_attr_type: c_enum ibv_flow_attr_type_value
  by (rule c_enumI [of "[IBV_FLOW_ATTR_NORMAL, IBV_FLOW_ATTR_ALL_DEFAULT, IBV_FLOW_ATTR_MC_DEFAULT,
      IBV_FLOW_ATTR_SNIFFER]"],
      case_tac f, simp_all)

interpretation flow_spec_type: c_enum ibv_flow_spec_type_value
  by (rule c_enumI [of "[IBV_FLOW_SPEC_ETH, IBV_FLOW_SPEC_IPV4, IBV_FLOW_SPEC_IPV6, IBV_FLOW_SPEC_IPV4_EXT,
      IBV_FLOW_SPEC_TCP, IBV_FLOW_SPEC_UDP, IBV_FLOW_SPEC_VXLAN_TUNNEL, IBV_FLOW_SPEC_INNER,
      IBV_FLOW_SPEC_ACTION_TAG, IBV_FLOW_SPEC_ACTION_DROP]"],
      case_tac f, simp_all)

interpretation rereg_mr_err_code: c_enum ibv_rereg_mr_err_code_value
  by (rule c_enumI [of "[IBV_REREG_MR_ERR_INPUT, IBV_REREG_MR_ERR_DONT_FORK_NEW, IBV_REREG_MR_ERR_DO_FORK_OLD,
      IBV_REREG_MR_ERR_CMD, IBV_REREG_MR_ERR_CMD_AND_DO_FORK_NEW]"],
      case_tac f, simp_all)

section \<open>Properties\<close>

lemma flag_mask_simps:
  "flag_mask b [] = 0" "flag_mask b (f # fs) = push_bit (b f) 1 OR flag_mask b fs"
  by (simp_all add: flag_mask_def)

text \<open>C27: in each of the thirty flag enumerations of the header a mask tells which flags it was made of.
  The masks the RDMA programs give as words are those of the flags they name. The two masks of completion
  fields are the flags up to the path bits and all flags; the supported re-registration flags are all
  flags of their enumeration. Only the inner-header flag of the hash fields needs the sign bit of an
  \<^verbatim>\<open>int\<close>, and the two capabilities defined apart cannot be seen in the 32-bit capability word.\<close>

theorem flags_told_apart:
  "tells_flags ibv_device_cap_flags_bit \<and>
   tells_flags ibv_odp_transport_cap_bits_bit \<and>
   tells_flags ibv_odp_general_caps_bit \<and>
   tells_flags ibv_rx_hash_function_flags_bit \<and>
   tells_flags ibv_rx_hash_fields_bit \<and>
   tells_flags ibv_raw_packet_caps_bit \<and>
   tells_flags ibv_tm_cap_flags_bit \<and>
   tells_flags ibv_port_cap_flags_bit \<and>
   tells_flags ibv_create_cq_wc_flags_bit \<and>
   tells_flags ibv_wc_flags_bit \<and>
   tells_flags ibv_access_flags_bit \<and>
   tells_flags ibv_xrcd_init_attr_mask_bit \<and>
   tells_flags ibv_rereg_mr_flags_bit \<and>
   tells_flags ibv_srq_attr_mask_bit \<and>
   tells_flags ibv_srq_init_attr_mask_bit \<and>
   tells_flags ibv_wq_init_attr_mask_bit \<and>
   tells_flags ibv_wq_flags_bit \<and>
   tells_flags ibv_wq_attr_mask_bit \<and>
   tells_flags ibv_ind_table_init_attr_mask_bit \<and>
   tells_flags ibv_qp_init_attr_mask_bit \<and>
   tells_flags ibv_qp_create_flags_bit \<and>
   tells_flags ibv_qp_open_attr_mask_bit \<and>
   tells_flags ibv_qp_attr_mask_bit \<and>
   tells_flags ibv_send_flags_bit \<and>
   tells_flags ibv_ops_flags_bit \<and>
   tells_flags ibv_cq_attr_mask_bit \<and>
   tells_flags ibv_flow_flags_bit \<and>
   tells_flags ibv_cq_init_attr_mask_bit \<and>
   tells_flags ibv_create_cq_attr_flags_bit \<and>
   tells_flags ibv_values_mask_bit \<and>
   IBV_QP_STATE OR IBV_QP_PKEY_INDEX OR IBV_QP_PORT OR IBV_QP_QKEY = flag_mask ibv_qp_attr_mask_bit
     [IBV_QP_STATE_flag, IBV_QP_PKEY_INDEX_flag, IBV_QP_PORT_flag, IBV_QP_QKEY_flag] \<and>
   IBV_QP_STATE OR IBV_QP_SQ_PSN = flag_mask ibv_qp_attr_mask_bit [IBV_QP_STATE_flag, IBV_QP_SQ_PSN_flag] \<and>
   IBV_SEND_SIGNALED OR IBV_SEND_INLINE =
     flag_mask ibv_send_flags_bit [IBV_SEND_SIGNALED_flag, IBV_SEND_INLINE_flag] \<and>
   IBV_ACCESS_LOCAL_WRITE = flag_mask ibv_access_flags_bit [IBV_ACCESS_LOCAL_WRITE_flag] \<and>
   (\<forall>f. IBV_WC_STANDARD_FLAGS AND push_bit (ibv_create_cq_wc_flags_bit f) 1 \<noteq> 0 \<longleftrightarrow>
      ibv_create_cq_wc_flags_bit f \<le> ibv_create_cq_wc_flags_bit IBV_WC_EX_WITH_DLID_PATH_BITS) \<and>
   (\<forall>f. IBV_CREATE_CQ_SUP_WC_FLAGS AND push_bit (ibv_create_cq_wc_flags_bit f) 1 \<noteq> 0) \<and>
   (\<forall>f. IBV_REREG_MR_FLAGS_SUPPORTED AND push_bit (ibv_rereg_mr_flags_bit f) 1 \<noteq> 0) \<and>
   (\<forall>f. ibv_rx_hash_fields_bit f = 31 \<longleftrightarrow> f = IBV_RX_HASH_INNER) \<and>
   (ucast (IBV_DEVICE_RAW_SCATTER_FCS OR IBV_DEVICE_PCI_WRITE_END_PADDING) :: u32) = 0"
proof (intro conjI allI)
  have sup: "IBV_CREATE_CQ_SUP_WC_FLAGS = 0xFFF" "IBV_WC_STANDARD_FLAGS = 0x7F"
    by (simp_all add: IBV_CREATE_CQ_SUP_WC_FLAGS_def IBV_WC_STANDARD_FLAGS_def flag_mask_simps)
  show "IBV_WC_STANDARD_FLAGS AND push_bit (ibv_create_cq_wc_flags_bit f) 1 \<noteq> 0 \<longleftrightarrow>
      ibv_create_cq_wc_flags_bit f \<le> ibv_create_cq_wc_flags_bit IBV_WC_EX_WITH_DLID_PATH_BITS" for f
    by (cases f) (simp_all add: sup)
  show "IBV_CREATE_CQ_SUP_WC_FLAGS AND push_bit (ibv_create_cq_wc_flags_bit f) 1 \<noteq> 0" for f
    by (cases f) (simp_all add: sup)
  show "IBV_REREG_MR_FLAGS_SUPPORTED AND push_bit (ibv_rereg_mr_flags_bit f) 1 \<noteq> 0" for f
    by (cases f) (simp_all add: IBV_REREG_MR_FLAGS_SUPPORTED_def)
  show "ibv_rx_hash_fields_bit f = 31 \<longleftrightarrow> f = IBV_RX_HASH_INNER" for f
    by (cases f) simp_all
qed (simp_all add: flag_mask_simps mask_defs IBV_DEVICE_RAW_SCATTER_FCS_def IBV_DEVICE_PCI_WRITE_END_PADDING_def
  device_cap_flags.tells odp_transport_cap_bits.tells odp_general_caps.tells
      rx_hash_function_flags.tells rx_hash_fields.tells raw_packet_caps.tells tm_cap_flags.tells
      port_cap_flags.tells create_cq_wc_flags.tells wc_flags.tells access_flags.tells
      xrcd_init_attr_mask.tells rereg_mr_flags.tells srq_attr_mask.tells srq_init_attr_mask.tells
      wq_init_attr_mask.tells wq_flags.tells wq_attr_mask.tells ind_table_init_attr_mask.tells
      qp_init_attr_mask.tells qp_create_flags.tells qp_open_attr_mask.tells qp_attr_mask.tells
      send_flags.tells ops_flags.tells cq_attr_mask.tells flow_flags.tells
      cq_init_attr_mask.tells create_cq_attr_flags.tells values_mask.tells)

end
