(* ===== verification/Verbs_Layout.thy ===== *)
theory Verbs_Layout
  imports Verbs
begin

text \<open>
  The memory layout of the structs of \<^verbatim>\<open>src/sys/verbs.h\<close> that its inline functions access,
  measure or cast. A C type is a value of \<open>ctype\<close>; sizes and offsets follow the layout rule of the
  LP64 ABI (members in order, each at the next multiple of its alignment, the size rounded up to
  the alignment of the struct; the members of a union all at its start). Enumerations are 32-bit integers. The sizes of the two types of
  \<^verbatim>\<open>pthread.h\<close> are parameters, the record \<open>abi\<close>; their alignment is that of a pointer.
\<close>

section \<open>C types, sizes and offsets\<close>

datatype ctype = U8 | U16 | U32 | U64 | Pointer | Mutex | Cond
  | Array nat ctype | Struct "(string \<times> ctype) list" | Union "(string \<times> ctype) list"

record abi =
  mutex_size :: nat
  cond_size :: nat

definition round_up :: "nat \<Rightarrow> nat \<Rightarrow> nat" where
  "round_up n a = (n + a - 1) div a * a"

fun align_of :: "ctype \<Rightarrow> nat" and fields_align :: "(string \<times> ctype) list \<Rightarrow> nat" where
  "align_of U8 = 1"
| "align_of U16 = 2"
| "align_of U32 = 4"
| "align_of U64 = 8"
| "align_of Pointer = 8"
| "align_of Mutex = 8"
| "align_of Cond = 8"
| "align_of (Array n t) = align_of t"
| "align_of (Struct fs) = fields_align fs"
| "align_of (Union fs) = fields_align fs"
| "fields_align [] = 1"
| "fields_align ((x, t) # fs) = max (align_of t) (fields_align fs)"

text \<open>\<open>fields_end abi n fs\<close> is the first byte after the members \<open>fs\<close> placed from offset \<open>n\<close>,
  \<open>fields_max abi fs\<close> the size of the largest.\<close>

fun size_of :: "abi \<Rightarrow> ctype \<Rightarrow> nat"
  and fields_end :: "abi \<Rightarrow> nat \<Rightarrow> (string \<times> ctype) list \<Rightarrow> nat"
  and fields_max :: "abi \<Rightarrow> (string \<times> ctype) list \<Rightarrow> nat" where
  "size_of abi U8 = 1"
| "size_of abi U16 = 2"
| "size_of abi U32 = 4"
| "size_of abi U64 = 8"
| "size_of abi Pointer = 8"
| "size_of abi Mutex = mutex_size abi"
| "size_of abi Cond = cond_size abi"
| "size_of abi (Array n t) = n * size_of abi t"
| "size_of abi (Struct fs) = round_up (fields_end abi 0 fs) (fields_align fs)"
| "size_of abi (Union fs) = round_up (fields_max abi fs) (fields_align fs)"
| "fields_end abi n [] = n"
| "fields_end abi n ((x, t) # fs) = fields_end abi (round_up n (align_of t) + size_of abi t) fs"
| "fields_max abi [] = 0"
| "fields_max abi ((x, t) # fs) = max (size_of abi t) (fields_max abi fs)"

fun offset_from :: "abi \<Rightarrow> nat \<Rightarrow> (string \<times> ctype) list \<Rightarrow> string \<Rightarrow> nat" where
  "offset_from abi n [] f = n"
| "offset_from abi n ((x, t) # fs) f =
     (if x = f then round_up n (align_of t)
      else offset_from abi (round_up n (align_of t) + size_of abi t) fs f)"

text \<open>\<^verbatim>\<open>offsetof(struct, f)\<close>.\<close>

definition offset_of :: "abi \<Rightarrow> (string \<times> ctype) list \<Rightarrow> string \<Rightarrow> nat" where
  "offset_of abi fs f = offset_from abi 0 fs f"

text \<open>The macro \<^verbatim>\<open>vext_field_avail\<close>.\<close>

definition vext_field_avail :: "abi \<Rightarrow> (string \<times> ctype) list \<Rightarrow> string \<Rightarrow> nat \<Rightarrow> bool" where
  "vext_field_avail abi fs f sz \<longleftrightarrow> offset_of abi fs f < sz"

definition member_names :: "(string \<times> ctype) list \<Rightarrow> string list" where
  "member_names fs = map fst fs"

lemma member_names_simps [simp]:
  "member_names [] = []" "member_names (p # fs) = fst p # member_names fs"
  "member_names (fs @ gs) = member_names fs @ member_names gs"
  by (simp_all add: member_names_def)

section \<open>The structs\<close>

text \<open>\<^verbatim>\<open>union ibv_gid\<close> is aligned like its member \<^verbatim>\<open>global\<close>.\<close>

definition ibv_gid_type :: ctype where
  "ibv_gid_type = Struct [(''subnet_prefix'', U64), (''interface_id'', U64)]"

named_theorems struct_defs

definition ibv_device_attr_fields :: "(string \<times> ctype) list" where
  "ibv_device_attr_fields =
     [(''fw_ver'', Array 64 U8), (''node_guid'', U64), (''sys_image_guid'', U64),
      (''max_mr_size'', U64), (''page_size_cap'', U64), (''vendor_id'', U32),
      (''vendor_part_id'', U32), (''hw_ver'', U32), (''max_qp'', U32), (''max_qp_wr'', U32),
      (''device_cap_flags'', U32), (''max_sge'', U32), (''max_sge_rd'', U32), (''max_cq'', U32),
      (''max_cqe'', U32), (''max_mr'', U32), (''max_pd'', U32), (''max_qp_rd_atom'', U32),
      (''max_ee_rd_atom'', U32), (''max_res_rd_atom'', U32), (''max_qp_init_rd_atom'', U32),
      (''max_ee_init_rd_atom'', U32), (''atomic_cap'', U32), (''max_ee'', U32),
      (''max_rdd'', U32), (''max_mw'', U32), (''max_raw_ipv6_qp'', U32),
      (''max_raw_ethy_qp'', U32), (''max_mcast_grp'', U32), (''max_mcast_qp_attach'', U32),
      (''max_total_mcast_qp_attach'', U32), (''max_ah'', U32), (''max_fmr'', U32),
      (''max_map_per_fmr'', U32), (''max_srq'', U32), (''max_srq_wr'', U32),
      (''max_srq_sge'', U32), (''max_pkeys'', U16), (''local_ca_ack_delay'', U8),
      (''phys_port_cnt'', U8)]"

definition ibv_odp_caps_fields :: "(string \<times> ctype) list" where
  "ibv_odp_caps_fields =
     [(''general_caps'', U64),
      (''per_transport_caps'',
        Struct [(''rc_odp_caps'', U32), (''uc_odp_caps'', U32), (''ud_odp_caps'', U32)])]"

definition ibv_tso_caps_fields :: "(string \<times> ctype) list" where
  "ibv_tso_caps_fields =
     [(''max_tso'', U32), (''supported_qpts'', U32)]"

definition ibv_rss_caps_fields :: "(string \<times> ctype) list" where
  "ibv_rss_caps_fields =
     [(''supported_qpts'', U32), (''max_rwq_indirection_tables'', U32),
      (''max_rwq_indirection_table_size'', U32), (''rx_hash_fields_mask'', U64),
      (''rx_hash_function'', U8)]"

definition ibv_packet_pacing_caps_fields :: "(string \<times> ctype) list" where
  "ibv_packet_pacing_caps_fields =
     [(''qp_rate_limit_min'', U32), (''qp_rate_limit_max'', U32), (''supported_qpts'', U32)]"

definition ibv_tm_caps_fields :: "(string \<times> ctype) list" where
  "ibv_tm_caps_fields =
     [(''max_rndv_hdr_size'', U32), (''max_num_tags'', U32), (''flags'', U32),
      (''max_ops'', U32), (''max_sge'', U32)]"

definition ibv_cq_moderation_caps_fields :: "(string \<times> ctype) list" where
  "ibv_cq_moderation_caps_fields =
     [(''max_cq_count'', U16), (''max_cq_period'', U16)]"

definition ibv_device_attr_ex_fields :: "(string \<times> ctype) list" where
  "ibv_device_attr_ex_fields =
     [(''orig_attr'', Struct ibv_device_attr_fields), (''comp_mask'', U32),
      (''odp_caps'', Struct ibv_odp_caps_fields), (''completion_timestamp_mask'', U64),
      (''hca_core_clock'', U64), (''device_cap_flags_ex'', U64),
      (''tso_caps'', Struct ibv_tso_caps_fields), (''rss_caps'', Struct ibv_rss_caps_fields),
      (''max_wq_type_rq'', U32), (''packet_pacing_caps'', Struct ibv_packet_pacing_caps_fields),
      (''raw_packet_caps'', U32), (''tm_caps'', Struct ibv_tm_caps_fields),
      (''cq_mod_caps'', Struct ibv_cq_moderation_caps_fields)]"

definition ibv_pd_fields :: "(string \<times> ctype) list" where
  "ibv_pd_fields =
     [(''context'', Pointer), (''handle'', U32)]"

definition ibv_td_fields :: "(string \<times> ctype) list" where
  "ibv_td_fields =
     [(''context'', Pointer)]"

definition ibv_xrcd_fields :: "(string \<times> ctype) list" where
  "ibv_xrcd_fields =
     [(''context'', Pointer)]"

definition ibv_mw_fields :: "(string \<times> ctype) list" where
  "ibv_mw_fields =
     [(''context'', Pointer), (''pd'', Pointer), (''rkey'', U32), (''handle'', U32),
      (''type'', U32)]"

definition ibv_grh_fields :: "(string \<times> ctype) list" where
  "ibv_grh_fields =
     [(''version_tclass_flow'', U32), (''paylen'', U16), (''next_hdr'', U8), (''hop_limit'', U8),
      (''sgid'', ibv_gid_type), (''dgid'', ibv_gid_type)]"

definition ibv_srq_attr_fields :: "(string \<times> ctype) list" where
  "ibv_srq_attr_fields =
     [(''max_wr'', U32), (''max_sge'', U32), (''srq_limit'', U32)]"

definition ibv_srq_init_attr_fields :: "(string \<times> ctype) list" where
  "ibv_srq_init_attr_fields =
     [(''srq_context'', Pointer), (''attr'', Struct ibv_srq_attr_fields)]"

definition ibv_tm_cap_fields :: "(string \<times> ctype) list" where
  "ibv_tm_cap_fields =
     [(''max_num_tags'', U32), (''max_ops'', U32)]"

definition ibv_srq_init_attr_ex_fields :: "(string \<times> ctype) list" where
  "ibv_srq_init_attr_ex_fields =
     [(''srq_context'', Pointer), (''attr'', Struct ibv_srq_attr_fields), (''comp_mask'', U32),
      (''srq_type'', U32), (''pd'', Pointer), (''xrcd'', Pointer), (''cq'', Pointer),
      (''tm_cap'', Struct ibv_tm_cap_fields)]"

definition ibv_rwq_ind_table_fields :: "(string \<times> ctype) list" where
  "ibv_rwq_ind_table_fields =
     [(''context'', Pointer), (''ind_tbl_handle'', U32), (''ind_tbl_num'', U32),
      (''comp_mask'', U32)]"

definition ibv_qp_cap_fields :: "(string \<times> ctype) list" where
  "ibv_qp_cap_fields =
     [(''max_send_wr'', U32), (''max_recv_wr'', U32), (''max_send_sge'', U32),
      (''max_recv_sge'', U32), (''max_inline_data'', U32)]"

definition ibv_qp_init_attr_fields :: "(string \<times> ctype) list" where
  "ibv_qp_init_attr_fields =
     [(''qp_context'', Pointer), (''send_cq'', Pointer), (''recv_cq'', Pointer),
      (''srq'', Pointer), (''cap'', Struct ibv_qp_cap_fields), (''qp_type'', U32),
      (''sq_sig_all'', U32)]"

definition ibv_rx_hash_conf_fields :: "(string \<times> ctype) list" where
  "ibv_rx_hash_conf_fields =
     [(''rx_hash_function'', U8), (''rx_hash_key_len'', U8), (''rx_hash_key'', Pointer),
      (''rx_hash_fields_mask'', U64)]"

definition ibv_qp_init_attr_ex_fields :: "(string \<times> ctype) list" where
  "ibv_qp_init_attr_ex_fields =
     [(''qp_context'', Pointer), (''send_cq'', Pointer), (''recv_cq'', Pointer),
      (''srq'', Pointer), (''cap'', Struct ibv_qp_cap_fields), (''qp_type'', U32),
      (''sq_sig_all'', U32), (''comp_mask'', U32), (''pd'', Pointer), (''xrcd'', Pointer),
      (''create_flags'', U32), (''max_tso_header'', U16), (''rwq_ind_tbl'', Pointer),
      (''rx_hash_conf'', Struct ibv_rx_hash_conf_fields), (''source_qpn'', U32)]"

definition ibv_srq_fields :: "(string \<times> ctype) list" where
  "ibv_srq_fields =
     [(''context'', Pointer), (''srq_context'', Pointer), (''pd'', Pointer), (''handle'', U32),
      (''mutex'', Mutex), (''cond'', Cond), (''events_completed'', U32)]"

definition ibv_wq_fields :: "(string \<times> ctype) list" where
  "ibv_wq_fields =
     [(''context'', Pointer), (''wq_context'', Pointer), (''pd'', Pointer), (''cq'', Pointer),
      (''wq_num'', U32), (''handle'', U32), (''state'', U32), (''wq_type'', U32),
      (''post_recv'', Pointer), (''mutex'', Mutex), (''cond'', Cond),
      (''events_completed'', U32), (''comp_mask'', U32)]"

definition ibv_qp_fields :: "(string \<times> ctype) list" where
  "ibv_qp_fields =
     [(''context'', Pointer), (''qp_context'', Pointer), (''pd'', Pointer),
      (''send_cq'', Pointer), (''recv_cq'', Pointer), (''srq'', Pointer), (''handle'', U32),
      (''qp_num'', U32), (''state'', U32), (''qp_type'', U32), (''mutex'', Mutex),
      (''cond'', Cond), (''events_completed'', U32)]"

definition ibv_cq_fields :: "(string \<times> ctype) list" where
  "ibv_cq_fields =
     [(''context'', Pointer), (''channel'', Pointer), (''cq_context'', Pointer),
      (''handle'', U32), (''cqe'', U32), (''mutex'', Mutex), (''cond'', Cond),
      (''comp_events_completed'', U32), (''async_events_completed'', U32)]"

definition ibv_cq_ex_fields :: "(string \<times> ctype) list" where
  "ibv_cq_ex_fields =
     [(''context'', Pointer), (''channel'', Pointer), (''cq_context'', Pointer),
      (''handle'', U32), (''cqe'', U32), (''mutex'', Mutex), (''cond'', Cond),
      (''comp_events_completed'', U32), (''async_events_completed'', U32), (''comp_mask'', U32),
      (''status'', U32), (''wr_id'', U64), (''start_poll'', Pointer), (''next_poll'', Pointer),
      (''end_poll'', Pointer), (''read_opcode'', Pointer), (''read_vendor_err'', Pointer),
      (''read_byte_len'', Pointer), (''read_imm_data'', Pointer), (''read_qp_num'', Pointer),
      (''read_src_qp'', Pointer), (''read_wc_flags'', Pointer), (''read_slid'', Pointer),
      (''read_sl'', Pointer), (''read_dlid_path_bits'', Pointer),
      (''read_completion_ts'', Pointer), (''read_cvlan'', Pointer), (''read_flow_tag'', Pointer),
      (''read_tm_info'', Pointer), (''read_completion_wallclock_ns'', Pointer)]"

definition ibv_flow_fields :: "(string \<times> ctype) list" where
  "ibv_flow_fields =
     [(''comp_mask'', U32), (''context'', Pointer), (''handle'', U32)]"

definition ibv_context_ops_fields :: "(string \<times> ctype) list" where
  "ibv_context_ops_fields =
     [(''query_device'', Pointer), (''query_port'', Pointer), (''alloc_pd'', Pointer),
      (''dealloc_pd'', Pointer), (''reg_mr'', Pointer), (''rereg_mr'', Pointer),
      (''dereg_mr'', Pointer), (''alloc_mw'', Pointer), (''bind_mw'', Pointer),
      (''dealloc_mw'', Pointer), (''create_cq'', Pointer), (''poll_cq'', Pointer),
      (''req_notify_cq'', Pointer), (''cq_event'', Pointer), (''resize_cq'', Pointer),
      (''destroy_cq'', Pointer), (''create_srq'', Pointer), (''modify_srq'', Pointer),
      (''query_srq'', Pointer), (''destroy_srq'', Pointer), (''post_srq_recv'', Pointer),
      (''create_qp'', Pointer), (''query_qp'', Pointer), (''modify_qp'', Pointer),
      (''destroy_qp'', Pointer), (''post_send'', Pointer), (''post_recv'', Pointer),
      (''create_ah'', Pointer), (''destroy_ah'', Pointer), (''attach_mcast'', Pointer),
      (''detach_mcast'', Pointer), (''async_event'', Pointer)]"

definition ibv_context_fields :: "(string \<times> ctype) list" where
  "ibv_context_fields =
     [(''device'', Pointer), (''ops'', Struct ibv_context_ops_fields), (''cmd_fd'', U32),
      (''async_fd'', U32), (''num_comp_vectors'', U32), (''mutex'', Mutex),
      (''abi_compat'', Pointer)]"

definition verbs_context_fields :: "(string \<times> ctype) list" where
  "verbs_context_fields =
     [(''alloc_parent_domain'', Pointer), (''dealloc_td'', Pointer), (''alloc_td'', Pointer),
      (''modify_cq'', Pointer), (''post_srq_ops'', Pointer),
      (''destroy_rwq_ind_table'', Pointer), (''create_rwq_ind_table'', Pointer),
      (''destroy_wq'', Pointer), (''modify_wq'', Pointer), (''create_wq'', Pointer),
      (''query_rt_values'', Pointer), (''create_cq_ex'', Pointer), (''priv'', Pointer),
      (''query_device_ex'', Pointer), (''ibv_destroy_flow'', Pointer),
      (''ABI_placeholder2'', Pointer), (''ibv_create_flow'', Pointer),
      (''ABI_placeholder1'', Pointer), (''open_qp'', Pointer), (''create_qp_ex'', Pointer),
      (''get_srq_num'', Pointer), (''create_srq_ex'', Pointer), (''open_xrcd'', Pointer),
      (''close_xrcd'', Pointer), (''_ABI_placeholder3'', U64), (''sz'', U64),
      (''context'', Struct ibv_context_fields)]"

definition ibv_flow_eth_filter_fields :: "(string \<times> ctype) list" where
  "ibv_flow_eth_filter_fields =
     [(''dst_mac'', Array 6 U8), (''src_mac'', Array 6 U8), (''ether_type'', U16),
      (''vlan_tag'', U16)]"

definition ibv_flow_spec_eth_fields :: "(string \<times> ctype) list" where
  "ibv_flow_spec_eth_fields =
     [(''type'', U32), (''size'', U16), (''val'', Struct ibv_flow_eth_filter_fields),
      (''mask'', Struct ibv_flow_eth_filter_fields)]"

definition ibv_flow_ipv4_filter_fields :: "(string \<times> ctype) list" where
  "ibv_flow_ipv4_filter_fields =
     [(''src_ip'', U32), (''dst_ip'', U32)]"

definition ibv_flow_spec_ipv4_fields :: "(string \<times> ctype) list" where
  "ibv_flow_spec_ipv4_fields =
     [(''type'', U32), (''size'', U16), (''val'', Struct ibv_flow_ipv4_filter_fields),
      (''mask'', Struct ibv_flow_ipv4_filter_fields)]"

definition ibv_flow_ipv4_ext_filter_fields :: "(string \<times> ctype) list" where
  "ibv_flow_ipv4_ext_filter_fields =
     [(''src_ip'', U32), (''dst_ip'', U32), (''proto'', U8), (''tos'', U8), (''ttl'', U8),
      (''flags'', U8)]"

definition ibv_flow_spec_ipv4_ext_fields :: "(string \<times> ctype) list" where
  "ibv_flow_spec_ipv4_ext_fields =
     [(''type'', U32), (''size'', U16), (''val'', Struct ibv_flow_ipv4_ext_filter_fields),
      (''mask'', Struct ibv_flow_ipv4_ext_filter_fields)]"

definition ibv_flow_ipv6_filter_fields :: "(string \<times> ctype) list" where
  "ibv_flow_ipv6_filter_fields =
     [(''src_ip'', Array 16 U8), (''dst_ip'', Array 16 U8), (''flow_label'', U32),
      (''next_hdr'', U8), (''traffic_class'', U8), (''hop_limit'', U8)]"

definition ibv_flow_spec_ipv6_fields :: "(string \<times> ctype) list" where
  "ibv_flow_spec_ipv6_fields =
     [(''type'', U32), (''size'', U16), (''val'', Struct ibv_flow_ipv6_filter_fields),
      (''mask'', Struct ibv_flow_ipv6_filter_fields)]"

definition ibv_flow_tcp_udp_filter_fields :: "(string \<times> ctype) list" where
  "ibv_flow_tcp_udp_filter_fields =
     [(''dst_port'', U16), (''src_port'', U16)]"

definition ibv_flow_spec_tcp_udp_fields :: "(string \<times> ctype) list" where
  "ibv_flow_spec_tcp_udp_fields =
     [(''type'', U32), (''size'', U16), (''val'', Struct ibv_flow_tcp_udp_filter_fields),
      (''mask'', Struct ibv_flow_tcp_udp_filter_fields)]"

definition ibv_flow_tunnel_filter_fields :: "(string \<times> ctype) list" where
  "ibv_flow_tunnel_filter_fields =
     [(''tunnel_id'', U32)]"

definition ibv_flow_spec_tunnel_fields :: "(string \<times> ctype) list" where
  "ibv_flow_spec_tunnel_fields =
     [(''type'', U32), (''size'', U16), (''val'', Struct ibv_flow_tunnel_filter_fields),
      (''mask'', Struct ibv_flow_tunnel_filter_fields)]"

definition ibv_flow_spec_action_tag_fields :: "(string \<times> ctype) list" where
  "ibv_flow_spec_action_tag_fields =
     [(''type'', U32), (''size'', U16), (''tag_id'', U32)]"

definition ibv_flow_spec_action_drop_fields :: "(string \<times> ctype) list" where
  "ibv_flow_spec_action_drop_fields =
     [(''type'', U32), (''size'', U16)]"

text \<open>\<^verbatim>\<open>struct ibv_flow_spec\<close> is a union: all its members start at offset 0.\<close>

definition ibv_flow_spec_members :: "(string \<times> (string \<times> ctype) list) list" where
  "ibv_flow_spec_members =
     [(''hdr'', [(''type'', U32), (''size'', U16)]), (''eth'', ibv_flow_spec_eth_fields),
      (''ipv4'', ibv_flow_spec_ipv4_fields), (''tcp_udp'', ibv_flow_spec_tcp_udp_fields),
      (''ipv4_ext'', ibv_flow_spec_ipv4_ext_fields), (''ipv6'', ibv_flow_spec_ipv6_fields),
      (''tunnel'', ibv_flow_spec_tunnel_fields), (''flow_tag'', ibv_flow_spec_action_tag_fields),
      (''drop'', ibv_flow_spec_action_drop_fields)]"

declare ibv_gid_type_def [struct_defs]
  ibv_device_attr_fields_def [struct_defs] ibv_odp_caps_fields_def [struct_defs]
  ibv_tso_caps_fields_def [struct_defs] ibv_rss_caps_fields_def [struct_defs]
  ibv_packet_pacing_caps_fields_def [struct_defs] ibv_tm_caps_fields_def [struct_defs]
  ibv_cq_moderation_caps_fields_def [struct_defs] ibv_device_attr_ex_fields_def [struct_defs]
  ibv_pd_fields_def [struct_defs] ibv_td_fields_def [struct_defs]
  ibv_xrcd_fields_def [struct_defs] ibv_mw_fields_def [struct_defs]
  ibv_grh_fields_def [struct_defs] ibv_srq_attr_fields_def [struct_defs]
  ibv_srq_init_attr_fields_def [struct_defs] ibv_tm_cap_fields_def [struct_defs]
  ibv_srq_init_attr_ex_fields_def [struct_defs] ibv_rwq_ind_table_fields_def [struct_defs]
  ibv_qp_cap_fields_def [struct_defs] ibv_qp_init_attr_fields_def [struct_defs]
  ibv_rx_hash_conf_fields_def [struct_defs] ibv_qp_init_attr_ex_fields_def [struct_defs]
  ibv_srq_fields_def [struct_defs] ibv_wq_fields_def [struct_defs] ibv_qp_fields_def [struct_defs]
  ibv_cq_fields_def [struct_defs] ibv_cq_ex_fields_def [struct_defs]
  ibv_flow_fields_def [struct_defs] ibv_context_ops_fields_def [struct_defs]
  ibv_context_fields_def [struct_defs] verbs_context_fields_def [struct_defs]

declare ibv_flow_eth_filter_fields_def [struct_defs] ibv_flow_spec_eth_fields_def [struct_defs]
  ibv_flow_ipv4_filter_fields_def [struct_defs] ibv_flow_spec_ipv4_fields_def [struct_defs]
  ibv_flow_ipv4_ext_filter_fields_def [struct_defs]
  ibv_flow_spec_ipv4_ext_fields_def [struct_defs] ibv_flow_ipv6_filter_fields_def [struct_defs]
  ibv_flow_spec_ipv6_fields_def [struct_defs] ibv_flow_tcp_udp_filter_fields_def [struct_defs]
  ibv_flow_spec_tcp_udp_fields_def [struct_defs] ibv_flow_tunnel_filter_fields_def [struct_defs]
  ibv_flow_spec_tunnel_fields_def [struct_defs] ibv_flow_spec_action_tag_fields_def [struct_defs]
  ibv_flow_spec_action_drop_fields_def [struct_defs]

section \<open>Lemmas on layouts\<close>

lemma round_up_1 [simp]: "round_up n (Suc 0) = n"
  by (simp add: round_up_def)

lemma round_up_ge:
  assumes a: "0 < a"
  shows "n \<le> round_up n a"
proof -
  have "(n + a - 1) div a * a + (n + a - 1) mod a = n + a - 1"
    by (rule div_mult_mod_eq)
  moreover have "(n + a - 1) mod a < a" using a by simp
  ultimately show ?thesis using a unfolding round_up_def by linarith
qed

lemma round_up_shift:
  assumes "a dvd m" "0 < a"
  shows "round_up (m + n) a = m + round_up n a"
proof -
  obtain k where m: "m = k * a" using assms(1) by (metis dvd_def mult.commute)
  have "m + n + a - 1 = (n + a - 1) + k * a" using assms(2) by (simp add: m)
  then have "(m + n + a - 1) div a = k + (n + a - 1) div a"
    using assms(2) by (simp only: div_mult_self1)
  then show ?thesis by (simp add: round_up_def m add_mult_distrib)
qed

lemma align_values:
  "align_of t \<in> {1, 2, 4, 8}"
  "fields_align fs \<in> {1, 2, 4, 8}"
  by (induction t and fs rule: align_of_fields_align.induct) (auto simp: max_def)

lemma align_dvd [simp]: "8 dvd m \<Longrightarrow> align_of t dvd m" "0 < align_of t"
  "8 dvd m \<Longrightarrow> fields_align fs dvd m" "0 < fields_align fs"
  using align_values(1) [of t] align_values(2) [of fs]
  by (auto intro: dvd_trans [of 2 8] dvd_trans [of 4 8])

lemma fields_end_shift:
  "8 dvd m \<Longrightarrow> fields_end abi (m + n) fs = m + fields_end abi n fs"
  by (induction fs arbitrary: n) (auto simp: round_up_shift add.assoc)

lemma offset_from_shift:
  "8 dvd m \<Longrightarrow> offset_from abi (m + n) fs f = m + offset_from abi n fs f"
  by (induction fs arbitrary: n) (auto simp: round_up_shift add.assoc)

lemma offset_from_append_in:
  "f \<in> set (member_names fs) \<Longrightarrow> offset_from abi n (fs @ gs) f = offset_from abi n fs f"
  by (induction fs arbitrary: n) auto

lemma offset_from_append_out:
  "f \<notin> set (member_names fs) \<Longrightarrow>
     offset_from abi n (fs @ gs) f = offset_from abi (fields_end abi n fs) gs f"
  by (induction fs arbitrary: n) auto

lemma fields_end_append:
  "fields_end abi n (fs @ gs) = fields_end abi (fields_end abi n fs) gs"
  by (induction fs arbitrary: n) auto

lemma fields_align_append:
  "fields_align (fs @ gs) = max (fields_align fs) (fields_align gs)"
  using align_values(2) [of gs] by (induction fs) auto

lemma fields_end_ge: "n \<le> fields_end abi n fs"
proof (induction fs arbitrary: n)
  case (Cons p fs)
  obtain x t where p: "p = (x, t)" by (cases p)
  show ?case
    using Cons [of "round_up n (align_of t) + size_of abi t"] round_up_ge [of "align_of t" n]
    by (simp add: p)
qed simp

lemma offset_from_le: "offset_from abi n fs f \<le> fields_end abi n fs"
proof (induction fs arbitrary: n)
  case (Cons p fs)
  obtain x t where p: "p = (x, t)" by (cases p)
  show ?case
    using Cons fields_end_ge [of "round_up n (align_of t) + size_of abi t" abi fs]
    by (auto simp: p intro: order_trans [OF le_add1])
qed simp

text \<open>A list of pointer members in front of a struct shifts the rest of it by eight bytes each.\<close>

definition pointers :: "(string \<times> ctype) list \<Rightarrow> bool" where
  "pointers fs \<longleftrightarrow> list_all (\<lambda>p. snd p = Pointer) fs"

lemma pointers_simps:
  "pointers []" "pointers (p # fs) \<longleftrightarrow> snd p = Pointer \<and> pointers fs"
  by (simp_all add: pointers_def)

lemma pointers_layout:
  assumes "pointers fs"
  shows "fields_end abi 0 fs = 8 * length fs"
    "f \<in> set (member_names fs) \<Longrightarrow> offset_from abi 0 fs f < 8 * length fs"
proof -
  have *: "round_up 0 8 = 0" by (simp add: round_up_def)
  have shift: "fields_end abi 8 gs = 8 + fields_end abi 0 gs"
    "offset_from abi 8 gs f = 8 + offset_from abi 0 gs f" for gs
    using fields_end_shift [of 8 abi 0 gs] offset_from_shift [of 8 abi 0 gs f] by simp_all
  show "fields_end abi 0 fs = 8 * length fs"
    using assms by (induction fs) (auto simp: pointers_simps * shift)
  show "f \<in> set (member_names fs) \<Longrightarrow> offset_from abi 0 fs f < 8 * length fs"
    using assms by (induction fs) (auto simp: pointers_simps * shift)
qed

lemma prepend_pointers:
  assumes ptr: "pointers pre" and al: "fields_align fs = 8"
  shows "size_of abi (Struct (pre @ fs)) = 8 * length pre + size_of abi (Struct fs)"
    "f \<notin> set (member_names pre) \<Longrightarrow>
       offset_of abi (pre @ fs) f = 8 * length pre + offset_of abi fs f"
    "f \<in> set (member_names pre) \<Longrightarrow>
       size_of abi (Struct fs) < size_of abi (Struct (pre @ fs)) - offset_of abi (pre @ fs) f"
proof -
  let ?n = "8 * length pre"
  have al': "fields_align (pre @ fs) = 8"
    using al align_values(2) [of pre] by (auto simp: fields_align_append)
  have "fields_end abi ?n fs = ?n + fields_end abi 0 fs"
    using fields_end_shift [of ?n abi 0 fs] by simp
  then show size: "size_of abi (Struct (pre @ fs)) = ?n + size_of abi (Struct fs)"
    using pointers_layout(1) [OF ptr]
    by (simp add: al al' fields_end_append round_up_shift)
  have "offset_from abi ?n fs f = ?n + offset_from abi 0 fs f"
    using offset_from_shift [of ?n abi 0 fs f] by simp
  then show "f \<notin> set (member_names pre) \<Longrightarrow> offset_of abi (pre @ fs) f = ?n + offset_of abi fs f"
    using pointers_layout(1) [OF ptr] by (simp add: offset_of_def offset_from_append_out)
  assume f: "f \<in> set (member_names pre)"
  then have "offset_of abi (pre @ fs) f < ?n"
    using pointers_layout(2) [OF ptr f] by (simp add: offset_of_def offset_from_append_in)
  then show "size_of abi (Struct fs) < size_of abi (Struct (pre @ fs)) - offset_of abi (pre @ fs) f"
    by (simp add: size del: size_of.simps)
qed

lemma offset_of_le_size: "offset_of abi fs f \<le> size_of abi (Struct fs)"
  using offset_from_le [of abi 0 fs f] round_up_ge [of "fields_align fs" "fields_end abi 0 fs"]
  by (simp add: offset_of_def)

end
