(* ===== verification/Verbs_Structs.thy ===== *)
theory Verbs_Structs
  imports Verbs_Layout
begin

text \<open>
  The layouts of the structs of \<^verbatim>\<open>src/sys/verbs.h\<close> that its inline functions only pass on: attributes
  of objects to create, work requests with their unions, events and devices. A union that has no name
  in its struct goes under the name of its first member.
\<close>

section \<open>Attributes and objects\<close>

definition ibv_query_device_ex_input_fields :: "(string \<times> ctype) list" where
  "ibv_query_device_ex_input_fields =
     [(''comp_mask'', U32)]"

definition ibv_mw_bind_info_fields :: "(string \<times> ctype) list" where
  "ibv_mw_bind_info_fields =
     [(''mr'', Pointer), (''addr'', U64), (''length'', U64), (''mw_access_flags'', U32)]"

definition ibv_td_init_attr_fields :: "(string \<times> ctype) list" where
  "ibv_td_init_attr_fields =
     [(''comp_mask'', U32)]"

definition ibv_xrcd_init_attr_fields :: "(string \<times> ctype) list" where
  "ibv_xrcd_init_attr_fields =
     [(''comp_mask'', U32), (''fd'', U32), (''oflags'', U32)]"

definition ibv_wq_init_attr_fields :: "(string \<times> ctype) list" where
  "ibv_wq_init_attr_fields =
     [(''wq_context'', Pointer), (''wq_type'', U32), (''max_wr'', U32), (''max_sge'', U32),
      (''pd'', Pointer), (''cq'', Pointer), (''comp_mask'', U32), (''create_flags'', U32)]"

definition ibv_wq_attr_fields :: "(string \<times> ctype) list" where
  "ibv_wq_attr_fields =
     [(''attr_mask'', U32), (''wq_state'', U32), (''curr_wq_state'', U32), (''flags'', U32),
      (''flags_mask'', U32)]"

definition ibv_rwq_ind_table_init_attr_fields :: "(string \<times> ctype) list" where
  "ibv_rwq_ind_table_init_attr_fields =
     [(''log_ind_tbl_size'', U32), (''ind_tbl'', Pointer), (''comp_mask'', U32)]"

definition ibv_qp_open_attr_fields :: "(string \<times> ctype) list" where
  "ibv_qp_open_attr_fields =
     [(''comp_mask'', U32), (''qp_num'', U32), (''xrcd'', Pointer), (''qp_context'', Pointer),
      (''qp_type'', U32)]"

definition ibv_mw_bind_fields :: "(string \<times> ctype) list" where
  "ibv_mw_bind_fields =
     [(''wr_id'', U64), (''send_flags'', U32), (''bind_info'', Struct ibv_mw_bind_info_fields)]"

definition ibv_comp_channel_fields :: "(string \<times> ctype) list" where
  "ibv_comp_channel_fields =
     [(''context'', Pointer), (''fd'', U32), (''refcnt'', U32)]"

definition ibv_poll_cq_attr_fields :: "(string \<times> ctype) list" where
  "ibv_poll_cq_attr_fields =
     [(''comp_mask'', U32)]"

definition ibv_wc_tm_info_fields :: "(string \<times> ctype) list" where
  "ibv_wc_tm_info_fields =
     [(''tag'', U64), (''priv'', U32)]"

definition ibv_moderate_cq_fields :: "(string \<times> ctype) list" where
  "ibv_moderate_cq_fields =
     [(''cq_count'', U16), (''cq_period'', U16)]"

definition ibv_modify_cq_attr_fields :: "(string \<times> ctype) list" where
  "ibv_modify_cq_attr_fields =
     [(''attr_mask'', U32), (''moderate'', Struct ibv_moderate_cq_fields)]"

definition ibv_ah_fields :: "(string \<times> ctype) list" where
  "ibv_ah_fields =
     [(''context'', Pointer), (''pd'', Pointer), (''handle'', U32)]"

definition ibv_flow_attr_fields :: "(string \<times> ctype) list" where
  "ibv_flow_attr_fields =
     [(''comp_mask'', U32), (''type'', U32), (''size'', U16), (''priority'', U16),
      (''num_of_specs'', U8), (''port'', U8), (''flags'', U32)]"

definition ibv_device_ops_fields :: "(string \<times> ctype) list" where
  "ibv_device_ops_fields =
     [(''_dummy1'', Pointer), (''_dummy2'', Pointer)]"

definition ibv_cq_init_attr_ex_fields :: "(string \<times> ctype) list" where
  "ibv_cq_init_attr_ex_fields =
     [(''cqe'', U32), (''cq_context'', Pointer), (''channel'', Pointer), (''comp_vector'', U32),
      (''wc_flags'', U64), (''comp_mask'', U32), (''flags'', U32)]"

definition ibv_parent_domain_init_attr_fields :: "(string \<times> ctype) list" where
  "ibv_parent_domain_init_attr_fields =
     [(''pd'', Pointer), (''td'', Pointer), (''comp_mask'', U32)]"

text \<open>\<^verbatim>\<open>struct timespec\<close> of the C library has two members of the type \<^verbatim>\<open>long\<close>.\<close>

definition ibv_values_ex_fields :: "(string \<times> ctype) list" where
  "ibv_values_ex_fields =
     [(''comp_mask'', U32), (''raw_clock'', Struct [(''tv_sec'', U64), (''tv_nsec'', U64)])]"

section \<open>Devices\<close>

definition IBV_SYSFS_NAME_MAX :: nat where "IBV_SYSFS_NAME_MAX = 64"

definition IBV_SYSFS_PATH_MAX :: nat where "IBV_SYSFS_PATH_MAX = 256"

definition ibv_device_fields :: "(string \<times> ctype) list" where
  "ibv_device_fields =
     [(''_ops'', Struct ibv_device_ops_fields), (''node_type'', U32), (''transport_type'', U32),
      (''name'', Array IBV_SYSFS_NAME_MAX U8), (''dev_name'', Array IBV_SYSFS_NAME_MAX U8),
      (''dev_path'', Array IBV_SYSFS_PATH_MAX U8), (''ibdev_path'', Array IBV_SYSFS_PATH_MAX U8)]"

section \<open>Events and work requests\<close>

definition ibv_async_event_fields :: "(string \<times> ctype) list" where
  "ibv_async_event_fields =
     [(''element'', Union [(''cq'', Pointer), (''qp'', Pointer), (''srq'', Pointer), (''wq'', Pointer),
        (''port_num'', U32)]),
      (''event_type'', U32)]"

definition send_wr_targets :: "(string \<times> ctype) list" where
  "send_wr_targets =
     [(''rdma'', Struct [(''remote_addr'', U64), (''rkey'', U32)]),
      (''atomic'', Struct [(''remote_addr'', U64), (''compare_add'', U64), (''swap'', U64), (''rkey'', U32)]),
      (''ud'', Struct [(''ah'', Pointer), (''remote_qpn'', U32), (''remote_qkey'', U32)])]"

definition ibv_send_wr_fields :: "(string \<times> ctype) list" where
  "ibv_send_wr_fields =
     [(''wr_id'', U64), (''next'', Pointer), (''sg_list'', Pointer), (''num_sge'', U32), (''opcode'', U32),
      (''send_flags'', U32), (''imm_data'', Union [(''imm_data'', U32), (''invalidate_rkey'', U32)]),
      (''wr'', Union send_wr_targets),
      (''qp_type'', Union [(''xrc'', Struct [(''remote_srqn'', U32)])]),
      (''bind_mw'', Union
        [(''bind_mw'', Struct [(''mw'', Pointer), (''rkey'', U32), (''bind_info'', Struct ibv_mw_bind_info_fields)]),
         (''tso'', Struct [(''hdr'', Pointer), (''hdr_sz'', U16), (''mss'', U16)])])]"

definition ibv_ops_wr_fields :: "(string \<times> ctype) list" where
  "ibv_ops_wr_fields =
     [(''wr_id'', U64), (''next'', Pointer), (''opcode'', U32), (''flags'', U32),
      (''tm'', Struct [(''unexpected_cnt'', U32), (''handle'', U32),
        (''add'', Struct [(''recv_wr_id'', U64), (''sg_list'', Pointer), (''num_sge'', U32), (''tag'', U64),
          (''mask'', U64)])])]"

lemmas struct_defs' =
  ibv_mw_bind_info_fields_def ibv_moderate_cq_fields_def ibv_device_ops_fields_def
  IBV_SYSFS_NAME_MAX_def IBV_SYSFS_PATH_MAX_def ibv_device_fields_def ibv_async_event_fields_def
  send_wr_targets_def ibv_send_wr_fields_def ibv_ops_wr_fields_def ibv_mw_bind_fields_def
  ibv_cq_init_attr_ex_fields_def ibv_values_ex_fields_def

section \<open>Sizes\<close>

lemma union_members_share:
  assumes "(x, t) \<in> set fs"
  shows "size_of abi t \<le> size_of abi (Union fs)"
proof -
  have "size_of abi t \<le> fields_max abi fs"
    using assms by (induction fs) (auto simp: le_max_iff_disj)
  also have "\<dots> \<le> round_up (fields_max abi fs) (fields_align fs)"
    by (rule round_up_ge) simp
  finally show ?thesis by simp
qed

text \<open>The sizes and offsets of the structs with unions. The datagram members of a send request start where
  its target union does, and are inside it.\<close>

lemma send_wr_layout:
  "offset_of abi ibv_send_wr_fields ''wr'' = 40" "size_of abi (Union send_wr_targets) = 32"
  "size_of abi (Struct ibv_send_wr_fields) = 128" "size_of abi (Struct ibv_ops_wr_fields) = 72"
  "size_of abi (Struct ibv_device_fields) = 664" "size_of abi (Struct ibv_async_event_fields) = 16"
  by (simp_all add: struct_defs' offset_of_def round_up_def)

end
