(* ===== verification/Verbs_Ext.thy ===== *)
theory Verbs_Ext
  imports Verbs_Layout
begin

text \<open>
  The inline functions of \<^verbatim>\<open>src/sys/verbs.h\<close>. They reach the device driver through tables of
  function pointers: the table \<^verbatim>\<open>ops\<close> inside \<^verbatim>\<open>struct ibv_context\<close>, the pointers of
  \<^verbatim>\<open>struct ibv_cq_ex\<close> and \<^verbatim>\<open>struct ibv_wq\<close>, and the extensible
  \<^verbatim>\<open>struct verbs_context\<close>, which \<^verbatim>\<open>grows up\<close>: new operations are put in front of the old ones, and
  \<^verbatim>\<open>sz\<close> tells how many of them the driver was compiled with. Memory is a map from addresses to
  scalars (one cell for each scalar member, zero-extended to 64 bits); a cell that is \<open>None\<close> is not
  part of a live object, and an access to it is undefined. The functions behind the pointers and
  the exported functions of the library are parameters (\<open>verbs_lib\<close>).
\<close>

section \<open>Memory and the library\<close>

record vstate =
  cells :: "u64 \<Rightarrow> u64 option"
  errno :: int

record verbs_lib =
  lib_abi :: abi
  call_fn :: "u64 \<Rightarrow> u64 list \<Rightarrow> vstate \<Rightarrow> u64 \<times> vstate"
  lib_create_srq :: "u64 \<Rightarrow> u64 \<Rightarrow> vstate \<Rightarrow> u64 \<times> vstate"
  lib_create_qp :: "u64 \<Rightarrow> u64 \<Rightarrow> vstate \<Rightarrow> u64 \<times> vstate"
  lib_query_device :: "u64 \<Rightarrow> u64 \<Rightarrow> vstate \<Rightarrow> int \<times> vstate"
  lib_mutex_init :: "u64 \<Rightarrow> vstate \<Rightarrow> vstate"
  lib_cond_init :: "u64 \<Rightarrow> vstate \<Rightarrow> vstate"

definition ENOSYS :: int where "ENOSYS = 38"
definition EINVAL :: int where "EINVAL = 22"

definition load :: "u64 \<Rightarrow> vstate \<Rightarrow> u64 outcome" where
  "load a s = (case cells s a of None \<Rightarrow> UB | Some v \<Rightarrow> Ok v)"

definition store :: "u64 \<Rightarrow> u64 \<Rightarrow> vstate \<Rightarrow> vstate outcome" where
  "store a v s = (case cells s a of None \<Rightarrow> UB | Some _ \<Rightarrow> Ok (s\<lparr>cells := (cells s)(a \<mapsto> v)\<rparr>))"

text \<open>The address \<^verbatim>\<open>&obj->f\<close> and the value \<^verbatim>\<open>obj->f\<close>.\<close>

definition member_addr :: "verbs_lib \<Rightarrow> (string \<times> ctype) list \<Rightarrow> u64 \<Rightarrow> string \<Rightarrow> u64" where
  "member_addr L fs obj f = obj + of_nat (offset_of (lib_abi L) fs f)"

definition member :: "verbs_lib \<Rightarrow> (string \<times> ctype) list \<Rightarrow> u64 \<Rightarrow> string \<Rightarrow> vstate \<Rightarrow> u64 outcome" where
  "member L fs obj f s = load (member_addr L fs obj f) s"

text \<open>\<^verbatim>\<open>obj->f(args)\<close>: calling NULL is undefined.\<close>

definition call_member ::
  "verbs_lib \<Rightarrow> (string \<times> ctype) list \<Rightarrow> u64 \<Rightarrow> string \<Rightarrow> u64 list \<Rightarrow> vstate \<Rightarrow> (u64 \<times> vstate) outcome" where
  "call_member L fs obj f args s =
     bind_outcome (member L fs obj f s)
       (\<lambda>p. if p = 0 then UB else Ok (call_fn L p args s))"

text \<open>The value of a call as the C type of the function: \<^verbatim>\<open>int\<close>, \<^verbatim>\<open>uint32_t\<close>, \<^verbatim>\<open>uint16_t\<close>,
  \<^verbatim>\<open>uint8_t\<close> or \<^verbatim>\<open>void\<close>.\<close>

definition returns :: "(u64 \<Rightarrow> 'a) \<Rightarrow> (u64 \<times> vstate) outcome \<Rightarrow> ('a \<times> vstate) outcome" where
  "returns f r = bind_outcome r (\<lambda>(v, s). Ok (f v, s))"

definition as_int :: "u64 \<Rightarrow> int" where "as_int v = sint (ucast v :: u32)"
definition as_u32 :: "u64 \<Rightarrow> u32" where "as_u32 v = ucast v"
definition as_u16 :: "u64 \<Rightarrow> u16" where "as_u16 v = ucast v"
definition as_u8 :: "u64 \<Rightarrow> byte" where "as_u8 v = ucast v"
definition as_void :: "u64 \<Rightarrow> unit" where "as_void v = ()"

section \<open>The extended context\<close>

definition VERBS_ABI_IS_EXTENDED :: u64 where "VERBS_ABI_IS_EXTENDED = -1"

definition verbs_get_ctx :: "verbs_lib \<Rightarrow> u64 \<Rightarrow> vstate \<Rightarrow> u64 option outcome" where
  "verbs_get_ctx L ctx s =
     bind_outcome (member L ibv_context_fields ctx ''abi_compat'' s)
       (\<lambda>c. if c \<noteq> VERBS_ABI_IS_EXTENDED then Ok None
            else Ok (Some (ctx - of_nat (offset_of (lib_abi L) verbs_context_fields ''context''))))"

text \<open>The macro \<^verbatim>\<open>verbs_get_ctx_op\<close>: its three tests are evaluated in order, and the operation's
  pointer is read only when \<^verbatim>\<open>sz\<close> covers it.\<close>

definition verbs_get_ctx_op :: "verbs_lib \<Rightarrow> u64 \<Rightarrow> string \<Rightarrow> vstate \<Rightarrow> u64 option outcome" where
  "verbs_get_ctx_op L ctx op s =
     bind_outcome (verbs_get_ctx L ctx s) (\<lambda>v. case v of
       None \<Rightarrow> Ok None
     | Some vctx \<Rightarrow>
         bind_outcome (member L verbs_context_fields vctx ''sz'' s) (\<lambda>sz.
         if sz < of_nat (size_of (lib_abi L) (Struct verbs_context_fields))
                   - of_nat (offset_of (lib_abi L) verbs_context_fields op)
         then Ok None
         else bind_outcome (member L verbs_context_fields vctx op s)
                (\<lambda>p. if p = 0 then Ok None else Ok (Some vctx))))"

text \<open>The shape the extended functions share: look the operation up, take the fallback when it is
  not there, call it otherwise.\<close>

definition with_op ::
  "verbs_lib \<Rightarrow> u64 \<Rightarrow> string \<Rightarrow> (vstate \<Rightarrow> ('a \<times> vstate) outcome) \<Rightarrow>
     (u64 \<Rightarrow> vstate \<Rightarrow> ('a \<times> vstate) outcome) \<Rightarrow> vstate \<Rightarrow> ('a \<times> vstate) outcome" where
  "with_op L ctx op missing use s =
     bind_outcome (verbs_get_ctx_op L ctx op s)
       (\<lambda>v. case v of None \<Rightarrow> missing s | Some vctx \<Rightarrow> use vctx s)"

definition null_enosys :: "vstate \<Rightarrow> (u64 \<times> vstate) outcome" where
  "null_enosys s = Ok (0, s\<lparr>errno := ENOSYS\<rparr>)"

definition int_enosys :: "vstate \<Rightarrow> (int \<times> vstate) outcome" where
  "int_enosys s = Ok (ENOSYS, s)"

section \<open>Functions of the extended context\<close>

definition ibv_create_flow :: "verbs_lib \<Rightarrow> u64 \<Rightarrow> u64 \<Rightarrow> vstate \<Rightarrow> (u64 \<times> vstate) outcome" where
  "ibv_create_flow L qp flow s =
     bind_outcome (member L ibv_qp_fields qp ''context'' s) (\<lambda>ctx.
       with_op L ctx ''ibv_create_flow'' null_enosys
         (\<lambda>v. call_member L verbs_context_fields v ''ibv_create_flow'' [qp, flow]) s)"

definition ibv_destroy_flow :: "verbs_lib \<Rightarrow> u64 \<Rightarrow> vstate \<Rightarrow> (int \<times> vstate) outcome" where
  "ibv_destroy_flow L flow_id s =
     bind_outcome (member L ibv_flow_fields flow_id ''context'' s) (\<lambda>ctx.
       with_op L ctx ''ibv_destroy_flow'' (\<lambda>s. Ok (- ENOSYS, s))
         (\<lambda>v s. returns as_int
            (call_member L verbs_context_fields v ''ibv_destroy_flow'' [flow_id] s)) s)"

definition ibv_open_xrcd :: "verbs_lib \<Rightarrow> u64 \<Rightarrow> u64 \<Rightarrow> vstate \<Rightarrow> (u64 \<times> vstate) outcome" where
  "ibv_open_xrcd L ctx attr s =
     with_op L ctx ''open_xrcd'' null_enosys
       (\<lambda>v. call_member L verbs_context_fields v ''open_xrcd'' [ctx, attr]) s"

text \<open>\<^verbatim>\<open>ibv_close_xrcd\<close> uses the result of \<^verbatim>\<open>verbs_get_ctx\<close> without a test.\<close>

definition ibv_close_xrcd :: "verbs_lib \<Rightarrow> u64 \<Rightarrow> vstate \<Rightarrow> (int \<times> vstate) outcome" where
  "ibv_close_xrcd L xrcd s =
     bind_outcome (member L ibv_xrcd_fields xrcd ''context'' s) (\<lambda>ctx.
     bind_outcome (verbs_get_ctx L ctx s) (\<lambda>v. case v of
       None \<Rightarrow> UB
     | Some vctx \<Rightarrow>
         returns as_int (call_member L verbs_context_fields vctx ''close_xrcd'' [xrcd] s)))"

definition ibv_create_cq_ex :: "verbs_lib \<Rightarrow> u64 \<Rightarrow> u64 \<Rightarrow> vstate \<Rightarrow> (u64 \<times> vstate) outcome" where
  "ibv_create_cq_ex L ctx cq_attr s =
     with_op L ctx ''create_cq_ex'' null_enosys
       (\<lambda>v. call_member L verbs_context_fields v ''create_cq_ex'' [ctx, cq_attr]) s"

definition ibv_modify_cq :: "verbs_lib \<Rightarrow> u64 \<Rightarrow> u64 \<Rightarrow> vstate \<Rightarrow> (int \<times> vstate) outcome" where
  "ibv_modify_cq L cq attr s =
     bind_outcome (member L ibv_cq_fields cq ''context'' s) (\<lambda>ctx.
       with_op L ctx ''modify_cq'' int_enosys
         (\<lambda>v s. returns as_int
            (call_member L verbs_context_fields v ''modify_cq'' [cq, attr] s)) s)"

definition IBV_SRQ_INIT_ATTR_TYPE :: u32 where "IBV_SRQ_INIT_ATTR_TYPE = push_bit 0 1"
definition IBV_SRQ_INIT_ATTR_PD :: u32 where "IBV_SRQ_INIT_ATTR_PD = push_bit 1 1"
definition IBV_SRQT_BASIC :: u32 where "IBV_SRQT_BASIC = 0"

definition ibv_create_srq_ex :: "verbs_lib \<Rightarrow> u64 \<Rightarrow> u64 \<Rightarrow> vstate \<Rightarrow> (u64 \<times> vstate) outcome" where
  "ibv_create_srq_ex L ctx attr s =
     bind_outcome (member L ibv_srq_init_attr_ex_fields attr ''comp_mask'' s) (\<lambda>m.
     let mask = as_u32 m in
     bind_outcome
       (if mask AND NOT (IBV_SRQ_INIT_ATTR_PD OR IBV_SRQ_INIT_ATTR_TYPE) \<noteq> 0
           \<or> mask AND IBV_SRQ_INIT_ATTR_PD = 0 then Ok False
        else if mask AND IBV_SRQ_INIT_ATTR_TYPE = 0 then Ok True
        else bind_outcome (member L ibv_srq_init_attr_ex_fields attr ''srq_type'' s)
               (\<lambda>ty. Ok (as_u32 ty = IBV_SRQT_BASIC))) (\<lambda>basic.
     if basic
     then bind_outcome (member L ibv_srq_init_attr_ex_fields attr ''pd'' s)
            (\<lambda>pd. Ok (lib_create_srq L pd attr s))
     else with_op L ctx ''create_srq_ex'' null_enosys
            (\<lambda>v. call_member L verbs_context_fields v ''create_srq_ex'' [ctx, attr]) s))"

definition ibv_get_srq_num :: "verbs_lib \<Rightarrow> u64 \<Rightarrow> u64 \<Rightarrow> vstate \<Rightarrow> (int \<times> vstate) outcome" where
  "ibv_get_srq_num L srq_ptr srq_num s =
     bind_outcome (member L ibv_srq_fields srq_ptr ''context'' s) (\<lambda>ctx.
       with_op L ctx ''get_srq_num'' int_enosys
         (\<lambda>v s. returns as_int
            (call_member L verbs_context_fields v ''get_srq_num'' [srq_ptr, srq_num] s)) s)"

definition ibv_post_srq_ops ::
  "verbs_lib \<Rightarrow> u64 \<Rightarrow> u64 \<Rightarrow> u64 \<Rightarrow> vstate \<Rightarrow> (int \<times> vstate) outcome" where
  "ibv_post_srq_ops L srq_ptr op bad_op s =
     bind_outcome (member L ibv_srq_fields srq_ptr ''context'' s) (\<lambda>ctx.
       with_op L ctx ''post_srq_ops''
         (\<lambda>s. bind_outcome (store bad_op op s) int_enosys)
         (\<lambda>v s. returns as_int
            (call_member L verbs_context_fields v ''post_srq_ops'' [srq_ptr, op, bad_op] s)) s)"

definition IBV_QP_INIT_ATTR_PD :: u32 where "IBV_QP_INIT_ATTR_PD = push_bit 0 1"

definition ibv_create_qp_ex :: "verbs_lib \<Rightarrow> u64 \<Rightarrow> u64 \<Rightarrow> vstate \<Rightarrow> (u64 \<times> vstate) outcome" where
  "ibv_create_qp_ex L ctx attr s =
     bind_outcome (member L ibv_qp_init_attr_ex_fields attr ''comp_mask'' s) (\<lambda>m.
     if as_u32 m = IBV_QP_INIT_ATTR_PD
     then bind_outcome (member L ibv_qp_init_attr_ex_fields attr ''pd'' s)
            (\<lambda>pd. Ok (lib_create_qp L pd attr s))
     else with_op L ctx ''create_qp_ex'' null_enosys
            (\<lambda>v. call_member L verbs_context_fields v ''create_qp_ex'' [ctx, attr]) s)"

definition ibv_alloc_td :: "verbs_lib \<Rightarrow> u64 \<Rightarrow> u64 \<Rightarrow> vstate \<Rightarrow> (u64 \<times> vstate) outcome" where
  "ibv_alloc_td L ctx init_attr s =
     with_op L ctx ''alloc_td'' null_enosys
       (\<lambda>v. call_member L verbs_context_fields v ''alloc_td'' [ctx, init_attr]) s"

definition ibv_dealloc_td :: "verbs_lib \<Rightarrow> u64 \<Rightarrow> vstate \<Rightarrow> (int \<times> vstate) outcome" where
  "ibv_dealloc_td L td s =
     bind_outcome (member L ibv_td_fields td ''context'' s) (\<lambda>ctx.
       with_op L ctx ''dealloc_td'' int_enosys
         (\<lambda>v s. returns as_int (call_member L verbs_context_fields v ''dealloc_td'' [td] s)) s)"

definition ibv_alloc_parent_domain ::
  "verbs_lib \<Rightarrow> u64 \<Rightarrow> u64 \<Rightarrow> vstate \<Rightarrow> (u64 \<times> vstate) outcome" where
  "ibv_alloc_parent_domain L ctx attr s =
     with_op L ctx ''alloc_parent_domain'' null_enosys
       (\<lambda>v. call_member L verbs_context_fields v ''alloc_parent_domain'' [ctx, attr]) s"

definition ibv_query_rt_values_ex ::
  "verbs_lib \<Rightarrow> u64 \<Rightarrow> u64 \<Rightarrow> vstate \<Rightarrow> (int \<times> vstate) outcome" where
  "ibv_query_rt_values_ex L ctx values s =
     with_op L ctx ''query_rt_values'' int_enosys
       (\<lambda>v s. returns as_int
          (call_member L verbs_context_fields v ''query_rt_values'' [ctx, values] s)) s"

text \<open>\<^verbatim>\<open>memset(p, 0, n)\<close> on a live object.\<close>

definition clear_object :: "u64 \<Rightarrow> nat \<Rightarrow> vstate \<Rightarrow> vstate outcome" where
  "clear_object p n s =
     (if cells s p = None then UB
      else Ok (s\<lparr>cells := (\<lambda>a. if unat (a - p) < n then map_option (\<lambda>_. 0) (cells s a)
                               else cells s a)\<rparr>))"

definition query_device_legacy :: "verbs_lib \<Rightarrow> u64 \<Rightarrow> u64 \<Rightarrow> vstate \<Rightarrow> (int \<times> vstate) outcome" where
  "query_device_legacy L ctx attr s =
     bind_outcome (clear_object attr (size_of (lib_abi L) (Struct ibv_device_attr_ex_fields)) s)
       (\<lambda>s. Ok (lib_query_device L ctx
                  (member_addr L ibv_device_attr_ex_fields attr ''orig_attr'') s))"

definition ibv_query_device_ex ::
  "verbs_lib \<Rightarrow> u64 \<Rightarrow> u64 \<Rightarrow> u64 \<Rightarrow> vstate \<Rightarrow> (int \<times> vstate) outcome" where
  "ibv_query_device_ex L ctx input attr s =
     with_op L ctx ''query_device_ex'' (query_device_legacy L ctx attr)
       (\<lambda>v s. bind_outcome
          (returns as_int (call_member L verbs_context_fields v ''query_device_ex''
             [ctx, input, attr, of_nat (size_of (lib_abi L) (Struct ibv_device_attr_ex_fields))] s))
          (\<lambda>(ret, s). if ret = ENOSYS then query_device_legacy L ctx attr s else Ok (ret, s))) s"

definition ibv_open_qp :: "verbs_lib \<Rightarrow> u64 \<Rightarrow> u64 \<Rightarrow> vstate \<Rightarrow> (u64 \<times> vstate) outcome" where
  "ibv_open_qp L ctx qp_open_attr s =
     with_op L ctx ''open_qp'' null_enosys
       (\<lambda>v. call_member L verbs_context_fields v ''open_qp'' [ctx, qp_open_attr]) s"

definition ibv_create_wq :: "verbs_lib \<Rightarrow> u64 \<Rightarrow> u64 \<Rightarrow> vstate \<Rightarrow> (u64 \<times> vstate) outcome" where
  "ibv_create_wq L ctx wq_init_attr s =
     with_op L ctx ''create_wq'' null_enosys
       (\<lambda>v s. bind_outcome
          (call_member L verbs_context_fields v ''create_wq'' [ctx, wq_init_attr] s)
          (\<lambda>(wq, s).
             if wq = 0 then Ok (wq, s)
             else bind_outcome (store (member_addr L ibv_wq_fields wq ''events_completed'') 0 s)
                    (\<lambda>s. Ok (wq, lib_cond_init L (member_addr L ibv_wq_fields wq ''cond'')
                               (lib_mutex_init L (member_addr L ibv_wq_fields wq ''mutex'') s))))) s"

definition ibv_modify_wq :: "verbs_lib \<Rightarrow> u64 \<Rightarrow> u64 \<Rightarrow> vstate \<Rightarrow> (int \<times> vstate) outcome" where
  "ibv_modify_wq L wq wq_attr s =
     bind_outcome (member L ibv_wq_fields wq ''context'' s) (\<lambda>ctx.
       with_op L ctx ''modify_wq'' int_enosys
         (\<lambda>v s. returns as_int
            (call_member L verbs_context_fields v ''modify_wq'' [wq, wq_attr] s)) s)"

definition ibv_destroy_wq :: "verbs_lib \<Rightarrow> u64 \<Rightarrow> vstate \<Rightarrow> (int \<times> vstate) outcome" where
  "ibv_destroy_wq L wq s =
     bind_outcome (member L ibv_wq_fields wq ''context'' s) (\<lambda>ctx.
       with_op L ctx ''destroy_wq'' int_enosys
         (\<lambda>v s. returns as_int (call_member L verbs_context_fields v ''destroy_wq'' [wq] s)) s)"

definition ibv_create_rwq_ind_table ::
  "verbs_lib \<Rightarrow> u64 \<Rightarrow> u64 \<Rightarrow> vstate \<Rightarrow> (u64 \<times> vstate) outcome" where
  "ibv_create_rwq_ind_table L ctx init_attr s =
     with_op L ctx ''create_rwq_ind_table'' null_enosys
       (\<lambda>v. call_member L verbs_context_fields v ''create_rwq_ind_table'' [ctx, init_attr]) s"

definition ibv_destroy_rwq_ind_table :: "verbs_lib \<Rightarrow> u64 \<Rightarrow> vstate \<Rightarrow> (int \<times> vstate) outcome" where
  "ibv_destroy_rwq_ind_table L rwq_ind_table s =
     bind_outcome (member L ibv_rwq_ind_table_fields rwq_ind_table ''context'' s) (\<lambda>ctx.
       with_op L ctx ''destroy_rwq_ind_table'' int_enosys
         (\<lambda>v s. returns as_int
            (call_member L verbs_context_fields v ''destroy_rwq_ind_table'' [rwq_ind_table] s)) s)"

section \<open>Functions of the basic table\<close>

text \<open>\<^verbatim>\<open>obj->context->ops.op\<close>: the address of the operations is \<^verbatim>\<open>&context->ops\<close>.\<close>

definition context_ops :: "verbs_lib \<Rightarrow> (string \<times> ctype) list \<Rightarrow> u64 \<Rightarrow> vstate \<Rightarrow> u64 outcome" where
  "context_ops L fs obj s =
     bind_outcome (member L fs obj ''context'' s)
       (\<lambda>ctx. Ok (member_addr L ibv_context_fields ctx ''ops''))"

definition ibv_alloc_mw :: "verbs_lib \<Rightarrow> u64 \<Rightarrow> u32 \<Rightarrow> vstate \<Rightarrow> (u64 \<times> vstate) outcome" where
  "ibv_alloc_mw L pd ty s =
     bind_outcome (context_ops L ibv_pd_fields pd s) (\<lambda>ops.
     bind_outcome (member L ibv_context_ops_fields ops ''alloc_mw'' s) (\<lambda>p.
     if p = 0 then null_enosys s
     else call_member L ibv_context_ops_fields ops ''alloc_mw'' [pd, ucast ty] s))"

definition ibv_dealloc_mw :: "verbs_lib \<Rightarrow> u64 \<Rightarrow> vstate \<Rightarrow> (int \<times> vstate) outcome" where
  "ibv_dealloc_mw L mw s =
     bind_outcome (context_ops L ibv_mw_fields mw s)
       (\<lambda>ops. returns as_int (call_member L ibv_context_ops_fields ops ''dealloc_mw'' [mw] s))"

definition ibv_inc_rkey :: "u32 \<Rightarrow> u32" where
  "ibv_inc_rkey key =
     (let mask = 0x000000ff;
          newtag = ucast ((key + 1) AND mask) :: byte
      in (key AND NOT mask) OR ucast newtag)"

definition IBV_MW_TYPE_1 :: u32 where "IBV_MW_TYPE_1 = 1"

definition ibv_bind_mw :: "verbs_lib \<Rightarrow> u64 \<Rightarrow> u64 \<Rightarrow> u64 \<Rightarrow> vstate \<Rightarrow> (int \<times> vstate) outcome" where
  "ibv_bind_mw L qp mw mw_bind s =
     bind_outcome (member L ibv_mw_fields mw ''type'' s) (\<lambda>ty.
     if as_u32 ty \<noteq> IBV_MW_TYPE_1 then Ok (EINVAL, s)
     else bind_outcome (context_ops L ibv_mw_fields mw s)
       (\<lambda>ops. returns as_int
          (call_member L ibv_context_ops_fields ops ''bind_mw'' [qp, mw, mw_bind] s)))"

definition ibv_poll_cq :: "verbs_lib \<Rightarrow> u64 \<Rightarrow> int \<Rightarrow> u64 \<Rightarrow> vstate \<Rightarrow> (int \<times> vstate) outcome" where
  "ibv_poll_cq L cq num_entries wc s =
     bind_outcome (context_ops L ibv_cq_fields cq s)
       (\<lambda>ops. returns as_int
          (call_member L ibv_context_ops_fields ops ''poll_cq'' [cq, word_of_int num_entries, wc] s))"

definition ibv_req_notify_cq :: "verbs_lib \<Rightarrow> u64 \<Rightarrow> int \<Rightarrow> vstate \<Rightarrow> (int \<times> vstate) outcome" where
  "ibv_req_notify_cq L cq solicited_only s =
     bind_outcome (context_ops L ibv_cq_fields cq s)
       (\<lambda>ops. returns as_int
          (call_member L ibv_context_ops_fields ops ''req_notify_cq''
             [cq, word_of_int solicited_only] s))"

definition ibv_post_srq_recv ::
  "verbs_lib \<Rightarrow> u64 \<Rightarrow> u64 \<Rightarrow> u64 \<Rightarrow> vstate \<Rightarrow> (int \<times> vstate) outcome" where
  "ibv_post_srq_recv L srq_ptr recv_wr bad_recv_wr s =
     bind_outcome (context_ops L ibv_srq_fields srq_ptr s)
       (\<lambda>ops. returns as_int
          (call_member L ibv_context_ops_fields ops ''post_srq_recv'' [srq_ptr, recv_wr, bad_recv_wr] s))"

definition ibv_post_send :: "verbs_lib \<Rightarrow> u64 \<Rightarrow> u64 \<Rightarrow> u64 \<Rightarrow> vstate \<Rightarrow> (int \<times> vstate) outcome" where
  "ibv_post_send L qp wr bad_wr s =
     bind_outcome (context_ops L ibv_qp_fields qp s)
       (\<lambda>ops. returns as_int
          (call_member L ibv_context_ops_fields ops ''post_send'' [qp, wr, bad_wr] s))"

definition ibv_post_recv :: "verbs_lib \<Rightarrow> u64 \<Rightarrow> u64 \<Rightarrow> u64 \<Rightarrow> vstate \<Rightarrow> (int \<times> vstate) outcome" where
  "ibv_post_recv L qp wr bad_wr s =
     bind_outcome (context_ops L ibv_qp_fields qp s)
       (\<lambda>ops. returns as_int
          (call_member L ibv_context_ops_fields ops ''post_recv'' [qp, wr, bad_wr] s))"

text \<open>\<^verbatim>\<open>1 << qpt\<close> shifts an \<^verbatim>\<open>int\<close>: a shift by 31 or more is undefined.\<close>

definition ibv_is_qpt_supported :: "u32 \<Rightarrow> ibv_qp_type \<Rightarrow> int outcome" where
  "ibv_is_qpt_supported caps qpt =
     (if ibv_qp_type_value qpt < 31
      then Ok (of_bool (caps AND push_bit (ibv_qp_type_value qpt) 1 \<noteq> 0))
      else UB)"

section \<open>Functions of the extended completion queue and of the work queue\<close>

definition ibv_cq_ex_to_cq :: "u64 \<Rightarrow> u64" where
  "ibv_cq_ex_to_cq cq = cq"

definition ibv_start_poll :: "verbs_lib \<Rightarrow> u64 \<Rightarrow> u64 \<Rightarrow> vstate \<Rightarrow> (int \<times> vstate) outcome" where
  "ibv_start_poll L cq attr s =
     returns as_int (call_member L ibv_cq_ex_fields cq ''start_poll'' [cq, attr] s)"

definition ibv_next_poll :: "verbs_lib \<Rightarrow> u64 \<Rightarrow> vstate \<Rightarrow> (int \<times> vstate) outcome" where
  "ibv_next_poll L cq s = returns as_int (call_member L ibv_cq_ex_fields cq ''next_poll'' [cq] s)"

definition ibv_end_poll :: "verbs_lib \<Rightarrow> u64 \<Rightarrow> vstate \<Rightarrow> (unit \<times> vstate) outcome" where
  "ibv_end_poll L cq s = returns as_void (call_member L ibv_cq_ex_fields cq ''end_poll'' [cq] s)"

definition ibv_wc_read_opcode :: "verbs_lib \<Rightarrow> u64 \<Rightarrow> vstate \<Rightarrow> (int \<times> vstate) outcome" where
  "ibv_wc_read_opcode L cq s =
     returns as_int (call_member L ibv_cq_ex_fields cq ''read_opcode'' [cq] s)"

definition ibv_wc_read_vendor_err :: "verbs_lib \<Rightarrow> u64 \<Rightarrow> vstate \<Rightarrow> (u32 \<times> vstate) outcome" where
  "ibv_wc_read_vendor_err L cq s =
     returns as_u32 (call_member L ibv_cq_ex_fields cq ''read_vendor_err'' [cq] s)"

definition ibv_wc_read_byte_len :: "verbs_lib \<Rightarrow> u64 \<Rightarrow> vstate \<Rightarrow> (u32 \<times> vstate) outcome" where
  "ibv_wc_read_byte_len L cq s =
     returns as_u32 (call_member L ibv_cq_ex_fields cq ''read_byte_len'' [cq] s)"

definition ibv_wc_read_imm_data :: "verbs_lib \<Rightarrow> u64 \<Rightarrow> vstate \<Rightarrow> (u32 \<times> vstate) outcome" where
  "ibv_wc_read_imm_data L cq s =
     returns as_u32 (call_member L ibv_cq_ex_fields cq ''read_imm_data'' [cq] s)"

definition ibv_wc_read_invalidated_rkey :: "verbs_lib \<Rightarrow> u64 \<Rightarrow> vstate \<Rightarrow> (u32 \<times> vstate) outcome" where
  "ibv_wc_read_invalidated_rkey L cq s =
     returns as_u32 (call_member L ibv_cq_ex_fields cq ''read_imm_data'' [cq] s)"

definition ibv_wc_read_qp_num :: "verbs_lib \<Rightarrow> u64 \<Rightarrow> vstate \<Rightarrow> (u32 \<times> vstate) outcome" where
  "ibv_wc_read_qp_num L cq s =
     returns as_u32 (call_member L ibv_cq_ex_fields cq ''read_qp_num'' [cq] s)"

definition ibv_wc_read_src_qp :: "verbs_lib \<Rightarrow> u64 \<Rightarrow> vstate \<Rightarrow> (u32 \<times> vstate) outcome" where
  "ibv_wc_read_src_qp L cq s =
     returns as_u32 (call_member L ibv_cq_ex_fields cq ''read_src_qp'' [cq] s)"

definition ibv_wc_read_wc_flags :: "verbs_lib \<Rightarrow> u64 \<Rightarrow> vstate \<Rightarrow> (u32 \<times> vstate) outcome" where
  "ibv_wc_read_wc_flags L cq s =
     returns as_u32 (call_member L ibv_cq_ex_fields cq ''read_wc_flags'' [cq] s)"

definition ibv_wc_read_slid :: "verbs_lib \<Rightarrow> u64 \<Rightarrow> vstate \<Rightarrow> (u32 \<times> vstate) outcome" where
  "ibv_wc_read_slid L cq s =
     returns as_u32 (call_member L ibv_cq_ex_fields cq ''read_slid'' [cq] s)"

definition ibv_wc_read_sl :: "verbs_lib \<Rightarrow> u64 \<Rightarrow> vstate \<Rightarrow> (byte \<times> vstate) outcome" where
  "ibv_wc_read_sl L cq s =
     returns as_u8 (call_member L ibv_cq_ex_fields cq ''read_sl'' [cq] s)"

definition ibv_wc_read_dlid_path_bits :: "verbs_lib \<Rightarrow> u64 \<Rightarrow> vstate \<Rightarrow> (byte \<times> vstate) outcome" where
  "ibv_wc_read_dlid_path_bits L cq s =
     returns as_u8 (call_member L ibv_cq_ex_fields cq ''read_dlid_path_bits'' [cq] s)"

definition ibv_wc_read_completion_ts :: "verbs_lib \<Rightarrow> u64 \<Rightarrow> vstate \<Rightarrow> (u64 \<times> vstate) outcome" where
  "ibv_wc_read_completion_ts L cq s =
     returns id (call_member L ibv_cq_ex_fields cq ''read_completion_ts'' [cq] s)"

definition ibv_wc_read_completion_wallclock_ns :: "verbs_lib \<Rightarrow> u64 \<Rightarrow> vstate \<Rightarrow> (u64 \<times> vstate) outcome" where
  "ibv_wc_read_completion_wallclock_ns L cq s =
     returns id (call_member L ibv_cq_ex_fields cq ''read_completion_wallclock_ns'' [cq] s)"

definition ibv_wc_read_cvlan :: "verbs_lib \<Rightarrow> u64 \<Rightarrow> vstate \<Rightarrow> (u16 \<times> vstate) outcome" where
  "ibv_wc_read_cvlan L cq s =
     returns as_u16 (call_member L ibv_cq_ex_fields cq ''read_cvlan'' [cq] s)"

definition ibv_wc_read_flow_tag :: "verbs_lib \<Rightarrow> u64 \<Rightarrow> vstate \<Rightarrow> (u32 \<times> vstate) outcome" where
  "ibv_wc_read_flow_tag L cq s =
     returns as_u32 (call_member L ibv_cq_ex_fields cq ''read_flow_tag'' [cq] s)"

definition ibv_wc_read_tm_info :: "verbs_lib \<Rightarrow> u64 \<Rightarrow> u64 \<Rightarrow> vstate \<Rightarrow> (unit \<times> vstate) outcome" where
  "ibv_wc_read_tm_info L cq tm_info s =
     returns as_void (call_member L ibv_cq_ex_fields cq ''read_tm_info'' [cq, tm_info] s)"

definition ibv_post_wq_recv ::
  "verbs_lib \<Rightarrow> u64 \<Rightarrow> u64 \<Rightarrow> u64 \<Rightarrow> vstate \<Rightarrow> (int \<times> vstate) outcome" where
  "ibv_post_wq_recv L wq recv_wr bad_recv_wr s =
     returns as_int (call_member L ibv_wq_fields wq ''post_recv'' [wq, recv_wr, bad_recv_wr] s)"

end
