(* ===== verification/Verbs_Driver.thy ===== *)
theory Verbs_Driver
  imports Verbs_Ext
begin

text \<open>
  What the inline functions of \<^verbatim>\<open>src/sys/verbs.h\<close> promise. A driver is described abstractly: it has
  no extended context, or it was compiled with its own version of \<^verbatim>\<open>struct verbs_context\<close>, older
  or newer than the application's, and put its operations there. The main theorem is that every
  inline function calls the operation the driver offers under that name and takes its fallback
  otherwise, without reading outside the driver's object.
\<close>

section \<open>Drivers\<close>

definition verbs_ops :: "(string \<times> ctype) list" where
  "verbs_ops = take 24 verbs_context_fields"

definition verbs_base :: "(string \<times> ctype) list" where
  "verbs_base = drop 24 verbs_context_fields"

text \<open>The operations before \<^verbatim>\<open>_ABI_placeholder3\<close> of an older version of the struct (some of the
  newest operations missing) or of a newer one (operations added in front).\<close>

definition driver_version :: "(string \<times> ctype) list \<Rightarrow> bool" where
  "driver_version fs \<longleftrightarrow>
     (\<exists>k. fs = drop k verbs_ops) \<or>
     (\<exists>pre. pointers pre \<and> set (member_names pre) \<inter> set (member_names verbs_context_fields) = {}
        \<and> fs = pre @ verbs_ops)"

datatype driver =
    Basic_driver u64
  | Extended_driver "(string \<times> ctype) list" "string \<Rightarrow> u64"

text \<open>The pointer a driver offers under a name, 0 for none.\<close>

primrec offers :: "driver \<Rightarrow> string \<Rightarrow> u64" where
  "offers (Basic_driver c) f = 0"
| "offers (Extended_driver fs ops) f = (if f \<in> set (member_names fs) then ops f else 0)"

definition driver_addr :: "verbs_lib \<Rightarrow> (string \<times> ctype) list \<Rightarrow> u64 \<Rightarrow> string \<Rightarrow> u64" where
  "driver_addr L gs ctx f =
     ctx - of_nat (offset_of (lib_abi L) gs ''context'') + of_nat (offset_of (lib_abi L) gs f)"

text \<open>\<open>lays_out L ctx d s\<close>: in \<open>s\<close> the context at \<open>ctx\<close> is one the driver \<open>d\<close> made with its own
  version of the struct. Cells the driver's struct does not have may be missing.\<close>

primrec lays_out :: "verbs_lib \<Rightarrow> u64 \<Rightarrow> driver \<Rightarrow> vstate \<Rightarrow> bool" where
  "lays_out L ctx (Basic_driver c) s \<longleftrightarrow>
     c \<noteq> VERBS_ABI_IS_EXTENDED \<and> member L ibv_context_fields ctx ''abi_compat'' s = Ok c"
| "lays_out L ctx (Extended_driver fs ops) s \<longleftrightarrow>
     driver_version fs \<and>
     size_of (lib_abi L) (Struct (fs @ verbs_base)) < 2 ^ 64 \<and>
     size_of (lib_abi L) (Struct verbs_context_fields) < 2 ^ 64 \<and>
     member L ibv_context_fields ctx ''abi_compat'' s = Ok VERBS_ABI_IS_EXTENDED \<and>
     load (driver_addr L (fs @ verbs_base) ctx ''sz'') s =
       Ok (of_nat (size_of (lib_abi L) (Struct (fs @ verbs_base)))) \<and>
     (\<forall>f \<in> set (member_names fs). load (driver_addr L (fs @ verbs_base) ctx f) s = Ok (ops f))"

section \<open>Versions of the struct\<close>

lemma verbs_context_split: "verbs_context_fields = verbs_ops @ verbs_base"
  by (simp add: verbs_ops_def verbs_base_def)

lemma pointers_verbs_ops: "pointers verbs_ops"
  by (simp add: verbs_ops_def verbs_context_fields_def pointers_def)

lemma names_verbs_context: "distinct (member_names verbs_context_fields)"
  by (simp add: verbs_context_fields_def)

lemma names_verbs_base: "member_names verbs_base = [''_ABI_placeholder3'', ''sz'', ''context'']"
  by (simp add: verbs_base_def verbs_context_fields_def)

lemma verbs_base_eq:
  "verbs_base =
     [(''_ABI_placeholder3'', U64), (''sz'', U64), (''context'', Struct ibv_context_fields)]"
  by (simp add: verbs_base_def verbs_context_fields_def)

lemma align_verbs_base: "fields_align verbs_base = 8"
  using align_values(2) [of ibv_context_fields] by (auto simp: verbs_base_eq)

lemma align_with_base: "fields_align (fs @ verbs_base) = 8"
  using align_verbs_base align_values(2) [of fs] by (auto simp: fields_align_append)

lemma verbs_ops_member:
  "f \<in> set (member_names verbs_ops) \<Longrightarrow> f \<in> set (member_names verbs_context_fields)"
  by (simp add: verbs_context_split)

text \<open>Members both versions have are at the same address and at the same distance from the end.\<close>

lemma prepend_addr:
  assumes "pointers pre" "fields_align gs = 8" "f \<notin> set (member_names pre)"
    "''context'' \<notin> set (member_names pre)"
  shows "driver_addr L (pre @ gs) ctx f = driver_addr L gs ctx f"
    "size_of abi (Struct (pre @ gs)) - offset_of abi (pre @ gs) f =
       size_of abi (Struct gs) - offset_of abi gs f"
  using prepend_pointers [OF assms(1,2)] assms(3,4)
  by (simp_all add: driver_addr_def del: size_of.simps)

lemma pointers_append: "pointers (fs @ gs) \<longleftrightarrow> pointers fs \<and> pointers gs"
  by (simp add: pointers_def)

text \<open>Every version relates to the application's by a prefix of pointers on one side.\<close>

lemma driver_versionE:
  assumes "driver_version fs"
  obtains (older) pre where "pointers pre"
      "verbs_context_fields = pre @ fs @ verbs_base"
      "set (member_names pre) \<inter> set (member_names (fs @ verbs_base)) = {}"
  | (newer) pre where "pointers pre" "fs @ verbs_base = pre @ verbs_context_fields"
      "set (member_names pre) \<inter> set (member_names verbs_context_fields) = {}"
      "fs = pre @ verbs_ops"
  using assms unfolding driver_version_def
proof (elim disjE exE conjE)
  fix k assume fs: "fs = drop k verbs_ops"
  have split: "verbs_context_fields = take k verbs_ops @ fs @ verbs_base"
    by (simp add: fs verbs_context_split)
  have ptr: "pointers (take k verbs_ops)"
    using pointers_verbs_ops pointers_append [of "take k verbs_ops" "drop k verbs_ops"] by simp
  have disj: "set (member_names (take k verbs_ops)) \<inter> set (member_names (fs @ verbs_base)) = {}"
    using names_verbs_context by (subst (asm) split) auto
  show thesis by (rule older [OF ptr split disj])
qed (auto intro: newer simp: verbs_context_split)

lemma version_addr:
  assumes v: "driver_version fs" and f: "f \<in> set (member_names (fs @ verbs_base))"
    and a: "f \<in> set (member_names verbs_context_fields)"
  shows "driver_addr L (fs @ verbs_base) ctx f = driver_addr L verbs_context_fields ctx f \<and>
    size_of abi (Struct (fs @ verbs_base)) - offset_of abi (fs @ verbs_base) f =
       size_of abi (Struct verbs_context_fields) - offset_of abi verbs_context_fields f"
proof (cases rule: driver_versionE [OF v])
  case (1 pre)
  have "f \<notin> set (member_names pre)" "''context'' \<notin> set (member_names pre)"
    using 1(3) f by (auto simp: names_verbs_base)
  from prepend_addr [OF 1(1) align_with_base this]
  show ?thesis by (simp add: 1(2) del: size_of.simps)
next
  case (2 pre)
  have al: "fields_align verbs_context_fields = 8"
    unfolding verbs_context_split by (rule align_with_base)
  have "f \<notin> set (member_names pre)" "''context'' \<notin> set (member_names pre)"
    using 2(3) a by (auto simp: verbs_context_split names_verbs_base)
  from prepend_addr [OF 2(1) al this]
  show ?thesis by (simp add: 2(2) del: size_of.simps)
qed

lemma verbs_member_addr:
  "member_addr L verbs_context_fields
     (ctx - of_nat (offset_of (lib_abi L) verbs_context_fields ''context'')) f =
   driver_addr L verbs_context_fields ctx f"
  by (simp add: member_addr_def driver_addr_def)

text \<open>\<^verbatim>\<open>sz\<close> covers an operation iff the driver's version of the struct has it.\<close>

lemma version_covers:
  assumes v: "driver_version fs" and f: "f \<in> set (member_names verbs_ops)"
  shows "size_of abi (Struct (fs @ verbs_base)) <
           size_of abi (Struct verbs_context_fields) - offset_of abi verbs_context_fields f \<longleftrightarrow>
         f \<notin> set (member_names fs)"
proof (cases "f \<in> set (member_names fs)")
  case True
  with version_addr [OF v, of f L ctx abi] f show ?thesis
    by (auto simp: verbs_context_split)
next
  case False
  show ?thesis
  proof (cases rule: driver_versionE [OF v])
    case (1 pre)
    have "f \<in> set (member_names pre)"
      using f False arg_cong [OF 1(2), of "\<lambda>fs. set (member_names fs)"] names_verbs_context
      by (auto simp: verbs_context_split)
    from prepend_pointers(3) [OF 1(1) align_with_base this, of abi] show ?thesis
      using False by (simp add: 1(2) del: size_of.simps)
  next
    case (2 pre)
    with f False show ?thesis by simp
  qed
qed

section \<open>Looking an operation up\<close>

lemma version_test:
  assumes v: "driver_version fs" and f: "f \<in> set (member_names verbs_ops)"
    and s: "size_of abi (Struct (fs @ verbs_base)) < 2 ^ 64"
      "size_of abi (Struct verbs_context_fields) < 2 ^ 64"
  shows "(of_nat (size_of abi (Struct (fs @ verbs_base))) :: u64) <
           of_nat (size_of abi (Struct verbs_context_fields))
             - of_nat (offset_of abi verbs_context_fields f) \<longleftrightarrow>
         f \<notin> set (member_names fs)"
proof -
  let ?a = "size_of abi (Struct verbs_context_fields)" and ?o = "offset_of abi verbs_context_fields f"
  have "of_nat ?a - of_nat ?o = (of_nat (?a - ?o) :: u64)"
    using offset_of_le_size [of abi verbs_context_fields f] by (simp del: size_of.simps)
  moreover have "unat (of_nat n :: u64) = n" if "n \<le> m" "m < 2 ^ 64" for n m :: nat
    using that by (simp add: unsigned_of_nat take_bit_nat_eq_self)
  ultimately show ?thesis
    using s version_covers [OF v f, of abi]
    by (metis (no_types, lifting) diff_le_self order_refl word_less_nat_alt)
qed

lemma verbs_get_ctx_op_offers:
  assumes d: "lays_out L ctx d s" and f: "f \<in> set (member_names verbs_ops)"
  defines "v \<equiv> ctx - of_nat (offset_of (lib_abi L) verbs_context_fields ''context'')"
  shows "verbs_get_ctx_op L ctx f s = Ok (if offers d f = 0 then None else Some v)"
    "offers d f \<noteq> 0 \<Longrightarrow> member L verbs_context_fields v f s = Ok (offers d f)"
proof -
  have "verbs_get_ctx_op L ctx f s = Ok (if offers d f = 0 then None else Some v) \<and>
    (offers d f \<noteq> 0 \<longrightarrow> member L verbs_context_fields v f s = Ok (offers d f))"
  proof (cases d)
    case (Basic_driver c)
    with d show ?thesis by (simp add: verbs_get_ctx_op_def verbs_get_ctx_def)
  next
    case (Extended_driver fs ops)
    note [simp] = Extended_driver verbs_member_addr [of L ctx, folded v_def]
    have ver: "driver_version fs" using d by simp
    have sz: "driver_addr L (fs @ verbs_base) ctx ''sz'' = driver_addr L verbs_context_fields ctx ''sz''"
      using version_addr [OF ver, of "''sz''"] by (simp add: names_verbs_base verbs_context_split)
    have get: "verbs_get_ctx L ctx s = Ok (Some v)"
      using d by (simp add: verbs_get_ctx_def v_def)
    note lt = version_test [OF ver f, of "lib_abi L"]
    have small: "size_of (lib_abi L) (Struct (fs @ verbs_base)) < 2 ^ 64"
      "size_of (lib_abi L) (Struct verbs_context_fields) < 2 ^ 64" using d by simp_all
    have "member L verbs_context_fields v ''sz'' s =
        Ok (of_nat (size_of (lib_abi L) (Struct (fs @ verbs_base))))"
      using d by (simp add: member_def sz [symmetric] del: size_of.simps)
    then have test: "verbs_get_ctx_op L ctx f s =
        (if f \<notin> set (member_names fs) then Ok None
         else bind_outcome (member L verbs_context_fields v f s)
           (\<lambda>p. if p = 0 then Ok None else Ok (Some v)))"
      by (simp add: verbs_get_ctx_op_def get lt [OF small] del: size_of.simps)
    have "member L verbs_context_fields v f s = Ok (ops f)" if m: "f \<in> set (member_names fs)"
    proof -
      from m have "f \<in> set (member_names (fs @ verbs_base))" by simp
      from version_addr [OF ver this verbs_ops_member [OF f], THEN conjunct1, symmetric, of L ctx]
      show ?thesis using d m by (simp add: member_def)
    qed
    with test show ?thesis by (cases "f \<in> set (member_names fs)") simp_all
  qed
  then show "verbs_get_ctx_op L ctx f s = Ok (if offers d f = 0 then None else Some v)"
    "offers d f \<noteq> 0 \<Longrightarrow> member L verbs_context_fields v f s = Ok (offers d f)" by simp_all
qed

lemma with_op_offers:
  assumes "lays_out L ctx d s" "f \<in> set (member_names verbs_ops)"
  shows "with_op L ctx f missing use s =
    (if offers d f = 0 then missing s
     else use (ctx - of_nat (offset_of (lib_abi L) verbs_context_fields ''context'')) s)"
    "offers d f \<noteq> 0 \<Longrightarrow>
       call_member L verbs_context_fields
         (ctx - of_nat (offset_of (lib_abi L) verbs_context_fields ''context'')) f args s =
       Ok (call_fn L (offers d f) args s)"
  using verbs_get_ctx_op_offers [OF assms]
  by (simp_all add: with_op_def call_member_def)

lemma verbs_op_names:
  "member_names verbs_ops =
     [''alloc_parent_domain'', ''dealloc_td'', ''alloc_td'', ''modify_cq'', ''post_srq_ops'',
      ''destroy_rwq_ind_table'', ''create_rwq_ind_table'', ''destroy_wq'', ''modify_wq'',
      ''create_wq'', ''query_rt_values'', ''create_cq_ex'', ''priv'', ''query_device_ex'',
      ''ibv_destroy_flow'', ''ABI_placeholder2'', ''ibv_create_flow'', ''ABI_placeholder1'',
      ''open_qp'', ''create_qp_ex'', ''get_srq_num'', ''create_srq_ex'', ''open_xrcd'',
      ''close_xrcd'']"
  by (simp add: verbs_ops_def verbs_context_fields_def)

section \<open>What the extended functions promise\<close>

text \<open>The abstract call: the driver's operation if it offers one, \<open>err\<close> otherwise; functions that
  return a pointer set \<^verbatim>\<open>errno\<close> and return NULL.\<close>

definition ext_ptr :: "verbs_lib \<Rightarrow> driver \<Rightarrow> string \<Rightarrow> u64 list \<Rightarrow> vstate \<Rightarrow> (u64 \<times> vstate) outcome" where
  "ext_ptr L d f args s =
     Ok (if offers d f = 0 then (0, s\<lparr>errno := ENOSYS\<rparr>) else call_fn L (offers d f) args s)"

definition ext_int :: "verbs_lib \<Rightarrow> driver \<Rightarrow> string \<Rightarrow> int \<Rightarrow> u64 list \<Rightarrow> vstate \<Rightarrow> (int \<times> vstate) outcome" where
  "ext_int L d f err args s =
     Ok (if offers d f = 0 then (err, s) else map_prod as_int id (call_fn L (offers d f) args s))"

lemma with_op_ptr:
  assumes "lays_out L ctx d s" "f \<in> set (member_names verbs_ops)"
  shows "with_op L ctx f null_enosys (\<lambda>v. call_member L verbs_context_fields v f args) s =
    ext_ptr L d f args s"
  by (simp add: ext_ptr_def null_enosys_def with_op_offers [OF assms])

lemma with_op_int:
  assumes "lays_out L ctx d s" "f \<in> set (member_names verbs_ops)"
  shows "with_op L ctx f (\<lambda>s. Ok (err, s))
      (\<lambda>v s. returns as_int (call_member L verbs_context_fields v f args s)) s =
    ext_int L d f err args s"
  by (simp add: ext_int_def returns_def with_op_offers [OF assms] split: prod.split)

lemmas ext_call_defs =
  ibv_create_flow_def ibv_destroy_flow_def ibv_open_xrcd_def ibv_create_cq_ex_def
  ibv_modify_cq_def ibv_get_srq_num_def ibv_alloc_td_def ibv_dealloc_td_def
  ibv_alloc_parent_domain_def ibv_query_rt_values_ex_def ibv_open_qp_def ibv_modify_wq_def
  ibv_destroy_wq_def ibv_create_rwq_ind_table_def ibv_destroy_rwq_ind_table_def

definition has_context :: "verbs_lib \<Rightarrow> (string \<times> ctype) list \<Rightarrow> u64 \<Rightarrow> u64 \<Rightarrow> vstate \<Rightarrow> bool" where
  "has_context L fs obj ctx s \<longleftrightarrow> member L fs obj ''context'' s = Ok ctx"

text \<open>What \<^verbatim>\<open>ibv_create_wq\<close> does to a work queue the driver returns.\<close>

definition init_wq :: "verbs_lib \<Rightarrow> u64 \<Rightarrow> vstate \<Rightarrow> (u64 \<times> vstate) outcome" where
  "init_wq L wq s =
     bind_outcome (store (member_addr L ibv_wq_fields wq ''events_completed'') 0 s)
       (\<lambda>s. Ok (wq, lib_cond_init L (member_addr L ibv_wq_fields wq ''cond'')
                  (lib_mutex_init L (member_addr L ibv_wq_fields wq ''mutex'') s)))"

lemma create_wq_offers:
  assumes d: "lays_out L ctx d s"
  shows "ibv_create_wq L ctx a s =
    bind_outcome (ext_ptr L d ''create_wq'' [ctx, a] s)
      (\<lambda>(wq, s). if wq = 0 then Ok (0, s) else init_wq L wq s)"
  by (simp add: ibv_create_wq_def with_op_offers [OF d] verbs_op_names ext_ptr_def null_enosys_def
      init_wq_def split: prod.split)

lemma post_srq_ops_offers:
  assumes d: "lays_out L ctx d s" and "has_context L ibv_srq_fields x ctx s"
  shows "ibv_post_srq_ops L x op b s =
    (if offers d ''post_srq_ops'' = 0 then bind_outcome (store b op s) int_enosys
     else ext_int L d ''post_srq_ops'' ENOSYS [x, op, b] s)"
  using assms(2)
  by (simp add: ibv_post_srq_ops_def has_context_def with_op_offers [OF d] verbs_op_names
      ext_int_def returns_def split: prod.split)

text \<open>C26: The guarded inline functions of the extended interface do what the driver's own version of the
  struct says, whatever that version is: older than the application's header (operations missing at
  the top) or newer (more of them). These are \<^verbatim>\<open>ibv_open_xrcd\<close>, \<^verbatim>\<open>ibv_create_cq_ex\<close>, \<^verbatim>\<open>ibv_alloc_td\<close>,
  \<^verbatim>\<open>ibv_dealloc_td\<close>, \<^verbatim>\<open>ibv_alloc_parent_domain\<close>, \<^verbatim>\<open>ibv_open_qp\<close>, \<^verbatim>\<open>ibv_create_rwq_ind_table\<close>,
  \<^verbatim>\<open>ibv_destroy_rwq_ind_table\<close>, \<^verbatim>\<open>ibv_query_rt_values_ex\<close>, \<^verbatim>\<open>ibv_create_wq\<close>, \<^verbatim>\<open>ibv_modify_wq\<close>,
  \<^verbatim>\<open>ibv_destroy_wq\<close>, \<^verbatim>\<open>ibv_create_flow\<close>, \<^verbatim>\<open>ibv_destroy_flow\<close>, \<^verbatim>\<open>ibv_modify_cq\<close>, \<^verbatim>\<open>ibv_get_srq_num\<close> and
  \<^verbatim>\<open>ibv_post_srq_ops\<close>; not \<^verbatim>\<open>ibv_close_xrcd\<close>, which has no guard (C31), nor the functions that fall back on
  a basic operation. Each of the seventeen calls the operation the driver offers under its
  name with its arguments, and where the driver offers none it returns NULL with \<^verbatim>\<open>errno\<close> set to
  \<^verbatim>\<open>ENOSYS\<close>, or \<^verbatim>\<open>ENOSYS\<close>, without reading a cell outside the driver's object; only
  \<^verbatim>\<open>ibv_destroy_flow\<close> returns \<^verbatim>\<open>-ENOSYS\<close>. Where \<^verbatim>\<open>ibv_post_srq_ops\<close> is missing the first operation
  is reported as the bad one, and a work queue the driver made is initialised before it is
  returned.\<close>

theorem ext_verbs_dispatch:
  assumes d: "lays_out L ctx d s"
  shows "ibv_open_xrcd L ctx a s = ext_ptr L d ''open_xrcd'' [ctx, a] s \<and>
    ibv_create_cq_ex L ctx a s = ext_ptr L d ''create_cq_ex'' [ctx, a] s \<and>
    ibv_alloc_td L ctx a s = ext_ptr L d ''alloc_td'' [ctx, a] s \<and>
    ibv_alloc_parent_domain L ctx a s = ext_ptr L d ''alloc_parent_domain'' [ctx, a] s \<and>
    ibv_open_qp L ctx a s = ext_ptr L d ''open_qp'' [ctx, a] s \<and>
    ibv_create_rwq_ind_table L ctx a s = ext_ptr L d ''create_rwq_ind_table'' [ctx, a] s \<and>
    ibv_query_rt_values_ex L ctx a s = ext_int L d ''query_rt_values'' ENOSYS [ctx, a] s \<and>
    ibv_create_wq L ctx a s =
      bind_outcome (ext_ptr L d ''create_wq'' [ctx, a] s)
        (\<lambda>(wq, s). if wq = 0 then Ok (0, s) else init_wq L wq s) \<and>
    (has_context L ibv_qp_fields x ctx s \<longrightarrow>
       ibv_create_flow L x a s = ext_ptr L d ''ibv_create_flow'' [x, a] s) \<and>
    (has_context L ibv_flow_fields x ctx s \<longrightarrow>
       ibv_destroy_flow L x s = ext_int L d ''ibv_destroy_flow'' (- ENOSYS) [x] s) \<and>
    (has_context L ibv_cq_fields x ctx s \<longrightarrow>
       ibv_modify_cq L x a s = ext_int L d ''modify_cq'' ENOSYS [x, a] s) \<and>
    (has_context L ibv_srq_fields x ctx s \<longrightarrow>
       ibv_get_srq_num L x a s = ext_int L d ''get_srq_num'' ENOSYS [x, a] s \<and>
       ibv_post_srq_ops L x op b s =
         (if offers d ''post_srq_ops'' = 0 then bind_outcome (store b op s) int_enosys
          else ext_int L d ''post_srq_ops'' ENOSYS [x, op, b] s)) \<and>
    (has_context L ibv_td_fields x ctx s \<longrightarrow>
       ibv_dealloc_td L x s = ext_int L d ''dealloc_td'' ENOSYS [x] s) \<and>
    (has_context L ibv_wq_fields x ctx s \<longrightarrow>
       ibv_modify_wq L x a s = ext_int L d ''modify_wq'' ENOSYS [x, a] s \<and>
       ibv_destroy_wq L x s = ext_int L d ''destroy_wq'' ENOSYS [x] s) \<and>
    (has_context L ibv_rwq_ind_table_fields x ctx s \<longrightarrow>
       ibv_destroy_rwq_ind_table L x s = ext_int L d ''destroy_rwq_ind_table'' ENOSYS [x] s)"
  by (intro conjI impI)
     (simp_all add: ext_call_defs int_enosys_def [abs_def] verbs_op_names has_context_def
       with_op_ptr [OF d] with_op_int [OF d] create_wq_offers [OF d] post_srq_ops_offers [OF d])

section \<open>Casts between struct types\<close>

text \<open>\<open>extends_struct abi fs gs\<close>: every member of \<open>fs\<close> is a member of \<open>gs\<close> at the same offset and
  of the same type, so a pointer to a \<open>gs\<close> may be used as a pointer to an \<open>fs\<close>.\<close>

definition extends_struct :: "abi \<Rightarrow> (string \<times> ctype) list \<Rightarrow> (string \<times> ctype) list \<Rightarrow> bool" where
  "extends_struct abi fs gs \<longleftrightarrow>
     list_all (\<lambda>f. offset_of abi gs f = offset_of abi fs f \<and> map_of gs f = map_of fs f)
       (member_names fs)"

lemma extends_structI:
  assumes "take (length fs) gs = fs"
  shows "extends_struct abi fs gs"
proof -
  have gs: "gs = fs @ drop (length fs) gs"
    using assms by (metis append_take_drop_id)
  have "map_of (fs @ hs) f = map_of fs f" if "f \<in> set (member_names fs)" for f hs
    using that by (induction fs) auto
  then show ?thesis
    by (subst gs)
       (auto simp: extends_struct_def list_all_iff offset_of_def offset_from_append_in)
qed

lemma extended_structs:
  "extends_struct abi ibv_cq_fields ibv_cq_ex_fields"
  "extends_struct abi ibv_srq_init_attr_fields ibv_srq_init_attr_ex_fields"
  "extends_struct abi ibv_qp_init_attr_fields ibv_qp_init_attr_ex_fields"
  by (rule extends_structI;
      simp add: ibv_cq_fields_def ibv_cq_ex_fields_def ibv_srq_init_attr_fields_def
        ibv_srq_init_attr_ex_fields_def ibv_qp_init_attr_fields_def ibv_qp_init_attr_ex_fields_def)+

text \<open>The members of the flow specification union share the header the application reads first.\<close>

lemma flow_spec_headers:
  "list_all (\<lambda>m. extends_struct abi [(''type'', U32), (''size'', U16)] (snd m)) ibv_flow_spec_members"
  by (simp add: ibv_flow_spec_members_def)
     (intro conjI extends_structI; simp add: struct_defs)

text \<open>C30: The casts of the header are sound: \<^verbatim>\<open>ibv_cq\<close>, \<^verbatim>\<open>ibv_srq_init_attr\<close> and
  \<^verbatim>\<open>ibv_qp_init_attr\<close> are layout prefixes of their extended structs, whatever the sizes of the
  \<^verbatim>\<open>pthread\<close> types, so polling an extended queue through \<^verbatim>\<open>ibv_cq_ex_to_cq\<close> calls the operation of
  that queue's own context. The members of the flow specification union share the type and size they begin
  with. In the two attribute structs \<^verbatim>\<open>comp_mask\<close> takes the place of the tail padding of the short
  struct, so only the members of the short struct may be written through it.\<close>

theorem struct_casts:
  "extends_struct abi ibv_cq_fields ibv_cq_ex_fields \<and>
   extends_struct abi ibv_srq_init_attr_fields ibv_srq_init_attr_ex_fields \<and>
   extends_struct abi ibv_qp_init_attr_fields ibv_qp_init_attr_ex_fields \<and>
   list_all (\<lambda>m. extends_struct abi [(''type'', U32), (''size'', U16)] (snd m))
     ibv_flow_spec_members \<and>
   size_of abi (Struct ibv_grh_fields) = 40 \<and>
   (offset_of abi ibv_srq_init_attr_ex_fields ''comp_mask'' = 20 \<and>
    size_of abi (Struct ibv_srq_init_attr_fields) = 24) \<and>
   (offset_of abi ibv_qp_init_attr_ex_fields ''comp_mask'' = 60 \<and>
    size_of abi (Struct ibv_qp_init_attr_fields) = 64) \<and>
   ibv_poll_cq L (ibv_cq_ex_to_cq cq) n wc s =
     bind_outcome (context_ops L ibv_cq_ex_fields cq s)
       (\<lambda>ops. returns as_int
          (call_member L ibv_context_ops_fields ops ''poll_cq'' [cq, word_of_int n, wc] s))"
proof -
  have "offset_of (lib_abi L) ibv_cq_fields ''context'' = offset_of (lib_abi L) ibv_cq_ex_fields ''context''"
    by (simp add: offset_of_def ibv_cq_fields_def ibv_cq_ex_fields_def)
  then have poll: "context_ops L ibv_cq_fields cq s = context_ops L ibv_cq_ex_fields cq s"
    by (simp add: context_ops_def member_def member_addr_def)
  show ?thesis
    by (simp add: extended_structs flow_spec_headers ibv_poll_cq_def ibv_cq_ex_to_cq_def poll)
       (simp add: struct_defs offset_of_def round_up_def)
qed

section \<open>Device properties and attribute masks\<close>

text \<open>The sizes the code computes.\<close>

lemma device_attr_sizes:
  "size_of abi (Struct ibv_device_attr_fields) = 232"
  "size_of abi (Struct ibv_device_attr_ex_fields) = 376"
  "offset_of abi ibv_device_attr_ex_fields ''orig_attr'' = 0"
  by (simp_all add: struct_defs offset_of_def round_up_def flip: numeral_2_eq_2)

definition zeroed :: "u64 \<Rightarrow> nat \<Rightarrow> vstate \<Rightarrow> vstate" where
  "zeroed p n s =
     s\<lparr>cells := (\<lambda>a. if unat (a - p) < n then map_option (\<lambda>_. 0) (cells s a) else cells s a)\<rparr>"

text \<open>\<^verbatim>\<open>ibv_query_device_ex\<close> asks the driver's extended operation, passing the 376 bytes of its
  own struct, and falls back when there is no such operation or it answers \<^verbatim>\<open>ENOSYS\<close>: then exactly
  the 376 bytes of the result are cleared and the basic query fills the struct at their start. Any
  other answer is passed on with the driver's effects.\<close>

theorem query_device_ex_cases:
  assumes "lays_out L ctx d s" and "cells s attr \<noteq> None"
    and "\<And>f. cells (snd (call_fn L f [ctx, input, attr, 376] s)) attr \<noteq> None"
  shows "ibv_query_device_ex L ctx input attr s =
    (let (v, s') = call_fn L (offers d ''query_device_ex'') [ctx, input, attr, 376] s in
     Ok (if offers d ''query_device_ex'' = 0 then lib_query_device L ctx attr (zeroed attr 376 s)
         else if as_int v = ENOSYS then lib_query_device L ctx attr (zeroed attr 376 s')
         else (as_int v, s')))"
proof -
  have legacy: "query_device_legacy L ctx attr t = Ok (lib_query_device L ctx attr (zeroed attr 376 t))"
    if "cells t attr \<noteq> None" for t
    using that
    by (simp add: query_device_legacy_def clear_object_def zeroed_def device_attr_sizes
        member_addr_def del: size_of.simps)
  obtain v s' where call: "call_fn L (offers d ''query_device_ex'') [ctx, input, attr, 376] s = (v, s')"
    by (cases "call_fn L (offers d ''query_device_ex'') [ctx, input, attr, 376] s")
  have live: "cells s' attr \<noteq> None"
    using assms(3) [of "offers d ''query_device_ex''"] by (simp add: call)
  show ?thesis
    by (simp add: ibv_query_device_ex_def with_op_offers [OF assms(1)] verbs_op_names
        device_attr_sizes returns_def legacy [OF assms(2)] legacy [OF live] call
        del: size_of.simps)
qed

lemma two_bit_mask:
  fixes m :: u32
  assumes "m AND NOT 3 = 0"
  shows "m \<in> {0, 1, 2, 3}"
proof -
  have "m = (m AND 3) OR (m AND NOT 3)"
    by (rule bit_word_eqI) (auto simp: bit_simps)
  also have "\<dots> = m AND 3" by (simp only: assms or.right_neutral)
  also have "\<dots> = take_bit 2 m" by (simp add: take_bit_eq_mask mask_eq_exp_minus_1)
  finally have "uint m = take_bit 2 (uint m)"
    by (metis unsigned_take_bit_eq)
  then have "uint m < 4"
    using take_bit_int_less_exp [of 2 "uint m"] by simp
  moreover have "0 \<le> uint m" by simp
  ultimately have "uint m = 0 \<or> uint m = 1 \<or> uint m = 2 \<or> uint m = 3" by presburger
  then show ?thesis by (auto simp: word_uint_eq_iff)
qed

lemma srq_mask_basic:
  "m AND NOT (IBV_SRQ_INIT_ATTR_PD OR IBV_SRQ_INIT_ATTR_TYPE) \<noteq> 0 \<or> m AND IBV_SRQ_INIT_ATTR_PD = 0
     \<longleftrightarrow> m \<noteq> 2 \<and> m \<noteq> 3"
  "m = 2 \<or> m = 3 \<Longrightarrow> m AND IBV_SRQ_INIT_ATTR_TYPE = 0 \<longleftrightarrow> m = 2"
proof -
  have c: "IBV_SRQ_INIT_ATTR_PD OR IBV_SRQ_INIT_ATTR_TYPE = 3" "IBV_SRQ_INIT_ATTR_PD = 2"
    "IBV_SRQ_INIT_ATTR_TYPE = 1"
    by (simp_all add: IBV_SRQ_INIT_ATTR_PD_def IBV_SRQ_INIT_ATTR_TYPE_def)
  show "m AND NOT (IBV_SRQ_INIT_ATTR_PD OR IBV_SRQ_INIT_ATTR_TYPE) \<noteq> 0 \<or> m AND IBV_SRQ_INIT_ATTR_PD = 0
     \<longleftrightarrow> m \<noteq> 2 \<and> m \<noteq> 3"
    using two_bit_mask [of m] by (auto simp: c)
  show "m = 2 \<or> m = 3 \<Longrightarrow> m AND IBV_SRQ_INIT_ATTR_TYPE = 0 \<longleftrightarrow> m = 2"
    by (auto simp: c)
qed

text \<open>Where the extended creation functions take the basic path. \<^verbatim>\<open>ibv_create_srq_ex\<close> hands
  the attributes to \<^verbatim>\<open>ibv_create_srq\<close> of the given domain iff the mask is exactly the domain bit,
  or the domain and type bits with the basic type; \<^verbatim>\<open>ibv_create_qp_ex\<close> hands them to
  \<^verbatim>\<open>ibv_create_qp\<close> iff the mask is exactly the domain bit. Everything else goes to the driver's
  extended operation, or fails with \<^verbatim>\<open>ENOSYS\<close>.\<close>

theorem create_ex_routing:
  assumes d: "lays_out L ctx d s"
    and srq_attr: "member L ibv_srq_init_attr_ex_fields a ''comp_mask'' s = Ok m"
      "member L ibv_srq_init_attr_ex_fields a ''srq_type'' s = Ok ty"
      "member L ibv_srq_init_attr_ex_fields a ''pd'' s = Ok pd"
    and qp_attr: "member L ibv_qp_init_attr_ex_fields q ''comp_mask'' s = Ok n"
      "member L ibv_qp_init_attr_ex_fields q ''pd'' s = Ok pd'"
  shows "ibv_create_srq_ex L ctx a s =
      (if as_u32 m = 2 \<or> as_u32 m = 3 \<and> as_u32 ty = 0 then Ok (lib_create_srq L pd a s)
       else ext_ptr L d ''create_srq_ex'' [ctx, a] s) \<and>
    ibv_create_qp_ex L ctx q s =
      (if as_u32 n = 1 then Ok (lib_create_qp L pd' q s)
       else ext_ptr L d ''create_qp_ex'' [ctx, q] s)"
proof
  have op: "with_op L ctx ''create_srq_ex'' null_enosys
      (\<lambda>v. call_member L verbs_context_fields v ''create_srq_ex'' [ctx, a]) s =
      ext_ptr L d ''create_srq_ex'' [ctx, a] s"
    by (rule with_op_ptr [OF d]) (simp add: verbs_op_names)
  show "ibv_create_srq_ex L ctx a s =
      (if as_u32 m = 2 \<or> as_u32 m = 3 \<and> as_u32 ty = 0 then Ok (lib_create_srq L pd a s)
       else ext_ptr L d ''create_srq_ex'' [ctx, a] s)"
    using srq_mask_basic [of "as_u32 m"]
    by (cases "as_u32 m = 2 \<or> as_u32 m = 3")
       (auto simp: ibv_create_srq_ex_def srq_attr op IBV_SRQT_BASIC_def)
  show "ibv_create_qp_ex L ctx q s =
      (if as_u32 n = 1 then Ok (lib_create_qp L pd' q s)
       else ext_ptr L d ''create_qp_ex'' [ctx, q] s)"
    by (simp add: ibv_create_qp_ex_def qp_attr IBV_QP_INIT_ATTR_PD_def with_op_ptr [OF d]
        verbs_op_names)
qed

section \<open>Memory windows and queue pair types\<close>

lemma low_byte_Suc: "(ucast (k + 1 :: u32) :: byte) = ucast k + 1"
proof (transfer fixing: )
  fix k :: int
  have "take_bit 32 (k + 1) mod 256 = (k + 1) mod 256"
    by (simp add: take_bit_eq_mod mod_mod_cancel)
  also have "\<dots> = (take_bit 32 k + 1) mod 256"
    using mod_add_left_eq [of "take_bit 32 k" 256 1] mod_add_left_eq [of k 256 1]
    by (simp add: take_bit_eq_mod mod_mod_cancel)
  finally show "take_bit LENGTH(8) (take_bit LENGTH(32) (k + 1)) =
      take_bit LENGTH(8) (take_bit LENGTH(32) k + 1)"
    by (simp add: take_bit_eq_mod)
qed

lemma byte_mask: "(255 :: u32) = Bit_Operations.mask 8"
  by (simp add: mask_eq_exp_minus_1)

lemma low_byte:
  fixes k :: u32 and b :: byte
  shows "ucast (k AND 255) = (ucast k :: byte)"
    "ucast ((k AND NOT 255) OR ucast b) = b"
    "((k AND NOT 255) OR ucast b) AND NOT 255 = k AND NOT 255"
    "(k AND NOT 255) OR ucast (ucast k :: byte) = k"
  by (rule bit_word_eqI; auto simp: byte_mask bit_simps dest: bit_imp_le_length)+

lemma inc_rkey_eq: "ibv_inc_rkey k = (k AND NOT 255) OR ucast (ucast k + 1 :: byte)"
  by (simp only: ibv_inc_rkey_def Let_def low_byte_Suc low_byte(1))

text \<open>The function \<^verbatim>\<open>ibv_inc_rkey\<close> counts in the low byte of the key only: after \<open>n\<close> increments the upper 24
  bits are unchanged and the low byte has advanced by \<open>n\<close> modulo 256, so 256 successive keys are
  distinct and then repeat.\<close>

theorem inc_rkey_cycle:
  "(ibv_inc_rkey ^^ n) k = (k AND NOT 255) OR ucast (ucast k + of_nat n :: byte) \<and>
   ((ibv_inc_rkey ^^ n) k = k \<longleftrightarrow> 256 dvd n)"
proof -
  have eq: "(ibv_inc_rkey ^^ n) k = (k AND NOT 255) OR ucast (ucast k + of_nat n :: byte)"
  proof (induction n)
    case 0
    show ?case using low_byte(4) [of k] by simp
  next
    case (Suc n)
    let ?x = "(ibv_inc_rkey ^^ n) k"
    have "(ibv_inc_rkey ^^ Suc n) k = (?x AND NOT 255) OR ucast (ucast ?x + 1 :: byte)"
      by (simp only: funpow.simps o_apply) (rule inc_rkey_eq)
    also have "\<dots> = (k AND NOT 255) OR ucast (ucast k + of_nat n + 1 :: byte)"
      by (simp only: Suc.IH low_byte(2,3))
    finally show ?case by (simp add: ac_simps)
  qed
  have "(ibv_inc_rkey ^^ n) k = k \<longleftrightarrow> (ucast k + of_nat n :: byte) = ucast k"
    using low_byte(2) [of k "ucast k + of_nat n"] low_byte(4) [of k] eq by metis
  then have "(ibv_inc_rkey ^^ n) k = k \<longleftrightarrow> 256 dvd n"
    by (simp add: word_of_nat_eq_0_iff)
  with eq show ?thesis by blast
qed

lemma qp_type_shift: "ibv_qp_type_value qpt < 31 \<longleftrightarrow> qpt \<noteq> IBV_QPT_DRIVER"
  by (cases qpt) simp_all

text \<open>C31: The calls the header does not guard. Closing an XRC domain of a device without an extended
  context, and freeing a memory window of a device whose table has no such operation, are undefined,
  although opening and allocating them report \<^verbatim>\<open>ENOSYS\<close>; binding a window of another type than 1
  is refused before the device is asked. Testing a queue pair type is a test of the capability bit
  of its number, except for the driver type 255, whose shift is undefined.\<close>

theorem unguarded_calls:
  "(lays_out L ctx (Basic_driver c) s \<and> has_context L ibv_xrcd_fields x ctx s \<longrightarrow>
      ibv_open_xrcd L ctx a s = Ok (0, s\<lparr>errno := ENOSYS\<rparr>) \<and> ibv_close_xrcd L x s = UB) \<and>
   (lays_out L ctx d s \<and> has_context L ibv_xrcd_fields x ctx s \<and> offers d ''close_xrcd'' \<noteq> 0 \<longrightarrow>
      ibv_close_xrcd L x s = ext_int L d ''close_xrcd'' ENOSYS [x] s) \<and>
   (context_ops L ibv_pd_fields pd s = Ok ops \<and>
    member L ibv_context_ops_fields ops ''alloc_mw'' s = Ok 0 \<longrightarrow>
      ibv_alloc_mw L pd ty s = Ok (0, s\<lparr>errno := ENOSYS\<rparr>)) \<and>
   (context_ops L ibv_mw_fields mw s = Ok ops \<and>
    member L ibv_context_ops_fields ops ''dealloc_mw'' s = Ok 0 \<longrightarrow> ibv_dealloc_mw L mw s = UB) \<and>
   (member L ibv_mw_fields mw ''type'' s = Ok t \<and> as_u32 t \<noteq> 1 \<longrightarrow>
      ibv_bind_mw L qp mw b s = Ok (EINVAL, s)) \<and>
   ibv_is_qpt_supported caps qpt =
     (if qpt = IBV_QPT_DRIVER then UB else Ok (of_bool (bit caps (ibv_qp_type_value qpt))))"
proof (intro conjI impI; (elim conjE)?)
  assume b: "lays_out L ctx (Basic_driver c) s"
  then show "ibv_open_xrcd L ctx a s = Ok (0, s\<lparr>errno := ENOSYS\<rparr>)"
    by (simp add: ibv_open_xrcd_def with_op_ptr [OF b] verbs_op_names ext_ptr_def
        del: lays_out.simps)
  assume "has_context L ibv_xrcd_fields x ctx s"
  with b show "ibv_close_xrcd L x s = UB"
    by (simp add: ibv_close_xrcd_def has_context_def verbs_get_ctx_def)
next
  assume d: "lays_out L ctx d s" and "has_context L ibv_xrcd_fields x ctx s"
    and o: "offers d ''close_xrcd'' \<noteq> 0"
  moreover have "verbs_get_ctx L ctx s =
      Ok (Some (ctx - of_nat (offset_of (lib_abi L) verbs_context_fields ''context'')))"
    using d o by (cases d) (simp_all add: verbs_get_ctx_def)
  ultimately show "ibv_close_xrcd L x s = ext_int L d ''close_xrcd'' ENOSYS [x] s"
    by (simp add: ibv_close_xrcd_def has_context_def with_op_offers(2) [OF d] verbs_op_names
        returns_def ext_int_def split: prod.split)
qed (auto simp: ibv_alloc_mw_def null_enosys_def ibv_dealloc_mw_def returns_def call_member_def
       ibv_bind_mw_def IBV_MW_TYPE_1_def ibv_is_qpt_supported_def qp_type_shift bit_iff_and_push_bit_not_eq_0
       split: if_splits)

section \<open>Fields of other versions and completion opcodes\<close>

lemma device_attr_ex_layout:
  "member_names ibv_device_attr_ex_fields =
     [''orig_attr'', ''comp_mask'', ''odp_caps'', ''completion_timestamp_mask'', ''hca_core_clock'',
      ''device_cap_flags_ex'', ''tso_caps'', ''rss_caps'', ''max_wq_type_rq'', ''packet_pacing_caps'',
      ''raw_packet_caps'', ''tm_caps'', ''cq_mod_caps'']"
  "map (offset_of abi ibv_device_attr_ex_fields) (member_names ibv_device_attr_ex_fields) =
     [0, 232, 240, 264, 272, 280, 288, 296, 328, 332, 344, 348, 368]"
  "map (\<lambda>k. size_of abi (Struct (take k ibv_device_attr_ex_fields))) [1..<14] =
     [232, 240, 264, 272, 280, 288, 296, 328, 336, 344, 352, 368, 376]"
proof -
  have "[1..<14] = [1, 2, 3, 4, 5, 6, 7, 8, 9, 10, 11, 12, 13 :: nat]" by (simp add: upt_rec)
  then show "map (\<lambda>k. size_of abi (Struct (take k ibv_device_attr_ex_fields))) [1..<14] =
      [232, 240, 264, 272, 280, 288, 296, 328, 336, 344, 352, 368, 376]"
    by (simp add: struct_defs round_up_def flip: numeral_2_eq_2)
qed (simp_all add: struct_defs offset_of_def round_up_def flip: numeral_2_eq_2)

lemma zip_map_mem: "x \<in> set xs \<Longrightarrow> (x, f x) \<in> set (zip xs (map f xs))"
  by (induction xs) auto

text \<open>The offsets of all members against the sizes of all versions.\<close>

lemma avail_table:
  "list_all (\<lambda>(k, sz). list_all (\<lambda>(f, ofs). ofs < sz \<longleftrightarrow>
       f \<in> set (take k (member_names ibv_device_attr_ex_fields)) \<or>
       k = 9 \<and> f = ''packet_pacing_caps'' \<or> k = 11 \<and> f = ''tm_caps'')
     (zip (member_names ibv_device_attr_ex_fields)
        [0, 232, 240, 264, 272, 280, 288, 296, 328, 332, 344, 348, 368 :: nat]))
   (zip [1..<14] [232, 240, 264, 272, 280, 288, 296, 328, 336, 344, 352, 368, 376 :: nat])"
  unfolding device_attr_ex_layout(1) by code_simp

text \<open>\<^verbatim>\<open>vext_field_avail\<close> on the extended device attributes, given the size of an older version of
  the struct (its first \<open>k\<close> members): it answers correctly for every version and member except two.
  Where an older version ends in padding the next member begins inside that padding, so
  \<^verbatim>\<open>packet_pacing_caps\<close> is reported as available in the version that ends with
  \<^verbatim>\<open>max_wq_type_rq\<close>, and \<^verbatim>\<open>tm_caps\<close> in the one that ends with \<^verbatim>\<open>raw_packet_caps\<close>.\<close>

theorem field_avail_versions:
  assumes k: "0 < k" "k \<le> 13" and f: "f \<in> set (member_names ibv_device_attr_ex_fields)"
  shows "vext_field_avail abi ibv_device_attr_ex_fields f
      (size_of abi (Struct (take k ibv_device_attr_ex_fields))) \<longleftrightarrow>
    f \<in> set (take k (member_names ibv_device_attr_ex_fields)) \<or>
    k = 9 \<and> f = ''packet_pacing_caps'' \<or> k = 11 \<and> f = ''tm_caps''"
proof -
  let ?fs = "ibv_device_attr_ex_fields"
  have "k \<in> set [1..<14]" using k by simp
  then have "(k, size_of abi (Struct (take k ?fs))) \<in>
      set (zip [1..<14] (map (\<lambda>k. size_of abi (Struct (take k ?fs))) [1..<14]))"
    by (rule zip_map_mem)
  moreover have "(f, offset_of abi ?fs f) \<in>
      set (zip (member_names ?fs) (map (offset_of abi ?fs) (member_names ?fs)))"
    using f by (rule zip_map_mem)
  ultimately show ?thesis
    using avail_table unfolding device_attr_ex_layout(2,3) list_all_iff vext_field_avail_def by blast
qed

text \<open>The test the header recommends for receive completions, \<^verbatim>\<open>opcode & IBV_WC_RECV\<close>, holds for
  the receive opcodes, and for all opcodes of tag matching as well, also those that are no receives.\<close>

theorem wc_recv_test:
  "ibv_wc_opcode_value op AND ibv_wc_opcode_value IBV_WC_RECV \<noteq> 0 \<longleftrightarrow>
     op \<in> {IBV_WC_RECV, IBV_WC_RECV_RDMA_WITH_IMM, IBV_WC_TM_RECV} \<or>
     op \<in> {IBV_WC_TM_ADD, IBV_WC_TM_DEL, IBV_WC_TM_SYNC, IBV_WC_TM_NO_TAG}"
  by (cases op) simp_all

section \<open>A driver of an older version\<close>

text \<open>A driver compiled when the struct had five operations, for the sizes of glibc on x86-64. Its
  object starts at 944, its context is at 1000; the addresses below 944, where the application's
  struct has its newer operations, are not part of any object. The cells from 2000 on are a queue
  pair, an XRC domain, attributes and a result for a query.\<close>

definition example_lib :: verbs_lib where
  "example_lib =
     \<lparr>lib_abi = \<lparr>mutex_size = 40, cond_size = 48\<rparr>, call_fn = (\<lambda>f args s. (f, s)),
      lib_create_srq = (\<lambda>pd a s. (pd + 1, s)), lib_create_qp = (\<lambda>pd a s. (pd + 2, s)),
      lib_query_device = (\<lambda>c a s. (0, s)), lib_mutex_init = (\<lambda>a s. s), lib_cond_init = (\<lambda>a s. s)\<rparr>"

definition example_driver :: driver where
  "example_driver = Extended_driver (drop 19 verbs_ops)
     (\<lambda>f. if f = ''create_qp_ex'' then 11 else if f = ''get_srq_num'' then 12
          else if f = ''create_srq_ex'' then 13 else if f = ''open_xrcd'' then 14 else 15)"

definition example_memory :: vstate where
  "example_memory =
     \<lparr>cells = map_of [(944, 11), (952, 12), (960, 13), (968, 14), (976, 15), (984, 0), (992, 384),
        (1320, -1), (2000, 1000), (3000, 1000), (4020, 3), (4024, 1), (4032, 77), (5060, 1),
        (5064, 78), (6000, 5)],
      errno = 0\<rparr>"

lemma driver_version_drop: "driver_version (drop k verbs_ops)"
  by (auto simp: driver_version_def)

lemmas example_defs =
  example_lib_def example_memory_def struct_defs offset_of_def round_up_def member_def
  member_addr_def load_def

lemma example_lays_out: "lays_out example_lib 1000 example_driver example_memory"
  by (simp add: example_driver_def driver_version_drop)
     (simp add: example_defs verbs_ops_def verbs_base_def driver_addr_def VERBS_ABI_IS_EXTENDED_def)

lemma example_offers:
  "offers example_driver f =
     (if f = ''create_qp_ex'' then 11 else if f = ''get_srq_num'' then 12
      else if f = ''create_srq_ex'' then 13 else if f = ''open_xrcd'' then 14
      else if f = ''close_xrcd'' then 15 else 0)"
  by (simp add: example_driver_def verbs_ops_def struct_defs)

theorem ext_verbs_dispatch_witness:
  "ibv_open_xrcd example_lib 1000 7 example_memory = Ok (14, example_memory) \<and>
   ibv_create_cq_ex example_lib 1000 7 example_memory = Ok (0, example_memory\<lparr>errno := 38\<rparr>) \<and>
   ibv_create_flow example_lib 2000 7 example_memory = Ok (0, example_memory\<lparr>errno := 38\<rparr>)"
proof -
  have "has_context example_lib ibv_qp_fields 2000 1000 example_memory"
    by (simp add: has_context_def example_defs)
  then show ?thesis
    using ext_verbs_dispatch [OF example_lays_out, of 7 2000 0 0]
    by (simp add: ext_ptr_def example_offers ENOSYS_def) (simp add: example_lib_def)
qed

theorem query_device_ex_cases_witness:
  "ibv_query_device_ex example_lib 1000 7 6000 example_memory =
     Ok (0, zeroed 6000 376 example_memory)"
proof -
  have "cells example_memory 6000 \<noteq> None"
    and "\<And>f. cells (snd (call_fn example_lib f [1000, 7, 6000, 376] example_memory)) 6000 \<noteq> None"
    by (simp_all add: example_lib_def example_memory_def)
  from query_device_ex_cases [OF example_lays_out this] show ?thesis
    by (simp add: example_offers) (simp add: example_lib_def)
qed

theorem create_ex_routing_witness:
  "ibv_create_srq_ex example_lib 1000 4000 example_memory = Ok (13, example_memory) \<and>
   ibv_create_qp_ex example_lib 1000 5000 example_memory = Ok (80, example_memory)"
proof -
  have "member example_lib ibv_srq_init_attr_ex_fields 4000 ''comp_mask'' example_memory = Ok 3"
    "member example_lib ibv_srq_init_attr_ex_fields 4000 ''srq_type'' example_memory = Ok 1"
    "member example_lib ibv_srq_init_attr_ex_fields 4000 ''pd'' example_memory = Ok 77"
    "member example_lib ibv_qp_init_attr_ex_fields 5000 ''comp_mask'' example_memory = Ok 1"
    "member example_lib ibv_qp_init_attr_ex_fields 5000 ''pd'' example_memory = Ok 78"
    by (simp_all add: example_defs)
  from create_ex_routing [OF example_lays_out this] show ?thesis
    by (simp add: ext_ptr_def example_offers as_u32_def) (simp add: example_lib_def)
qed

text \<open>The same domain on a device without an extended context.\<close>

theorem unguarded_calls_witness:
  "ibv_close_xrcd example_lib 3000 \<lparr>cells = map_of [(1320, 0), (3000, 1000)], errno = 0\<rparr> = UB \<and>
   ibv_is_qpt_supported 0x14 IBV_QPT_RC = Ok 1 \<and> ibv_is_qpt_supported 0x14 IBV_QPT_DRIVER = UB"
proof -
  let ?s = "\<lparr>cells = map_of [(1320, 0), (3000, 1000)], errno = 0\<rparr> :: vstate"
  have "lays_out example_lib 1000 (Basic_driver 0) ?s"
    "has_context example_lib ibv_xrcd_fields 3000 1000 ?s"
    by (simp_all add: has_context_def example_defs VERBS_ABI_IS_EXTENDED_def)
  then have close: "ibv_close_xrcd example_lib 3000 ?s = UB"
    using unguarded_calls [of example_lib 1000 0 ?s 3000 0 example_driver 0 0 0 0 0 0 0 0 IBV_QPT_RC]
    by blast
  have qpt: "ibv_is_qpt_supported 0x14 q =
      (if q = IBV_QPT_DRIVER then UB else Ok (of_bool (bit (0x14 :: u32) (ibv_qp_type_value q))))"
    for q
    using unguarded_calls [of example_lib 1000 0 ?s 3000 0 example_driver 0 0 0 0 0 0 0 "0x14" q]
    by blast
  show ?thesis by (intro conjI close) (simp_all add: qpt)
qed

theorem field_avail_versions_witness:
  "vext_field_avail \<lparr>mutex_size = 40, cond_size = 48\<rparr> ibv_device_attr_ex_fields ''tm_caps''
     (size_of \<lparr>mutex_size = 40, cond_size = 48\<rparr> (Struct (take 11 ibv_device_attr_ex_fields)))"
  using field_avail_versions [of 11 "''tm_caps''" "\<lparr>mutex_size = 40, cond_size = 48\<rparr>"]
  by (simp add: device_attr_ex_layout(1) del: size_of.simps)

end
