(* ===== verification/Rdma.thy ===== *)
theory Rdma
  imports Verbs C_Library Raw_Packet
begin

text \<open>
  Model of \<^verbatim>\<open>src/rdma.c\<close> and \<^verbatim>\<open>src/rdma.h\<close>: the static variables of the file as a record, every
  function of it as a state transformer. The answers of the verbs library and of the allocator are the
  fields of an environment record. The state keeps, besides the variables, the sequence of calls made
  so far with their results; the contracts of the library are stated as monitors of that sequence.
\<close>

section \<open>Calls\<close>

text \<open>What the library and the allocator hand out.\<close>

datatype resource =
    Device_list
  | Device nat
  | Pd nat
  | Cq nat
  | Qp nat
  | Mr ibv_mr
  | Ah nat
  | Block nat

text \<open>The calls with an effect outside the process: a successful creation, a destruction with its
  return value, a state change of the queue pair, posted lists of work requests with the return value,
  a polled list of completions, the report of the server's address.\<close>

datatype verbs_call =
    Created resource
  | Destroyed resource int
  | Modified nat ibv_qp_attr u32 int
  | Posted_recv nat "ibv_recv_wr list" int
  | Posted_send nat "ibv_send_wr list" int
  | Polled int "ibv_wc list"
  | Reported u16 u32 string

section \<open>State\<close>

text \<open>The static variables; an array obtained from \<^verbatim>\<open>malloc\<close> is its address with its contents. \<open>mem\<close>
  is the memory behind the two aligned buffers.\<close>

record rdma =
  max_mtu :: u32
  page_size :: int
  queue_size :: int
  send_flags :: u32
  ctx :: "nat option"
  protection_domain :: "nat option"
  completion_queue :: "nat option"
  queue_pair :: "nat option"
  header_buffer :: "nat option"
  buffer :: "nat option"
  scatter_gather :: "(nat \<times> ibv_sge list) option"
  recv_requests :: "(nat \<times> ibv_recv_wr list) option"
  send_requests :: "(nat \<times> ibv_send_wr list) option"
  memory_region :: "ibv_mr option"
  header_memory_region :: "ibv_mr option"
  ah :: "nat option"
  mem :: "nat \<Rightarrow> byte"
  log :: "verbs_call list"

definition rdma_start :: "(nat \<Rightarrow> byte) \<Rightarrow> rdma" where
  "rdma_start m =
     \<lparr>max_mtu = 0, page_size = 0, queue_size = 0, send_flags = IBV_SEND_SIGNALED,
      ctx = None, protection_domain = None, completion_queue = None, queue_pair = None,
      header_buffer = None, buffer = None, scatter_gather = None, recv_requests = None,
      send_requests = None, memory_region = None, header_memory_region = None, ah = None,
      mem = m, log = []\<rparr>"

record recv_buffer =
  rb_header_buffer :: nat
  rb_data_buffer :: nat

record send_buffer =
  sb_data_buffer :: nat

text \<open>The answers of the library, one field per call site. Storage the program leaves uninitialised
  has arbitrary contents, given by the fields ending in \<open>0\<close>.\<close>

record verbs_env =
  e_pagesize :: int
  e_dev_list :: "string list option"
  e_open :: "nat \<Rightarrow> nat option"
  e_query_port :: "nat option \<Rightarrow> byte \<Rightarrow> ibv_port_attr \<Rightarrow> int \<times> ibv_port_attr"
  e_port_attr0 :: ibv_port_attr
  e_alloc_pd :: "nat option"
  e_create_cq :: "int \<Rightarrow> nat option"
  e_create_qp :: "ibv_qp_init_attr \<Rightarrow> (nat \<times> ibv_qp_init_attr) option"
  e_qp_num :: u32
  e_query_qp :: "ibv_qp_attr \<Rightarrow> ibv_qp_init_attr \<Rightarrow> ibv_qp_attr \<times> ibv_qp_init_attr"
  e_qp_attr0 :: ibv_qp_attr
  e_modify_qp :: "ibv_qp_attr \<Rightarrow> u32 \<Rightarrow> int"
  e_destroy :: "resource \<Rightarrow> int"
  e_data_buf :: "nat option"
  e_data_mr :: "(u32 \<times> u32 \<times> u32) option"
  e_header_buf :: "nat option"
  e_header_mr :: "(u32 \<times> u32 \<times> u32) option"
  e_result :: "nat option"
  e_sge :: "nat option"
  e_requests :: "nat option"
  e_sge0 :: "nat \<Rightarrow> ibv_sge"
  e_recv0 :: "nat \<Rightarrow> ibv_recv_wr"
  e_send0 :: "nat \<Rightarrow> ibv_send_wr"
  e_query_gid :: "ibv_gid option"
  e_query_port2 :: "nat option \<Rightarrow> byte \<Rightarrow> ibv_port_attr \<Rightarrow> int \<times> ibv_port_attr"
  e_ntop :: "ibv_gid \<Rightarrow> string"
  e_create_ah :: "ibv_ah_attr \<Rightarrow> nat option"

section \<open>Running\<close>

text \<open>A call returns with a new state, ends the process, or is undefined. The state at the exit is kept:
  it says what the process still holds.\<close>

datatype 'a run = Ret 'a rdma | Exited int rdma | Undef

primrec bind_run :: "'a run \<Rightarrow> ('a \<Rightarrow> rdma \<Rightarrow> 'b run) \<Rightarrow> 'b run" where
  "bind_run (Ret x st) f = f x st"
| "bind_run (Exited c st) f = Exited c st"
| "bind_run Undef f = Undef"

definition record_call :: "verbs_call \<Rightarrow> rdma \<Rightarrow> rdma" where
  "record_call e st = st\<lparr>log := log st @ [e]\<rparr>"

text \<open>Destroying an object through a pointer; a null pointer is undefined.\<close>

definition destroy :: "verbs_env \<Rightarrow> ('h \<Rightarrow> resource) \<Rightarrow> 'h option \<Rightarrow> rdma \<Rightarrow> int run" where
  "destroy env kind p st =
     (case p of None \<Rightarrow> Undef
      | Some h \<Rightarrow> Ret (e_destroy env (kind h)) (record_call (Destroyed (kind h) (e_destroy env (kind h))) st))"

definition c_free :: "nat option \<Rightarrow> rdma \<Rightarrow> rdma" where
  "c_free p st = (case p of None \<Rightarrow> st | Some a \<Rightarrow> record_call (Destroyed (Block a) 0) st)"

section \<open>Buffers\<close>

definition memset :: "nat \<Rightarrow> byte \<Rightarrow> nat \<Rightarrow> (nat \<Rightarrow> byte) \<Rightarrow> nat \<Rightarrow> byte" where
  "memset a v n m = (\<lambda>x. if a \<le> x \<and> x < a + n then v else m x)"

text \<open>\<^verbatim>\<open>allocate_buf\<close>: \<open>memalign\<close> and \<open>reg\<close> are the answers of \<^verbatim>\<open>posix_memalign\<close> and
  \<^verbatim>\<open>ibv_reg_mr\<close>, \<open>buf0\<close> and \<open>mr0\<close> the values of the two pointed-to variables before. The result is the
  return value and the two variables after the call.\<close>

definition allocate_buf ::
  "nat option \<Rightarrow> (u32 \<times> u32 \<times> u32) option \<Rightarrow> nat option \<Rightarrow> ibv_mr option \<Rightarrow> u64 \<Rightarrow> rdma \<Rightarrow>
     (int \<times> nat option \<times> ibv_mr option) run" where
  "allocate_buf memalign reg buf0 mr0 sz st =
     (case memalign of None \<Rightarrow> Ret (1, buf0, mr0) st
      | Some a \<Rightarrow>
          let st = record_call (Created (Block a)) (st\<lparr>mem := memset a 0 (unat sz) (mem st)\<rparr>) in
          (case reg of
             None \<Rightarrow> Ret (1, None, None) (c_free (Some a) st)
           | Some (h, lk, rk) \<Rightarrow>
               let mr = \<lparr>mr_context = ctx st, mr_pd = protection_domain st, mr_addr = a,
                         mr_length = sz, mr_handle = h, lkey = lk, rkey = rk\<rparr>
               in Ret (0, Some a, Some mr) (record_call (Created (Mr mr)) st)))"

section \<open>Shared initialisation\<close>

definition IB_PORT :: byte where "IB_PORT = 1"

text \<open>The exit labels of \<^verbatim>\<open>rdma_init\<close>, each falling through to the next.\<close>

definition clean_context :: "rdma \<Rightarrow> unit run" where
  "clean_context st = Exited EXIT_FAILURE st"

definition clean_device :: "verbs_env \<Rightarrow> rdma \<Rightarrow> unit run" where
  "clean_device env st = bind_run (destroy env Device (ctx st) st) (\<lambda>_. clean_context)"

definition clean_protection_domain :: "verbs_env \<Rightarrow> rdma \<Rightarrow> unit run" where
  "clean_protection_domain env st =
     bind_run (destroy env Pd (protection_domain st) st) (\<lambda>_. clean_device env)"

definition clean_completion_queue :: "verbs_env \<Rightarrow> rdma \<Rightarrow> unit run" where
  "clean_completion_queue env st =
     bind_run (destroy env Cq (completion_queue st) st) (\<lambda>_. clean_protection_domain env)"

definition clean_queue_pair :: "verbs_env \<Rightarrow> rdma \<Rightarrow> unit run" where
  "clean_queue_pair env st =
     bind_run (destroy env Qp (queue_pair st) st) (\<lambda>_. clean_completion_queue env)"

text \<open>The search through the null-terminated device list.\<close>

fun find_device :: "string list \<Rightarrow> string \<Rightarrow> nat \<Rightarrow> nat option" where
  "find_device [] dev_name i = None"
| "find_device (d # ds) dev_name i = (if d = dev_name then Some i else find_device ds dev_name (Suc i))"

definition qp_init_attr :: "nat option \<Rightarrow> int \<Rightarrow> ibv_qp_init_attr" where
  "qp_init_attr cq n =
     \<lparr>qp_context = None, send_cq = cq, recv_cq = cq, srq = None,
      cap = \<lparr>max_send_wr = word_of_int n, max_recv_wr = word_of_int n, max_send_sge = 1,
             max_recv_sge = 2, max_inline_data = 0\<rparr>,
      qp_type = IBV_QPT_UD, sq_sig_all = 0\<rparr>"

definition modify_qp :: "verbs_env \<Rightarrow> ibv_qp_attr \<Rightarrow> u32 \<Rightarrow> rdma \<Rightarrow> int run" where
  "modify_qp env attr msk st =
     (case queue_pair st of None \<Rightarrow> Undef
      | Some q \<Rightarrow> Ret (e_modify_qp env attr msk) (record_call (Modified q attr msk (e_modify_qp env attr msk)) st))"

text \<open>From the creation of the queue pair to the end of \<^verbatim>\<open>rdma_init\<close>.\<close>

definition init_queue_pair :: "verbs_env \<Rightarrow> int \<Rightarrow> rdma \<Rightarrow> unit run" where
  "init_queue_pair env completion_queue_size st =
     (case e_create_qp env (qp_init_attr (completion_queue st) completion_queue_size) of
        None \<Rightarrow> clean_completion_queue env (st\<lparr>queue_pair := None\<rparr>)
      | Some (q, init_attr) \<Rightarrow>
          let st = record_call (Created (Qp q)) (st\<lparr>queue_pair := Some q\<rparr>);
              (attr, init_attr) = e_query_qp env (e_qp_attr0 env) init_attr;
              st = (if max_mtu st \<le> max_inline_data (cap init_attr)
                    then st\<lparr>send_flags := send_flags st OR IBV_SEND_INLINE\<rparr> else st);
              attr = attr\<lparr>qp_state := IBV_QPS_INIT, pkey_index := 0, port_num := IB_PORT, qkey := 0x11111111\<rparr>
          in bind_run (modify_qp env attr (IBV_QP_STATE OR IBV_QP_PKEY_INDEX OR IBV_QP_PORT OR IBV_QP_QKEY) st)
            (\<lambda>r st. if r \<noteq> 0 then clean_queue_pair env st
               else bind_run (modify_qp env (attr\<lparr>qp_state := IBV_QPS_RTR\<rparr>) IBV_QP_STATE st)
                 (\<lambda>r st. if r \<noteq> 0 then clean_queue_pair env st else Ret () st)))"

text \<open>When the device does not open, the error message takes its name from the device object, after
  \<^verbatim>\<open>ibv_free_device_list\<close>: according to \<^verbatim>\<open>verbs.h\<close> pointers to devices that were not opened are not
  valid then, so that branch is undefined.\<close>

definition rdma_init :: "verbs_env \<Rightarrow> string \<Rightarrow> int \<Rightarrow> rdma \<Rightarrow> unit run" where
  "rdma_init env dev_name completion_queue_size st =
     (let st = st\<lparr>page_size := e_pagesize env, queue_size := completion_queue_size\<rparr> in
      case e_dev_list env of None \<Rightarrow> Exited EXIT_FAILURE st
      | Some dev_list \<Rightarrow>
      let st = record_call (Created Device_list) st in
      case find_device dev_list dev_name 0 of
        None \<Rightarrow> Exited EXIT_FAILURE (record_call (Destroyed Device_list 0) st)
      | Some ib_dev \<Rightarrow>
      case e_open env ib_dev of None \<Rightarrow> Undef
      | Some c \<Rightarrow>
          let st = record_call (Destroyed Device_list 0)
                (record_call (Created (Device c)) (st\<lparr>ctx := Some c\<rparr>));
              (r, port_info) = ibv_query_port (e_query_port env) (ctx st) IB_PORT (e_port_attr0 env)
          in if r \<noteq> 0 then clean_device env st
             else
               let st = st\<lparr>max_mtu := push_bit (ibv_mtu_value (active_mtu port_info) + 7) 1\<rparr> in
               case e_alloc_pd env of None \<Rightarrow> clean_context (st\<lparr>protection_domain := None\<rparr>)
               | Some p \<Rightarrow>
                   let st = record_call (Created (Pd p)) (st\<lparr>protection_domain := Some p\<rparr>) in
                   case e_create_cq env completion_queue_size of
                     None \<Rightarrow> clean_protection_domain env (st\<lparr>completion_queue := None\<rparr>)
                   | Some q \<Rightarrow>
                       init_queue_pair env completion_queue_size
                         (record_call (Created (Cq q)) (st\<lparr>completion_queue := Some q\<rparr>)))"

section \<open>Cleanup\<close>

text \<open>\<^verbatim>\<open>if (f(x)) exit(EXIT_FAILURE);\<close>\<close>

definition or_exit :: "int run \<Rightarrow> (rdma \<Rightarrow> unit run) \<Rightarrow> unit run" where
  "or_exit m k = bind_run m (\<lambda>r st. if r \<noteq> 0 then Exited EXIT_FAILURE st else k st)"

definition internal_rdma_cleanup :: "verbs_env \<Rightarrow> rdma \<Rightarrow> unit run" where
  "internal_rdma_cleanup env st =
     (let rest = (\<lambda>st.
            or_exit (destroy env Qp (queue_pair st) st) (\<lambda>st.
            or_exit (destroy env Cq (completion_queue st) st) (\<lambda>st.
            or_exit (destroy env Pd (protection_domain st) st) (\<lambda>st.
            or_exit (destroy env Device (ctx st) st) (Ret ())))))
      in if ah st \<noteq> None then or_exit (destroy env Ah (ah st) st) rest else rest st)"

definition rdma_cleanup :: "verbs_env \<Rightarrow> rdma \<Rightarrow> unit run" where
  "rdma_cleanup env st =
     or_exit (destroy env Mr (memory_region st) st) (\<lambda>st.
     let st = c_free (buffer st) st;
         rest = (\<lambda>st.
           let st = c_free (header_buffer st) st;
               st = c_free (map_option fst (scatter_gather st)) st;
               st = c_free (map_option fst (recv_requests st)) st;
               st = c_free (map_option fst (send_requests st)) st
           in internal_rdma_cleanup env st)
     in if header_memory_region st \<noteq> None
        then or_exit (destroy env Mr (header_memory_region st) st) rest else rest st)"

section \<open>Server initialisation\<close>

text \<open>The loop body of \<^verbatim>\<open>rdma_init_server\<close> for index \<open>i\<close>, on the three arrays: \<open>hb\<close> and \<open>db\<close> are the
  addresses of the header and the data buffer (40 is the size of \<^verbatim>\<open>struct ib_grh\<close>).\<close>

definition server_entry ::
  "nat \<Rightarrow> nat \<Rightarrow> ibv_mr \<Rightarrow> ibv_mr \<Rightarrow> nat \<Rightarrow> nat \<Rightarrow>
     recv_buffer list \<times> ibv_sge list \<times> ibv_recv_wr list \<Rightarrow>
     recv_buffer list \<times> ibv_sge list \<times> ibv_recv_wr list" where
  "server_entry hb db hmr dmr n i =
     (\<lambda>(result, sge, reqs).
       let result = result[i := \<lparr>rb_header_buffer = hb + 40 * i, rb_data_buffer = db + i * MSG_SIZE\<rparr>];
           sge = sge[2 * i := \<lparr>sge_addr = word_of_nat (rb_header_buffer (result ! i)),
                               sge_length = 40, sge_lkey = lkey hmr\<rparr>];
           sge = sge[2 * i + 1 := \<lparr>sge_addr = word_of_nat (rb_data_buffer (result ! i)),
                                   sge_length = word_of_nat MSG_SIZE, sge_lkey = lkey dmr\<rparr>];
           reqs = reqs[i := (reqs ! i)\<lparr>rwr_id := word_of_nat i,
                        rwr_next := (if i = n - 1 then Some 0 else Some (i + 1)),
                        rwr_sg_list := 2 * i, rwr_num_sge := 2\<rparr>]
       in (result, sge, reqs))"

text \<open>A product of two \<^verbatim>\<open>int\<close> values, undefined on overflow.\<close>

definition int_times :: "int \<Rightarrow> int \<Rightarrow> int option" where
  "int_times a b = (if - (2 ^ 31) \<le> a * b \<and> a * b < 2 ^ 31 then Some (a * b) else None)"

text \<open>After the arrays are filled: the GID, the port and the report. \<^verbatim>\<open>inet_ntop\<close> fails when the text
  does not fit \<^verbatim>\<open>gid_string[33]\<close> with its terminator.\<close>

definition fail_free :: "verbs_env \<Rightarrow> nat \<Rightarrow> rdma \<Rightarrow> 'a run" where
  "fail_free env result st =
     bind_run (rdma_cleanup env (c_free (Some result) st)) (\<lambda>_ st. Exited EXIT_FAILURE st)"

definition server_report :: "verbs_env \<Rightarrow> nat \<Rightarrow> rdma \<Rightarrow> unit run" where
  "server_report env result st =
     (case e_query_gid env of None \<Rightarrow> fail_free env result st
      | Some gid \<Rightarrow>
          let (r, port_attr) = ibv_query_port (e_query_port2 env) (ctx st) IB_PORT (e_port_attr0 env) in
          if r \<noteq> 0 then fail_free env result st
          else if 33 \<le> length (e_ntop env gid) then fail_free env result st
          else Ret () (record_call (Reported (port_lid port_attr) (e_qp_num env) (e_ntop env gid)) st))"

text \<open>\<^verbatim>\<open>rdma_cleanup(); exit(EXIT_FAILURE);\<close>\<close>

definition fail :: "verbs_env \<Rightarrow> rdma \<Rightarrow> 'a run" where
  "fail env st = bind_run (rdma_cleanup env st) (\<lambda>_ st. Exited EXIT_FAILURE st)"

text \<open>The second part of \<^verbatim>\<open>rdma_init_server\<close>: the three \<^verbatim>\<open>malloc\<close> calls, the loop and the report.
  The arrays have one (two for \<^verbatim>\<open>scatter_gather\<close>) entry per completion queue element; the result is
  the address of the buffer array with its contents.\<close>

definition server_arrays ::
  "verbs_env \<Rightarrow> int \<Rightarrow> rdma \<Rightarrow> (nat \<times> recv_buffer list) run" where
  "server_arrays env completion_queue_size st =
     (let n = nat completion_queue_size in
      case e_result env of None \<Rightarrow> fail env st
      | Some result \<Rightarrow>
          let st = record_call (Created (Block result)) st in
          (case e_sge env of None \<Rightarrow> fail env (st\<lparr>scatter_gather := None\<rparr>)
           | Some sg \<Rightarrow>
               let st = record_call (Created (Block sg)) (st\<lparr>scatter_gather := Some (sg, map (e_sge0 env) [0..<2 * n])\<rparr>) in
               (case e_requests env of None \<Rightarrow> fail env (st\<lparr>recv_requests := None\<rparr>)
                | Some rq \<Rightarrow>
                    let st = record_call (Created (Block rq)) st in
                    (case (header_buffer st, buffer st, header_memory_region st, memory_region st) of
                       (Some hb, Some db, Some hmr, Some dmr) \<Rightarrow>
                         let (bufs, sge, reqs) =
                               fold (server_entry hb db hmr dmr n) [0..<n]
                                 (replicate n \<lparr>rb_header_buffer = 0, rb_data_buffer = 0\<rparr>,
                                  map (e_sge0 env) [0..<2 * n], map (e_recv0 env) [0..<n])
                         in bind_run (server_report env result
                              (st\<lparr>scatter_gather := Some (sg, sge), recv_requests := Some (rq, reqs)\<rparr>))
                            (\<lambda>_ st. Ret (result, bufs) st)
                     | _ \<Rightarrow> Undef))))"

definition rdma_init_server ::
  "verbs_env \<Rightarrow> string \<Rightarrow> int \<Rightarrow> rdma \<Rightarrow> (nat \<times> recv_buffer list) run" where
  "rdma_init_server env dev_name completion_queue_size st =
     bind_run (rdma_init env dev_name completion_queue_size st) (\<lambda>_ st.
     case (int_times completion_queue_size (int MSG_SIZE), int_times completion_queue_size 40) of
       (Some data_size, Some header_size) \<Rightarrow>
         bind_run (allocate_buf (e_data_buf env) (e_data_mr env) (buffer st) (memory_region st)
             (word_of_int data_size) st) (\<lambda>(r, b, m) st.
         let st = st\<lparr>buffer := b, memory_region := m\<rparr> in
         if r \<noteq> 0 then bind_run (internal_rdma_cleanup env st) (\<lambda>_ st. Exited EXIT_FAILURE st)
         else
           bind_run (allocate_buf (e_header_buf env) (e_header_mr env) (header_buffer st)
               (header_memory_region st) (word_of_int header_size) st) (\<lambda>(r, b, m) st.
           let st = st\<lparr>header_buffer := b, header_memory_region := m\<rparr> in
           if r \<noteq> 0 then fail env st
           else server_arrays env completion_queue_size st))
     | _ \<Rightarrow> Undef)"

section \<open>Client initialisation\<close>

definition client_entry ::
  "nat \<Rightarrow> ibv_mr \<Rightarrow> u32 \<Rightarrow> nat option \<Rightarrow> u32 \<Rightarrow> nat \<Rightarrow> nat \<Rightarrow>
     send_buffer list \<times> ibv_sge list \<times> ibv_send_wr list \<Rightarrow>
     send_buffer list \<times> ibv_sge list \<times> ibv_send_wr list" where
  "client_entry db dmr sflags handle qpn n i =
     (\<lambda>(result, sge, reqs).
       let result = result[i := \<lparr>sb_data_buffer = db + i * MSG_SIZE\<rparr>];
           sge = sge[i := \<lparr>sge_addr = word_of_nat (sb_data_buffer (result ! i)),
                           sge_length = word_of_nat MSG_SIZE, sge_lkey = lkey dmr\<rparr>];
           reqs = reqs[i := (reqs ! i)\<lparr>swr_id := word_of_nat i,
                        swr_next := (if i = n - 1 then Some 0 else Some (i + 1)),
                        swr_sg_list := i, swr_num_sge := 1, swr_opcode := IBV_WR_SEND,
                        swr_send_flags := sflags, ud_ah := handle, ud_remote_qpn := qpn,
                        ud_remote_qkey := 0x11111111\<rparr>]
       in (result, sge, reqs))"

definition client_ah_attr :: "int \<Rightarrow> ibv_gid \<Rightarrow> ibv_ah_attr" where
  "client_ah_attr lid gid =
     \<lparr>ah_grh = \<lparr>dgid = gid, gr_flow_label = 0, sgid_index = 0, gr_hop_limit = 1, traffic_class = 0\<rparr>,
      dlid = word_of_int lid, ah_sl = 0, src_path_bits = 0, static_rate = 0, is_global = 1,
      ah_port_num = IB_PORT\<rparr>"

text \<open>The second part of \<^verbatim>\<open>rdma_init_client\<close>, from the three \<^verbatim>\<open>malloc\<close> calls on, in two functions.
  From the transition to the ready-to-send state to the end of \<^verbatim>\<open>rdma_init_client\<close>; \<open>sg\<close> and \<open>sq\<close>
  are the addresses of the two arrays.\<close>

definition client_connect ::
  "verbs_env \<Rightarrow> int \<Rightarrow> int \<Rightarrow> ibv_gid \<Rightarrow> u32 \<Rightarrow> nat \<Rightarrow> nat \<Rightarrow> nat \<Rightarrow> rdma \<Rightarrow>
     (nat \<times> send_buffer list) run" where
  "client_connect env completion_queue_size lid gid qpn result sg sq st =
     bind_run (modify_qp env ((e_qp_attr0 env)\<lparr>qp_state := IBV_QPS_RTS, sq_psn := 0\<rparr>)
       (IBV_QP_STATE OR IBV_QP_SQ_PSN) st) (\<lambda>r st.
     if r \<noteq> 0 then fail_free env result st
     else
       case e_create_ah env (client_ah_attr lid gid) of
         None \<Rightarrow> fail_free env result (st\<lparr>ah := None\<rparr>)
       | Some h \<Rightarrow>
           let st = record_call (Created (Ah h)) (st\<lparr>ah := Some h\<rparr>);
               n = nat completion_queue_size in
           (case (buffer st, memory_region st) of
              (Some db, Some dmr) \<Rightarrow>
                let (bufs, sge, reqs) =
                      fold (client_entry db dmr (send_flags st) (ah st) qpn n) [0..<n]
                        (replicate n \<lparr>sb_data_buffer = 0\<rparr>, map (e_sge0 env) [0..<n], map (e_send0 env) [0..<n])
                in Ret (result, bufs) (st\<lparr>scatter_gather := Some (sg, sge), send_requests := Some (sq, reqs)\<rparr>)
            | _ \<Rightarrow> Undef))"

definition client_arrays ::
  "verbs_env \<Rightarrow> int \<Rightarrow> int \<Rightarrow> ibv_gid \<Rightarrow> u32 \<Rightarrow> rdma \<Rightarrow> (nat \<times> send_buffer list) run" where
  "client_arrays env completion_queue_size lid gid qpn st =
     (let n = nat completion_queue_size in
      case e_result env of None \<Rightarrow> fail env st
      | Some result \<Rightarrow>
          let st = record_call (Created (Block result)) st in
          (case e_sge env of None \<Rightarrow> fail env (st\<lparr>scatter_gather := None\<rparr>)
           | Some sg \<Rightarrow>
               let st = record_call (Created (Block sg)) (st\<lparr>scatter_gather := Some (sg, map (e_sge0 env) [0..<n])\<rparr>) in
               (case e_requests env of None \<Rightarrow> fail env (st\<lparr>send_requests := None\<rparr>)
                | Some sq \<Rightarrow>
                    client_connect env completion_queue_size lid gid qpn result sg sq
                      (record_call (Created (Block sq)) (st\<lparr>send_requests := Some (sq, map (e_send0 env) [0..<n])\<rparr>)))))"

definition rdma_init_client ::
  "verbs_env \<Rightarrow> string \<Rightarrow> int \<Rightarrow> int \<Rightarrow> ibv_gid \<Rightarrow> u32 \<Rightarrow> rdma \<Rightarrow> (nat \<times> send_buffer list) run" where
  "rdma_init_client env dev_name completion_queue_size lid gid qpn st =
     bind_run (rdma_init env dev_name completion_queue_size st) (\<lambda>_ st.
     case int_times completion_queue_size (int MSG_SIZE) of None \<Rightarrow> Undef
     | Some data_size \<Rightarrow>
         bind_run (allocate_buf (e_data_buf env) (e_data_mr env) (buffer st) (memory_region st)
             (word_of_int data_size) st) (\<lambda>(r, b, m) st.
         let st = st\<lparr>buffer := b, memory_region := m\<rparr> in
         if r \<noteq> 0 then bind_run (internal_rdma_cleanup env st) (\<lambda>_ st. Exited EXIT_FAILURE st)
         else client_arrays env completion_queue_size lid gid qpn st))"

section \<open>Posting requests\<close>

text \<open>The linked list of requests the library walks, from index \<open>i\<close> of the array to the entry without
  successor. A list that has not ended after as many entries as the array has visits one of them twice
  and never ends; it has no meaning, like one that leaves the array.\<close>

fun wr_chain :: "nat \<Rightarrow> ('wr \<Rightarrow> nat option) \<Rightarrow> 'wr list \<Rightarrow> nat \<Rightarrow> nat list option" where
  "wr_chain 0 nxt ws i = None"
| "wr_chain (Suc fuel) nxt ws i =
     (if i < length ws
      then (case nxt (ws ! i) of None \<Rightarrow> Some [i]
            | Some j \<Rightarrow> map_option ((#) i) (wr_chain fuel nxt ws j))
      else None)"

text \<open>\<^verbatim>\<open>(start + count - 1) % queue_size\<close> on \<^verbatim>\<open>int\<close>, stored in a \<^verbatim>\<open>size_t\<close> and used as an index: undefined
  on overflow, on a zero divisor and when the remainder is negative or beyond the array.\<close>

definition last_index :: "int \<Rightarrow> int \<Rightarrow> int \<Rightarrow> nat \<Rightarrow> nat option" where
  "last_index start count queue_sz len =
     (if start + count < - (2 ^ 31) + 1 \<or> 2 ^ 31 \<le> start + count \<or> queue_sz = 0 then None
      else let r = c_rem (start + count - 1) queue_sz
           in if 0 \<le> r \<and> r < int len then Some (nat r) else None)"

text \<open>\<open>ret\<close> is the answer of \<^verbatim>\<open>ibv_post_send\<close>.\<close>

definition post_sends :: "int \<Rightarrow> int \<Rightarrow> int \<Rightarrow> rdma \<Rightarrow> int run" where
  "post_sends ret start count st =
     (case (send_requests st, queue_pair st) of
        (Some (a, reqs), Some q) \<Rightarrow>
          (case last_index start count (queue_size st) (length reqs) of
             None \<Rightarrow> Undef
           | Some last_idx \<Rightarrow>
               let old = swr_next (reqs ! last_idx);
                   reqs = reqs[last_idx := (reqs ! last_idx)\<lparr>swr_next := None\<rparr>]
               in case (if start < 0 then None else wr_chain (length reqs) swr_next reqs (nat start)) of
                    None \<Rightarrow> Undef
                  | Some is \<Rightarrow>
                      let st = record_call (Posted_send q (map ((!) reqs) is) ret) st;
                          return_value = (if ret \<noteq> 0 then -1 else 0);
                          reqs = reqs[last_idx := (reqs ! last_idx)\<lparr>swr_next := old\<rparr>]
                      in Ret return_value (st\<lparr>send_requests := Some (a, reqs)\<rparr>))
      | _ \<Rightarrow> Undef)"

definition post_recvs :: "int \<Rightarrow> int \<Rightarrow> int \<Rightarrow> rdma \<Rightarrow> int run" where
  "post_recvs ret start count st =
     (case (recv_requests st, queue_pair st) of
        (Some (a, reqs), Some q) \<Rightarrow>
          (case last_index start count (queue_size st) (length reqs) of
             None \<Rightarrow> Undef
           | Some last_idx \<Rightarrow>
               let old = rwr_next (reqs ! last_idx);
                   reqs = reqs[last_idx := (reqs ! last_idx)\<lparr>rwr_next := None\<rparr>]
               in case (if start < 0 then None else wr_chain (length reqs) rwr_next reqs (nat start)) of
                    None \<Rightarrow> Undef
                  | Some is \<Rightarrow>
                      let st = record_call (Posted_recv q (map ((!) reqs) is) ret) st;
                          return_value = (if ret \<noteq> 0 then -1 else 0);
                          reqs = reqs[last_idx := (reqs ! last_idx)\<lparr>rwr_next := old\<rparr>]
                      in Ret return_value (st\<lparr>recv_requests := Some (a, reqs)\<rparr>))
      | _ \<Rightarrow> Undef)"

end
