(* ===== verification/Rdma_Destroy.thy ===== *)
theory Rdma_Destroy
  imports Rdma
begin

text \<open>
  Destroy calls that fail. Every call of \<^verbatim>\<open>src/rdma.c\<close> that destroys an object of the verbs library is on
  a path that ends the process, or in \<^verbatim>\<open>rdma_cleanup\<close>, which ends it at the first failure. So a run with
  arbitrary answers to those calls is compared with the run of the same library whose destroy calls all
  succeed: it is the same run, or it has ended with the failure status.
\<close>

section \<open>The comparison\<close>

definition reliable :: "verbs_env \<Rightarrow> verbs_env" where
  "reliable env = env\<lparr>e_destroy := (\<lambda>_. 0)\<rparr>"

lemma reliable_fields [simp]:
  "e_destroy (reliable env) = (\<lambda>_. 0)"
  "e_pagesize (reliable env) = e_pagesize env" "e_dev_list (reliable env) = e_dev_list env"
  "e_open (reliable env) = e_open env" "e_query_port (reliable env) = e_query_port env"
  "e_port_attr0 (reliable env) = e_port_attr0 env" "e_alloc_pd (reliable env) = e_alloc_pd env"
  "e_create_cq (reliable env) = e_create_cq env" "e_create_qp (reliable env) = e_create_qp env"
  "e_qp_num (reliable env) = e_qp_num env" "e_query_qp (reliable env) = e_query_qp env"
  "e_qp_attr0 (reliable env) = e_qp_attr0 env" "e_modify_qp (reliable env) = e_modify_qp env"
  "e_data_buf (reliable env) = e_data_buf env" "e_data_mr (reliable env) = e_data_mr env"
  "e_header_buf (reliable env) = e_header_buf env" "e_header_mr (reliable env) = e_header_mr env"
  "e_result (reliable env) = e_result env" "e_sge (reliable env) = e_sge env"
  "e_requests (reliable env) = e_requests env" "e_sge0 (reliable env) = e_sge0 env"
  "e_recv0 (reliable env) = e_recv0 env" "e_send0 (reliable env) = e_send0 env"
  "e_query_gid (reliable env) = e_query_gid env" "e_query_port2 (reliable env) = e_query_port2 env"
  "e_ntop (reliable env) = e_ntop env" "e_create_ah (reliable env) = e_create_ah env"
  by (simp_all add: reliable_def)

lemma reliable_eq: "e_destroy env = (\<lambda>_. 0) \<Longrightarrow> reliable env = env"
  by (simp add: reliable_def)

text \<open>\<open>r\<close> is the run with failing destroy calls, \<open>r'\<close> the one without.\<close>

definition or_ends :: "'a run \<Rightarrow> 'a run \<Rightarrow> bool" where
  "or_ends r r' \<longleftrightarrow> r = r' \<or> (\<exists>st. r = Exited EXIT_FAILURE st) \<and> (\<forall>x st. r' \<noteq> Ret x st)"

definition or_fails :: "verbs_env \<Rightarrow> 'a run \<Rightarrow> 'a run \<Rightarrow> bool" where
  "or_fails env r r' \<longleftrightarrow> r = r' \<or> (\<exists>st. r = Exited EXIT_FAILURE st) \<and> (\<exists>x. e_destroy env x \<noteq> 0)"

lemma or_ends_refl [simp]: "or_ends r r"
  by (simp add: or_ends_def)

lemma or_ends_bind:
  assumes "or_ends r r'" and "\<And>x st. or_ends (f x st) (f' x st)"
  shows "or_ends (bind_run r f) (bind_run r' f')"
  using assms unfolding or_ends_def by (cases r; cases r') auto

lemma or_ends_bind_same:
  assumes "\<And>x st. or_ends (f x st) (f' x st)"
  shows "or_ends (bind_run r f) (bind_run r f')"
  by (rule or_ends_bind) (simp_all add: assms)

lemma or_fails_refl [simp]: "or_fails env r r"
  by (simp add: or_fails_def)

section \<open>Cleanup\<close>

lemma or_fails_destroy:
  assumes "\<And>st. or_fails env (k st) (k' st)"
  shows "or_fails env (or_exit (destroy env kind p st) k) (or_exit (destroy (reliable env) kind p st) k')"
  using assms by (cases p) (auto simp: or_exit_def destroy_def or_fails_def)

lemma or_fails_internal: "or_fails env (internal_rdma_cleanup env st) (internal_rdma_cleanup (reliable env) st)"
  unfolding internal_rdma_cleanup_def Let_def
  by (auto intro!: or_fails_destroy)

lemma or_fails_cleanup: "or_fails env (rdma_cleanup env st) (rdma_cleanup (reliable env) st)"
  unfolding rdma_cleanup_def Let_def
  by (auto intro!: or_fails_destroy or_fails_internal)

text \<open>A cleanup that is followed by \<^verbatim>\<open>exit(EXIT_FAILURE)\<close>.\<close>

lemma or_ends_cleanup:
  assumes "or_fails env r r'"
  shows "or_ends (bind_run r (\<lambda>_ st. Exited EXIT_FAILURE st)) (bind_run r' (\<lambda>_ st. Exited EXIT_FAILURE st) :: 'a run)"
  using assms unfolding or_fails_def or_ends_def by (cases r; cases r') auto

lemma or_ends_fail: "or_ends (fail env st) (fail (reliable env) st)"
  unfolding fail_def by (rule or_ends_cleanup [OF or_fails_cleanup])

lemma or_ends_fail_free: "or_ends (fail_free env a st) (fail_free (reliable env) a st)"
  unfolding fail_free_def by (rule or_ends_cleanup [OF or_fails_cleanup])

lemma or_ends_internal:
  "or_ends (bind_run (internal_rdma_cleanup env st) (\<lambda>_ st. Exited EXIT_FAILURE st))
     (bind_run (internal_rdma_cleanup (reliable env) st) (\<lambda>_ st. Exited EXIT_FAILURE st) :: 'a run)"
  by (rule or_ends_cleanup [OF or_fails_internal])

section \<open>Initialisation\<close>

lemma modify_qp_reliable [simp]: "modify_qp (reliable env) = modify_qp env"
  by (intro ext) (simp add: modify_qp_def split: option.split)

text \<open>The exit labels of \<^verbatim>\<open>rdma_init\<close> do not look at the answers.\<close>

lemma or_ends_labels:
  "or_ends (clean_device env st) (clean_device (reliable env) st)"
  "or_ends (clean_protection_domain env st) (clean_protection_domain (reliable env) st)"
  "or_ends (clean_completion_queue env st) (clean_completion_queue (reliable env) st)"
  "or_ends (clean_queue_pair env st) (clean_queue_pair (reliable env) st)"
  by (auto simp: or_ends_def clean_device_def clean_protection_domain_def clean_completion_queue_def
    clean_queue_pair_def clean_context_def destroy_def record_call_def split: option.splits)

lemma or_ends_queue_pair: "or_ends (init_queue_pair env n st) (init_queue_pair (reliable env) n st)"
  by (auto simp: init_queue_pair_def Let_def or_ends_labels intro!: or_ends_bind_same
    split: option.split prod.split)

lemma or_ends_rdma_init: "or_ends (rdma_init env dev n st) (rdma_init (reliable env) dev n st)"
  by (auto simp: rdma_init_def Let_def or_ends_labels or_ends_queue_pair split: option.split prod.split)

lemma or_ends_report: "or_ends (server_report env a st) (server_report (reliable env) a st)"
  by (auto simp: server_report_def Let_def or_ends_fail_free split: option.split prod.split)

lemma or_ends_server_arrays: "or_ends (server_arrays env n st) (server_arrays (reliable env) n st)"
  by (auto simp: server_arrays_def Let_def or_ends_fail intro!: or_ends_bind or_ends_report
    split: option.split prod.split)

lemma or_ends_server: "or_ends (rdma_init_server env dev n st) (rdma_init_server (reliable env) dev n st)"
  unfolding rdma_init_server_def
  by (rule or_ends_bind [OF or_ends_rdma_init])
    (auto simp: Let_def or_ends_fail or_ends_internal or_ends_server_arrays intro!: or_ends_bind_same
      split: option.split prod.split)

lemma or_ends_connect:
  "or_ends (client_connect env n lid gid qpn a sg sq st) (client_connect (reliable env) n lid gid qpn a sg sq st)"
  by (auto simp: client_connect_def Let_def or_ends_fail_free intro!: or_ends_bind_same
    split: option.split prod.split)

lemma or_ends_client_arrays:
  "or_ends (client_arrays env n lid gid qpn st) (client_arrays (reliable env) n lid gid qpn st)"
  by (auto simp: client_arrays_def Let_def or_ends_fail or_ends_connect split: option.split)

lemma or_ends_client:
  "or_ends (rdma_init_client env dev n lid gid qpn st) (rdma_init_client (reliable env) dev n lid gid qpn st)"
  unfolding rdma_init_client_def
  by (rule or_ends_bind [OF or_ends_rdma_init])
    (auto simp: Let_def or_ends_internal or_ends_client_arrays intro!: or_ends_bind_same
      split: option.split prod.split)

end
