(* ===== verification/Rdma_Ring.thy ===== *)
theory Rdma_Ring
  imports Rdma
begin

text \<open>
  The arrays the initialisation functions of \<^verbatim>\<open>src/rdma.c\<close> build and the circular use
  \<^verbatim>\<open>post_sends\<close> and \<^verbatim>\<open>post_recvs\<close> make of them. The two functions cut the ring of requests behind
  the last request to post, hand the list to the library and close the ring again. That argument is
  made once, in the locale \<open>request_ring\<close>, and used for both request types.
\<close>

section \<open>Filling the arrays\<close>

definition server_buffer :: "nat \<Rightarrow> nat \<Rightarrow> nat \<Rightarrow> recv_buffer" where
  "server_buffer hb db i = \<lparr>rb_header_buffer = hb + 40 * i, rb_data_buffer = db + i * MSG_SIZE\<rparr>"

definition server_sges :: "nat \<Rightarrow> nat \<Rightarrow> u32 \<Rightarrow> u32 \<Rightarrow> nat \<Rightarrow> ibv_sge list" where
  "server_sges hb db hkey dkey i =
     [\<lparr>sge_addr = word_of_nat (hb + 40 * i), sge_length = 40, sge_lkey = hkey\<rparr>,
      \<lparr>sge_addr = word_of_nat (db + i * MSG_SIZE), sge_length = word_of_nat MSG_SIZE, sge_lkey = dkey\<rparr>]"

definition recv_request :: "nat \<Rightarrow> nat \<Rightarrow> ibv_recv_wr" where
  "recv_request n i =
     \<lparr>rwr_id = word_of_nat i, rwr_next = Some (if i = n - 1 then 0 else i + 1),
      rwr_sg_list = 2 * i, rwr_num_sge = 2\<rparr>"

lemma server_fold:
  assumes "k \<le> n" and "length R = n" and "length S = 2 * n" and "length Q = n"
  shows "fold (server_entry hb db hmr dmr n) [0..<k] (R, S, Q) =
    (map (server_buffer hb db) [0..<k] @ drop k R,
     concat (map (server_sges hb db (lkey hmr) (lkey dmr)) [0..<k]) @ drop (2 * k) S,
     map (recv_request n) [0..<k] @ drop k Q)"
  using assms(1)
proof (induction k)
  case 0
  then show ?case by simp
next
  case (Suc k)
  have len: "length (concat (map (server_sges hb db a b) [0..<j])) = 2 * j" for a b j
    by (induction j) (simp_all add: server_sges_def)
  have d: "drop k R = R ! k # drop (Suc k) R" "drop k Q = Q ! k # drop (Suc k) Q"
    "drop (2 * k) S = S ! (2 * k) # S ! (2 * k + 1) # drop (2 * Suc k) S"
    using Suc.prems assms(2-4) by (simp_all add: Cons_nth_drop_Suc)
  show ?case
    using Suc.prems Suc.IH
    by (simp add: d server_entry_def Let_def list_update_append nth_append len server_buffer_def
        server_sges_def [where i = k] recv_request_def [where i = k])
qed

definition client_buffer :: "nat \<Rightarrow> nat \<Rightarrow> send_buffer" where
  "client_buffer db i = \<lparr>sb_data_buffer = db + i * MSG_SIZE\<rparr>"

definition client_sge :: "nat \<Rightarrow> u32 \<Rightarrow> nat \<Rightarrow> ibv_sge" where
  "client_sge db dkey i =
     \<lparr>sge_addr = word_of_nat (db + i * MSG_SIZE), sge_length = word_of_nat MSG_SIZE, sge_lkey = dkey\<rparr>"

definition send_request :: "u32 \<Rightarrow> nat option \<Rightarrow> u32 \<Rightarrow> nat \<Rightarrow> nat \<Rightarrow> ibv_send_wr" where
  "send_request sflags handle qpn n i =
     \<lparr>swr_id = word_of_nat i, swr_next = Some (if i = n - 1 then 0 else i + 1),
      swr_sg_list = i, swr_num_sge = 1, swr_opcode = IBV_WR_SEND, swr_send_flags = sflags,
      ud_ah = handle, ud_remote_qpn = qpn, ud_remote_qkey = 0x11111111\<rparr>"

lemma client_fold:
  assumes "k \<le> n" and "length R = n" and "length S = n" and "length Q = n"
  shows "fold (client_entry db dmr sflags handle qpn n) [0..<k] (R, S, Q) =
    (map (client_buffer db) [0..<k] @ drop k R,
     map (client_sge db (lkey dmr)) [0..<k] @ drop k S,
     map (send_request sflags handle qpn n) [0..<k] @ drop k Q)"
  using assms(1)
proof (induction k)
  case 0
  then show ?case by simp
next
  case (Suc k)
  have d: "drop k R = R ! k # drop (Suc k) R" "drop k Q = Q ! k # drop (Suc k) Q"
    "drop k S = S ! k # drop (Suc k) S"
    using Suc.prems assms(2-4) by (simp_all add: Cons_nth_drop_Suc)
  show ?case
    using Suc.prems Suc.IH
    by (simp add: d client_entry_def Let_def list_update_append nth_append client_buffer_def
        client_sge_def send_request_def)
qed

section \<open>Rings of requests\<close>

definition is_ring :: "('wr \<Rightarrow> nat option) \<Rightarrow> 'wr list \<Rightarrow> bool" where
  "is_ring nxt ws \<longleftrightarrow> (\<forall>i < length ws. nxt (ws ! i) = Some (Suc i mod length ws))"

definition window :: "nat \<Rightarrow> nat \<Rightarrow> nat \<Rightarrow> nat list" where
  "window n start count = map (\<lambda>k. (start + k) mod n) [0..<count]"

lemma window_Suc:
  "start < n \<Longrightarrow> window n start (Suc c) = start # window n (Suc start mod n) c"
  by (simp add: window_def map_upt_Suc mod_simps del: upt_Suc)

lemma set_window: "0 < n \<Longrightarrow> set (window n start count) \<subseteq> {..<n}"
  by (auto simp: window_def)

locale request_ring =
  fixes nxt :: "'wr \<Rightarrow> nat option"
    and set_next :: "nat option \<Rightarrow> 'wr \<Rightarrow> 'wr"
  assumes nxt_set [simp]: "nxt (set_next p w) = p"
    and set_back [simp]: "set_next (nxt w) (set_next p w) = w"
begin

text \<open>The ring cut behind entry \<open>l\<close>.\<close>

lemma chain_to_cut:
  assumes "is_ring nxt ws" and "start < length ws" and "0 < count" and "count \<le> length ws"
    and "count \<le> fuel" and "l = (start + count - 1) mod length ws"
  shows "wr_chain fuel nxt (ws[l := set_next None (ws ! l)]) start = Some (window (length ws) start count)"
  using assms(2-)
proof (induction count arbitrary: start fuel)
  case 0
  then show ?case by simp
next
  case (Suc c)
  let ?n = "length ws"
  obtain f where f: "fuel = Suc f" using Suc.prems(4) by (cases fuel) auto
  have pos: "0 < ?n" using Suc.prems(1) by linarith
  show ?case
  proof (cases c)
    case 0
    then show ?thesis using Suc.prems f by (simp add: window_def)
  next
    case (Suc b)
    have le: "l = (Suc start mod ?n + c - 1) mod ?n"
      using Suc.prems(5) Suc by (simp add: mod_simps)
    have "l \<noteq> start"
    proof
      assume "l = start"
      then have "(start + c) mod ?n = start mod ?n" using Suc.prems(1,5) by simp
      then have "?n dvd c" by (simp add: mod_eq_dvd_iff_nat)
      then show False using Suc Suc.prems(3) by (auto dest: dvd_imp_le)
    qed
    then have "nxt (ws[l := set_next None (ws ! l)] ! start) = Some (Suc start mod ?n)"
      using assms(1) Suc.prems(1) by (simp add: is_ring_def)
    moreover have "wr_chain f nxt (ws[l := set_next None (ws ! l)]) (Suc start mod ?n)
        = Some (window ?n (Suc start mod ?n) c)"
      using Suc.prems Suc f le mod_less_divisor [OF pos] by (intro Suc.IH) auto
    ultimately show ?thesis
      using Suc.prems(1) by (simp add: f window_Suc)
  qed
qed

lemma close_again:
  "l < length ws \<Longrightarrow>
     ws[l := set_next None (ws ! l), l := set_next (nxt (ws ! l)) (set_next None (ws ! l))] = ws"
  by simp

end

interpretation recv_ring: request_ring rwr_next "\<lambda>p w. w\<lparr>rwr_next := p\<rparr>"
  by unfold_locales simp_all

interpretation send_ring: request_ring swr_next "\<lambda>p w. w\<lparr>swr_next := p\<rparr>"
  by unfold_locales simp_all

lemma is_ring_recv: "is_ring rwr_next (map (recv_request n) [0..<n])"
  by (auto simp: is_ring_def recv_request_def)

lemma is_ring_send: "is_ring swr_next (map (send_request sflags handle qpn n) [0..<n])"
  by (auto simp: is_ring_def send_request_def)

text \<open>The index of the last request of a window, computed with the remainder of \<^verbatim>\<open>int\<close>.\<close>

lemma last_index_window:
  assumes "start < n" and "0 < count" and "count \<le> n" and "n \<le> 2 ^ 30"
  shows "last_index (int start) (int count) (int n) n = Some ((start + count - 1) mod n)"
proof -
  define s where "s = start + count - 1"
  have s: "int start + int count - 1 = int s" using assms(2) by (simp add: s_def)
  have "c_rem (int s) (int n) = int (s mod n)"
    using assms(1) by (simp only: c_rem_nonneg of_nat_0_le_iff of_nat_0_less_iff zmod_int)
  moreover have "s mod n < n" using assms(1) by (intro mod_less_divisor) linarith
  moreover have "int n \<le> int (2 ^ 30)" using assms(4) by (simp only: of_nat_le_iff)
  then have "\<not> (int start + int count < - (2 ^ 31) + 1 \<or> 2 ^ 31 \<le> int start + int count \<or> int n = 0)"
    using assms(1,3) by simp
  ultimately show ?thesis unfolding last_index_def s s_def [symmetric] by (simp add: Let_def)
qed

text \<open>A ring that is not cut has no end, and the boundary case of an empty window.\<close>

lemma uncut_never_ends:
  "is_ring nxt ws \<Longrightarrow> i < length ws \<Longrightarrow> wr_chain fuel nxt ws i = None"
proof (induction fuel arbitrary: i)
  case (Suc fuel)
  have "Suc i mod length ws < length ws" using Suc.prems(2) by (intro mod_less_divisor) linarith
  with Suc show ?case by (simp add: is_ring_def)
qed simp

lemma last_index_empty:
  assumes "n \<le> 2 ^ 30"
  shows "0 < start \<Longrightarrow> start < n \<Longrightarrow> last_index (int start) 0 (int n) n = Some (start - 1)"
    "1 < n \<Longrightarrow> last_index 0 0 (int n) n = None"
proof -
  assume s: "0 < start" "start < n"
  have "c_rem (int start - 1) (int n) = int start - 1" using s by (simp add: c_rem_nonneg)
  moreover have "\<not> (int start < - (2 ^ 31) + 1 \<or> 2 ^ 31 \<le> int start \<or> int n = 0)"
    using s assms by simp
  ultimately show "last_index (int start) 0 (int n) n = Some (start - 1)"
    using s by (simp add: last_index_def nat_diff_distrib)
next
  assume n: "1 < n"
  have "c_rem (- 1) (int n) = - 1" using n by (simp add: c_rem_def)
  then show "last_index 0 0 (int n) n = None" by (simp add: last_index_def)
qed

section \<open>Posting a window\<close>

lemma post_recvs_ring:
  assumes "recv_requests st = Some (a, reqs)" and "queue_pair st = Some q"
    and "queue_size st = int (length reqs)" and "is_ring rwr_next reqs" and "length reqs \<le> 2 ^ 30"
    and "start < length reqs" and "0 < count" and "count \<le> length reqs"
  defines "l \<equiv> (start + count - 1) mod length reqs"
  shows "post_recvs ret (int start) (int count) st =
    Ret (if ret \<noteq> 0 then -1 else 0)
      (record_call (Posted_recv q
        (map ((!) (reqs[l := (reqs ! l)\<lparr>rwr_next := None\<rparr>])) (window (length reqs) start count)) ret) st)"
proof -
  have l: "l < length reqs" unfolding l_def by (rule mod_less_divisor) (use assms(6) in linarith)
  have chain: "wr_chain (length reqs) rwr_next (reqs[l := (reqs ! l)\<lparr>rwr_next := None\<rparr>]) start
      = Some (window (length reqs) start count)"
    using assms by (intro recv_ring.chain_to_cut) auto
  have li: "last_index (int start) (int count) (int (length reqs)) (length reqs) = Some l"
    using assms last_index_window by (simp add: l_def)
  show ?thesis
    using assms(1-3) l
    by (simp add: post_recvs_def Let_def li chain record_call_def)
qed

lemma post_sends_ring:
  assumes "send_requests st = Some (a, reqs)" and "queue_pair st = Some q"
    and "queue_size st = int (length reqs)" and "is_ring swr_next reqs" and "length reqs \<le> 2 ^ 30"
    and "start < length reqs" and "0 < count" and "count \<le> length reqs"
  defines "l \<equiv> (start + count - 1) mod length reqs"
  shows "post_sends ret (int start) (int count) st =
    Ret (if ret \<noteq> 0 then -1 else 0)
      (record_call (Posted_send q
        (map ((!) (reqs[l := (reqs ! l)\<lparr>swr_next := None\<rparr>])) (window (length reqs) start count)) ret) st)"
proof -
  have l: "l < length reqs" unfolding l_def by (rule mod_less_divisor) (use assms(6) in linarith)
  have chain: "wr_chain (length reqs) swr_next (reqs[l := (reqs ! l)\<lparr>swr_next := None\<rparr>]) start
      = Some (window (length reqs) start count)"
    using assms by (intro send_ring.chain_to_cut) auto
  have li: "last_index (int start) (int count) (int (length reqs)) (length reqs) = Some l"
    using assms last_index_window by (simp add: l_def)
  show ?thesis
    using assms(1-3) l
    by (simp add: post_sends_def Let_def li chain record_call_def)
qed

text \<open>Cutting the ring changes no other field of the requests.\<close>

lemma in_window: "start < n \<Longrightarrow> i \<in> set (window n start count) \<Longrightarrow> i < n"
  by (auto simp: window_def intro!: mod_less_divisor)

lemma map_window_cut:
  assumes "start < length ws" and "\<And>w. f (upd w) = f w" and "\<And>i. i < length ws \<Longrightarrow> f (ws ! i) = g i"
  shows "map f (map ((!) (ws[l := upd (ws ! l)])) (window (length ws) start count)) =
    map g (window (length ws) start count)"
proof -
  have "f (ws[l := upd (ws ! l)] ! i) = g i" if "i < length ws" for i
    using that assms(2,3) by (cases "i = l") simp_all
  then have "f (ws[l := upd (ws ! l)] ! i) = g i" if "i \<in> set (window (length ws) start count)" for i
    using in_window [OF assms(1) that] by blast
  then show ?thesis by (simp only: map_map comp_def map_eq_conv) blast
qed

lemma post_recvs_posted:
  assumes "recv_requests st = Some (a, map (recv_request n) [0..<n])" and "queue_pair st = Some q"
    and "queue_size st = int n" and "n \<le> 2 ^ 30" and "start < n" and "0 < count" and "count \<le> n"
  shows "\<exists>ws. post_recvs ret (int start) (int count) st =
      Ret (if ret \<noteq> 0 then -1 else 0) (record_call (Posted_recv q ws ret) st) \<and>
    map rwr_id ws = map word_of_nat (window n start count) \<and>
    map rwr_sg_list ws = map ((*) 2) (window n start count)"
proof -
  let ?reqs = "map (recv_request n) [0..<n]" and ?l = "(start + count - 1) mod n"
  let ?ws = "map ((!) (?reqs[?l := (?reqs ! ?l)\<lparr>rwr_next := None\<rparr>])) (window n start count)"
  have n: "length ?reqs = n" by simp
  have "post_recvs ret (int start) (int count) st =
      Ret (if ret \<noteq> 0 then -1 else 0) (record_call (Posted_recv q ?ws ret) st)"
    using post_recvs_ring [of st a ?reqs q start count ret, unfolded n] assms is_ring_recv [of n] by blast
  moreover have "map rwr_id ?ws = map word_of_nat (window n start count)"
    by (rule map_window_cut [of _ ?reqs, unfolded n]) (simp_all add: assms recv_request_def)
  moreover have "map rwr_sg_list ?ws = map ((*) 2) (window n start count)"
    by (rule map_window_cut [of _ ?reqs, unfolded n]) (simp_all add: assms recv_request_def)
  ultimately show ?thesis by blast
qed

lemma post_sends_posted:
  assumes "send_requests st = Some (a, map (send_request sflags handle qpn n) [0..<n])"
    and "queue_pair st = Some q" and "queue_size st = int n" and "n \<le> 2 ^ 30"
    and "start < n" and "0 < count" and "count \<le> n"
  shows "\<exists>ws. post_sends ret (int start) (int count) st =
      Ret (if ret \<noteq> 0 then -1 else 0) (record_call (Posted_send q ws ret) st) \<and>
    map swr_id ws = map word_of_nat (window n start count) \<and>
    map swr_sg_list ws = window n start count \<and>
    (\<forall>w \<in> set ws. swr_opcode w = IBV_WR_SEND \<and> swr_num_sge w = 1 \<and> swr_send_flags w = sflags \<and>
       ud_ah w = handle \<and> ud_remote_qpn w = qpn \<and> ud_remote_qkey w = 0x11111111)"
proof -
  let ?reqs = "map (send_request sflags handle qpn n) [0..<n]" and ?l = "(start + count - 1) mod n"
  let ?ws = "map ((!) (?reqs[?l := (?reqs ! ?l)\<lparr>swr_next := None\<rparr>])) (window n start count)"
  let ?rest = "\<lambda>w. (swr_opcode w, swr_num_sge w, swr_send_flags w, ud_ah w, ud_remote_qpn w, ud_remote_qkey w)"
  have n: "length ?reqs = n" by simp
  have "post_sends ret (int start) (int count) st =
      Ret (if ret \<noteq> 0 then -1 else 0) (record_call (Posted_send q ?ws ret) st)"
    using post_sends_ring [of st a ?reqs q start count ret, unfolded n] assms is_ring_send by blast
  moreover have "map swr_id ?ws = map word_of_nat (window n start count)"
    by (rule map_window_cut [of _ ?reqs, unfolded n]) (simp_all add: assms send_request_def)
  moreover have "map swr_sg_list ?ws = map id (window n start count)"
    by (rule map_window_cut [of _ ?reqs, unfolded n]) (simp_all add: assms send_request_def)
  moreover have "map ?rest ?ws =
      map (\<lambda>_. (IBV_WR_SEND, 1, sflags, handle, qpn, 0x11111111)) (window n start count)"
    by (rule map_window_cut [of _ ?reqs, unfolded n]) (simp_all add: assms send_request_def)
  then have "\<forall>w \<in> set ?ws. ?rest w = (IBV_WR_SEND, 1, sflags, handle, qpn, 0x11111111)"
    by (simp only: set_map ball_simps map_eq_conv map_map comp_def)
  ultimately show ?thesis by (simp only: list.map_id prod.inject) blast
qed

section \<open>Properties\<close>

text \<open>C12: \<^verbatim>\<open>post_recvs(start, count)\<close> on a ring of \<open>n\<close> receive requests hands the library exactly the
  requests \<open>start\<close>, \<open>start + 1\<close>, ... modulo \<open>n\<close>, \<open>count\<close> of them in that order, each with its own pair of
  scatter-gather entries; it returns -1 exactly when the library refuses the list, and leaves the ring and
  every other variable as it was.\<close>

theorem post_recvs_window:
  assumes "recv_requests st = Some (a, map (recv_request n) [0..<n])" and "queue_pair st = Some q"
    and "queue_size st = int n" and "n \<le> 2 ^ 30" and "start < n" and "0 < count" and "count \<le> n"
  shows "\<exists>ws. post_recvs ret (int start) (int count) st =
      Ret (if ret \<noteq> 0 then -1 else 0) (record_call (Posted_recv q ws ret) st) \<and>
    map rwr_id ws = map word_of_nat (window n start count) \<and>
    map rwr_sg_list ws = map ((*) 2) (window n start count)"
  by (rule post_recvs_posted [OF assms])

definition example_ring :: rdma where
  "example_ring = (rdma_start (\<lambda>_. 0))\<lparr>queue_size := 4, queue_pair := Some 1,
     recv_requests := Some (0x100, map (recv_request 4) [0..<4]),
     send_requests := Some (0x200, map (send_request 2 (Some 9) 5 4) [0..<4])\<rparr>"

theorem post_recvs_window_witness:
  "\<exists>ws. post_recvs 0 3 2 example_ring = Ret 0 (record_call (Posted_recv 1 ws 0) example_ring) \<and>
     map rwr_id ws = [3, 0]"
proof -
  have "window 4 3 2 = [3, 0]" by (simp add: window_def upt_rec)
  then show ?thesis
    using post_recvs_window [of example_ring "0x100" 4 1 3 2 0] by (auto simp: example_ring_def)
qed

text \<open>C13: the same for \<^verbatim>\<open>post_sends\<close>; every posted request is a plain send of one scatter-gather entry to the
  configured address handle and queue pair, with the queue key 0x11111111.\<close>

theorem post_sends_window:
  assumes "send_requests st = Some (a, map (send_request sflags handle qpn n) [0..<n])"
    and "queue_pair st = Some q" and "queue_size st = int n" and "n \<le> 2 ^ 30"
    and "start < n" and "0 < count" and "count \<le> n"
  shows "\<exists>ws. post_sends ret (int start) (int count) st =
      Ret (if ret \<noteq> 0 then -1 else 0) (record_call (Posted_send q ws ret) st) \<and>
    map swr_id ws = map word_of_nat (window n start count) \<and>
    map swr_sg_list ws = window n start count \<and>
    (\<forall>w \<in> set ws. swr_opcode w = IBV_WR_SEND \<and> swr_num_sge w = 1 \<and> swr_send_flags w = sflags \<and>
       ud_ah w = handle \<and> ud_remote_qpn w = qpn \<and> ud_remote_qkey w = 0x11111111)"
  by (rule post_sends_posted [OF assms])

theorem post_sends_window_witness:
  "\<exists>ws. post_sends 22 2 4 example_ring = Ret (-1) (record_call (Posted_send 1 ws 22) example_ring) \<and>
     map swr_id ws = [2, 3, 0, 1]"
proof -
  have "window 4 2 4 = [2, 3, 0, 1]" by (simp add: window_def upt_rec)
  then show ?thesis
    using post_sends_window [of example_ring "0x200" 2 "Some 9" 5 4 1 2 4 22] by (auto simp: example_ring_def)
qed

text \<open>C28: Every list the two functions hand over ends, because the ring is cut before it is walked: the
  ring itself, not cut, is a list without an end, whatever the number of steps. For a window that is
  not empty the functions return. The empty window is the case the code does not separate: from the
  first request on it reads the array at index -1, which is undefined, and from any other request on
  the cut falls behind the whole ring, so that all \<open>n\<close> requests are posted instead of none.\<close>

theorem posting_terminates:
  assumes "recv_requests st = Some (a, map (recv_request n) [0..<n])" and "queue_pair st = Some q"
    and "send_requests st = Some (b, map (send_request sflags handle qpn n) [0..<n])"
    and "queue_size st = int n" and "n \<le> 2 ^ 30" and "start < n" and "count \<le> n"
  shows "wr_chain fuel rwr_next (map (recv_request n) [0..<n]) start = None \<and>
    wr_chain fuel swr_next (map (send_request sflags handle qpn n) [0..<n]) start = None \<and>
    (0 < count \<longrightarrow> (\<exists>r st1. post_recvs ret (int start) (int count) st = Ret r st1) \<and>
       (\<exists>r st1. post_sends ret (int start) (int count) st = Ret r st1)) \<and>
    (start = 0 \<and> 1 < n \<longrightarrow> post_recvs ret 0 0 st = Undef \<and> post_sends ret 0 0 st = Undef) \<and>
    (0 < start \<longrightarrow> post_recvs ret (int start) 0 st = post_recvs ret (int start) (int n) st \<and>
       post_sends ret (int start) 0 st = post_sends ret (int start) (int n) st)"
proof (intro conjI impI)
  show "wr_chain fuel rwr_next (map (recv_request n) [0..<n]) start = None"
    "wr_chain fuel swr_next (map (send_request sflags handle qpn n) [0..<n]) start = None"
    using assms(6) by (simp_all add: uncut_never_ends is_ring_recv is_ring_send)
  show "\<exists>r st1. post_recvs ret (int start) (int count) st = Ret r st1" if "0 < count"
    using post_recvs_posted [OF assms(1,2,4-6) that assms(7)] by blast
  show "\<exists>r st1. post_sends ret (int start) (int count) st = Ret r st1" if "0 < count"
    using post_sends_posted [OF assms(3,2,4-6) that assms(7)] by blast
  show "post_recvs ret 0 0 st = Undef" "post_sends ret 0 0 st = Undef" if "start = 0 \<and> 1 < n"
    using assms(1-4) last_index_empty(2) [OF assms(5)] that
    by (simp_all add: post_recvs_def post_sends_def)
  assume s: "0 < start"
  have "(start + n - 1) mod n = start - 1"
    using s assms(6) by (simp add: mod_if)
  then have "last_index (int start) (int n) (int n) n = last_index (int start) 0 (int n) n"
    using last_index_window [OF assms(6) _ le_refl assms(5)] last_index_empty(1) [OF assms(5) s assms(6)]
      assms(6) by simp
  then show "post_recvs ret (int start) 0 st = post_recvs ret (int start) (int n) st"
    "post_sends ret (int start) 0 st = post_sends ret (int start) (int n) st"
    using assms(1-4) by (simp_all add: post_recvs_def post_sends_def)
qed

theorem posting_terminates_witness:
  "post_recvs 0 0 0 example_ring = Undef \<and>
   post_sends 0 2 0 example_ring = post_sends 0 2 4 example_ring \<and>
   (\<forall>fuel. wr_chain fuel rwr_next (map (recv_request 4) [0..<4]) 1 = None)"
proof -
  note inst = posting_terminates [of example_ring "0x100" 4 1 "0x200" 2 "Some 9" 5]
  show ?thesis
    using inst [of 0 0] inst [of 2 0 _ 0] inst [of 1 0] by (simp add: example_ring_def)
qed

end
