(* ===== verification/Rdma_Resources.thy ===== *)
theory Rdma_Resources
  imports Rdma_Ring Rdma_Destroy
begin

text \<open>
  The contracts of the verbs library as monitors of the sequence of calls, and the proof that the
  initialisation and cleanup functions of \<^verbatim>\<open>src/rdma.c\<close> keep them. \<open>resource_step\<close> follows the objects
  the process holds: an object is created while the objects it is made from exist, and destroyed once,
  while nothing made from it exists. \<open>qp_step\<close> follows the state of the queue pair: a transition needs
  the attributes the documentation of \<^verbatim>\<open>ibv_modify_qp\<close> requires of an unreliable datagram queue pair.
\<close>

section \<open>Monitors\<close>

fun run_monitor :: "('s \<Rightarrow> 'e \<Rightarrow> 's option) \<Rightarrow> 's \<Rightarrow> 'e list \<Rightarrow> 's option" where
  "run_monitor step s [] = Some s"
| "run_monitor step s (e # es) =
     (case step s e of None \<Rightarrow> None | Some s' \<Rightarrow> run_monitor step s' es)"

lemma run_monitor_append [simp]:
  "run_monitor step s (es @ fs) = Option.bind (run_monitor step s es) (\<lambda>s'. run_monitor step s' fs)"
  by (induction es arbitrary: s) (simp_all split: option.splits)

fun depends_on :: "resource \<Rightarrow> resource \<Rightarrow> bool" where
  "depends_on (Pd _) (Device _) = True"
| "depends_on (Cq _) (Device _) = True"
| "depends_on (Qp _) (Pd _) = True"
| "depends_on (Qp _) (Cq _) = True"
| "depends_on (Mr _) (Pd _) = True"
| "depends_on (Mr m) (Block a) = (mr_addr m = a)"
| "depends_on (Ah _) (Pd _) = True"
| "depends_on _ _ = False"

definition has_device :: "resource list \<Rightarrow> bool" where
  "has_device L = list_ex (\<lambda>r. case r of Device _ \<Rightarrow> True | _ \<Rightarrow> False) L"

definition has_pd :: "resource list \<Rightarrow> bool" where
  "has_pd L = list_ex (\<lambda>r. case r of Pd _ \<Rightarrow> True | _ \<Rightarrow> False) L"

definition has_cq :: "resource list \<Rightarrow> bool" where
  "has_cq L = list_ex (\<lambda>r. case r of Cq _ \<Rightarrow> True | _ \<Rightarrow> False) L"

fun creatable :: "resource list \<Rightarrow> resource \<Rightarrow> bool" where
  "creatable L Device_list = True"
| "creatable L (Device _) = (Device_list \<in> set L)"
| "creatable L (Pd _) = has_device L"
| "creatable L (Cq _) = has_device L"
| "creatable L (Qp _) = (has_pd L \<and> has_cq L)"
| "creatable L (Mr m) = (has_pd L \<and> Block (mr_addr m) \<in> set L)"
| "creatable L (Ah _) = has_pd L"
| "creatable L (Block a) = (Block a \<notin> set L)"

fun resource_step :: "resource list \<Rightarrow> verbs_call \<Rightarrow> resource list option" where
  "resource_step L (Created r) = (if creatable L r then Some (r # L) else None)"
| "resource_step L (Destroyed r ret) =
     (if r \<notin> set L then None
      else if ret \<noteq> 0 then Some L
      else if list_ex (\<lambda>d. depends_on d r) L then None
      else Some (remove1 r L))"
| "resource_step L (Modified q attr msk ret) = (if Qp q \<in> set L then Some L else None)"
| "resource_step L (Posted_recv q ws ret) = (if Qp q \<in> set L then Some L else None)"
| "resource_step L (Posted_send q ws ret) = (if Qp q \<in> set L then Some L else None)"
| "resource_step L (Polled ne wcs) = (if has_cq L then Some L else None)"
| "resource_step L (Reported lid qpn gid) = Some L"

abbreviation held :: "rdma \<Rightarrow> resource list option" where
  "held st \<equiv> run_monitor resource_step [] (log st)"

fun ud_required :: "ibv_qp_state \<Rightarrow> ibv_qp_state \<Rightarrow> u32 option" where
  "ud_required IBV_QPS_RESET IBV_QPS_INIT =
     Some (IBV_QP_STATE OR IBV_QP_PKEY_INDEX OR IBV_QP_PORT OR IBV_QP_QKEY)"
| "ud_required IBV_QPS_INIT IBV_QPS_RTR = Some IBV_QP_STATE"
| "ud_required IBV_QPS_RTR IBV_QPS_RTS = Some (IBV_QP_STATE OR IBV_QP_SQ_PSN)"
| "ud_required _ _ = None"

fun qp_step :: "ibv_qp_state \<Rightarrow> verbs_call \<Rightarrow> ibv_qp_state option" where
  "qp_step s (Created (Qp q)) = Some IBV_QPS_RESET"
| "qp_step s (Modified q attr msk ret) =
     (if ret \<noteq> 0 then Some s
      else if ud_required s (qp_state attr) = Some msk then Some (qp_state attr) else None)"
| "qp_step s (Posted_recv q ws ret) =
     (if s \<in> {IBV_QPS_INIT, IBV_QPS_RTR, IBV_QPS_RTS} then Some s else None)"
| "qp_step s (Posted_send q ws ret) = (if s = IBV_QPS_RTS then Some s else None)"
| "qp_step s _ = Some s"

abbreviation qp_mode :: "rdma \<Rightarrow> ibv_qp_state option" where
  "qp_mode st \<equiv> run_monitor qp_step IBV_QPS_UNKNOWN (log st)"

text \<open>The queue of requests the adapter works on, oldest first, by their identifiers.\<close>

fun nic_step :: "nat list \<Rightarrow> verbs_call \<Rightarrow> nat list" where
  "nic_step q (Posted_recv k ws ret) = (if ret = 0 then q @ map (unat \<circ> rwr_id) ws else q)"
| "nic_step q (Posted_send k ws ret) = (if ret = 0 then q @ map (unat \<circ> swr_id) ws else q)"
| "nic_step q (Polled ne wcs) = drop (nat ne) q"
| "nic_step q _ = q"

abbreviation nic_queue :: "rdma \<Rightarrow> nat list" where
  "nic_queue st \<equiv> foldl nic_step [] (log st)"

section \<open>Shared simplification rules\<close>

lemma record_call_fields [simp]:
  "log (record_call e st) = log st @ [e]"
  "max_mtu (record_call e st) = max_mtu st" "queue_size (record_call e st) = queue_size st"
  "send_flags (record_call e st) = send_flags st"
  "ctx (record_call e st) = ctx st" "protection_domain (record_call e st) = protection_domain st"
  "completion_queue (record_call e st) = completion_queue st"
  "queue_pair (record_call e st) = queue_pair st" "header_buffer (record_call e st) = header_buffer st"
  "buffer (record_call e st) = buffer st" "scatter_gather (record_call e st) = scatter_gather st"
  "recv_requests (record_call e st) = recv_requests st"
  "send_requests (record_call e st) = send_requests st"
  "memory_region (record_call e st) = memory_region st"
  "header_memory_region (record_call e st) = header_memory_region st" "ah (record_call e st) = ah st"
  "mem (record_call e st) = mem st"
  by (simp_all add: record_call_def)

lemma record_call_inject [simp]: "record_call e st = record_call e' st \<longleftrightarrow> e = e'"
  by (metis append1_eq_conv record_call_fields(1))

named_theorems cleanup_defs

declare clean_context_def [cleanup_defs] clean_device_def [cleanup_defs]
  clean_protection_domain_def [cleanup_defs] clean_completion_queue_def [cleanup_defs]
  clean_queue_pair_def [cleanup_defs] destroy_def [cleanup_defs] or_exit_def [cleanup_defs]

lemma has_simps [simp]:
  "has_device [] = False" "has_pd [] = False" "has_cq [] = False"
  "has_device (r # L) = ((case r of Device _ \<Rightarrow> True | _ \<Rightarrow> False) \<or> has_device L)"
  "has_pd (r # L) = ((case r of Pd _ \<Rightarrow> True | _ \<Rightarrow> False) \<or> has_pd L)"
  "has_cq (r # L) = ((case r of Cq _ \<Rightarrow> True | _ \<Rightarrow> False) \<or> has_cq L)"
  by (simp_all add: has_device_def has_pd_def has_cq_def)

definition opt_list :: "'a option \<Rightarrow> 'a list" where
  "opt_list x = (case x of None \<Rightarrow> [] | Some a \<Rightarrow> [a])"

lemma opt_list_simps [simp]: "opt_list None = []" "opt_list (Some a) = [a]"
  by (simp_all add: opt_list_def)

lemma set_opt_list [simp]: "set (opt_list x) = set_option x"
  by (cases x) simp_all

section \<open>Shared initialisation\<close>

text \<open>The state after a successful \<^verbatim>\<open>rdma_init\<close>.\<close>

definition rdma_ready :: "int \<Rightarrow> rdma \<Rightarrow> bool" where
  "rdma_ready n st \<longleftrightarrow>
     (\<exists>c p q k. ctx st = Some c \<and> protection_domain st = Some p \<and> completion_queue st = Some q \<and>
        queue_pair st = Some k \<and> held st = Some [Qp k, Cq q, Pd p, Device c]) \<and>
     qp_mode st = Some IBV_QPS_RTR \<and> nic_queue st = [] \<and> queue_size st = n \<and>
     header_buffer st = None \<and> buffer st = None \<and> scatter_gather st = None \<and>
     recv_requests st = None \<and> send_requests st = None \<and> memory_region st = None \<and>
     header_memory_region st = None \<and> ah st = None"

lemma rdma_init_cases:
  assumes "e_destroy env = (\<lambda>_. 0)"
  shows "case rdma_init env dev n (rdma_start m) of
      Ret _ st \<Rightarrow> rdma_ready n st
    | Exited c st \<Rightarrow> c = EXIT_FAILURE \<and>
        (held st = Some [] \<or> e_alloc_pd env = None \<and> (\<exists>d. ctx st = Some d \<and> held st = Some [Device d]))
    | Undef \<Rightarrow> \<exists>names i. e_dev_list env = Some names \<and> find_device names dev 0 = Some i \<and> e_open env i = None"
  using assms
  by (simp add: rdma_init_def init_queue_pair_def rdma_start_def rdma_ready_def modify_qp_def
      cleanup_defs Let_def split: option.split prod.split)

section \<open>Cleanup\<close>

text \<open>Lists of resources in which nothing but memory blocks and the objects of \<^verbatim>\<open>rdma_init\<close> occur.\<close>

lemma depends_on_Block [simp]: "\<not> depends_on (Block a) r"
  by (cases r) simp_all

lemma list_ex_Block [simp]: "\<not> list_ex (\<lambda>d. depends_on d r) (map Block as)"
  by (simp add: list_ex_iff)

lemma list_ex_False [simp]: "\<not> list_ex (\<lambda>d. False) L"
  by (simp add: list_ex_iff)

lemma remove1_map_Block [simp]:
  "r \<notin> range Block \<Longrightarrow> remove1 r (map Block as @ L) = map Block as @ remove1 r L"
  by (auto simp: remove1_append)

lemma remove1_map_Block_notin [simp]:
  "a \<notin> set as \<Longrightarrow> remove1 (Block a) (map Block as @ L) = map Block as @ remove1 (Block a) L"
  by (auto simp: remove1_append)

lemma remove1_map_Block_in:
  "distinct as \<Longrightarrow> a \<in> set as \<Longrightarrow>
     remove1 (Block a) (map Block as @ L) = map Block (filter (\<lambda>x. x \<noteq> a) as) @ L"
proof (induction as)
  case (Cons x as)
  then have "x = a \<Longrightarrow> filter (\<lambda>x. x \<noteq> a) as = as" by (auto intro: filter_True)
  with Cons show ?case by auto
qed simp

lemma held_free:
  assumes "held st = Some (opt_list (map_option Ah h) @ map Block as @ L)" and "distinct as"
    and "set_option p \<subseteq> set as" and "\<And>d a. d \<in> set L \<Longrightarrow> a \<in> set as \<Longrightarrow> \<not> depends_on d (Block a)"
  shows "held (c_free p st) =
    Some (opt_list (map_option Ah h) @ map Block (filter (\<lambda>x. p \<noteq> Some x) as) @ L)"
proof (cases p)
  case None
  then show ?thesis using assms(1) by (simp add: c_free_def)
next
  case (Some a)
  then have a: "a \<in> set as" using assms(3) by simp
  have f: "filter (\<lambda>x. a \<noteq> x) as = filter (\<lambda>x. x \<noteq> a) as" by (rule filter_cong) auto
  have "\<not> list_ex (\<lambda>d. depends_on d (Block a)) L" using a assms(4) by (auto simp: list_ex_iff)
  then show ?thesis
    using assms(1,2) a Some
    by (cases h) (simp_all add: c_free_def remove1_map_Block_in f image_iff)
qed

lemma internal_cleanup_releases:
  assumes "e_destroy env = (\<lambda>_. 0)" and "ctx st = Some c" and "protection_domain st = Some p"
    and "completion_queue st = Some q" and "queue_pair st = Some k"
    and "held st = Some (opt_list (map_option Ah (ah st)) @ map Block as @ [Qp k, Cq q, Pd p, Device c])"
  shows "\<exists>st'. internal_rdma_cleanup env st = Ret () st' \<and> held st' = Some (map Block as)"
  using assms
  by (cases "ah st") (simp_all add: internal_rdma_cleanup_def cleanup_defs Let_def image_iff)

definition array_blocks :: "rdma \<Rightarrow> nat list" where
  "array_blocks st = opt_list (map_option fst (scatter_gather st)) @
     opt_list (map_option fst (recv_requests st)) @ opt_list (map_option fst (send_requests st))"

definition header_part :: "rdma \<Rightarrow> resource list" where
  "header_part st = opt_list (map_option Mr (header_memory_region st)) @
     opt_list (map_option Block (header_buffer st))"

text \<open>What the process holds once its buffers are registered: the objects of \<^verbatim>\<open>rdma_init\<close>, the buffers
  with their regions, the blocks \<open>as\<close>, and possibly an address handle.\<close>

definition holds_buffers :: "nat list \<Rightarrow> rdma \<Rightarrow> bool" where
  "holds_buffers as st \<longleftrightarrow>
     (\<exists>c p q k dmr db. ctx st = Some c \<and> protection_domain st = Some p \<and> completion_queue st = Some q \<and>
        queue_pair st = Some k \<and> memory_region st = Some dmr \<and> buffer st = Some db \<and> mr_addr dmr = db \<and>
        db \<notin> set as \<and> header_buffer st = map_option mr_addr (header_memory_region st) \<and>
        set_option (header_buffer st) \<inter> insert db (set as) = {} \<and>
        held st = Some (opt_list (map_option Ah (ah st)) @ map Block as @ header_part st @
          [Mr dmr, Block db, Qp k, Cq q, Pd p, Device c])) \<and>
     distinct as \<and> distinct (array_blocks st) \<and> set (array_blocks st) \<subseteq> set as"

lemma c_free_fields [simp]:
  "ctx (c_free p st) = ctx st" "protection_domain (c_free p st) = protection_domain st"
  "completion_queue (c_free p st) = completion_queue st" "queue_pair (c_free p st) = queue_pair st"
  "header_buffer (c_free p st) = header_buffer st" "buffer (c_free p st) = buffer st"
  "scatter_gather (c_free p st) = scatter_gather st" "recv_requests (c_free p st) = recv_requests st"
  "send_requests (c_free p st) = send_requests st" "memory_region (c_free p st) = memory_region st"
  "header_memory_region (c_free p st) = header_memory_region st" "ah (c_free p st) = ah st"
  by (simp_all add: c_free_def split: option.split)

lemma c_free_None [simp]: "c_free None st = st"
  by (simp add: c_free_def)

lemma free_arrays:
  assumes "held st = Some (opt_list (map_option Ah h) @ map Block as @ [Qp k, Cq q, Pd p, Device c])"
    and "distinct as" and "distinct (array_blocks st)" and "set (array_blocks st) \<subseteq> set as"
  shows "held (c_free (map_option fst (send_requests st))
      (c_free (map_option fst (recv_requests st)) (c_free (map_option fst (scatter_gather st)) st))) =
    Some (opt_list (map_option Ah h) @ map Block (filter (\<lambda>x. x \<notin> set (array_blocks st)) as) @
      [Qp k, Cq q, Pd p, Device c])"
proof -
  define a b c' where "a = map_option fst (scatter_gather st)" and "b = map_option fst (recv_requests st)"
    and "c' = map_option fst (send_requests st)"
  note defs = this
  have blocks: "x \<in> set (array_blocks st) \<longleftrightarrow> a = Some x \<or> b = Some x \<or> c' = Some x" for x
    by (auto simp: array_blocks_def elem_set simp flip: defs)
  have dj: "a = Some x \<Longrightarrow> b \<noteq> Some x" "a = Some x \<or> b = Some x \<Longrightarrow> c' \<noteq> Some x" for x
    using assms(3) by (auto simp: array_blocks_def simp flip: defs)
  have no: "\<not> depends_on d (Block a)" if "d \<in> set [Qp k, Cq q, Pd p, Device c]" for d a
    using that by auto
  note 1 = held_free [OF assms(1,2) _ no, of a]
  note 2 = held_free [OF 1 _ _ no, of b]
  note 3 = held_free [OF 2 _ _ no, of c']
  have f: "filter (\<lambda>x. c' \<noteq> Some x) (filter (\<lambda>x. b \<noteq> Some x) (filter (\<lambda>x. a \<noteq> Some x) as))
      = filter (\<lambda>x. x \<notin> set (array_blocks st)) as"
    unfolding filter_filter by (rule filter_cong) (auto simp: blocks)
  show ?thesis unfolding f [symmetric] defs [symmetric]
    by (rule 3) (use assms(2,4) dj in \<open>auto simp: blocks elem_set subset_iff\<close>)
qed

lemma rdma_cleanup_releases:
  assumes "e_destroy env = (\<lambda>_. 0)" and "holds_buffers as st"
  shows "\<exists>st'. rdma_cleanup env st = Ret () st' \<and>
    held st' = Some (map Block (filter (\<lambda>x. x \<notin> set (array_blocks st)) as))"
proof -
  obtain c p q k dmr db where
    f: "ctx st = Some c" "protection_domain st = Some p" "completion_queue st = Some q"
      "queue_pair st = Some k" "memory_region st = Some dmr" "buffer st = Some db" "mr_addr dmr = db"
      "db \<notin> set as" "header_buffer st = map_option mr_addr (header_memory_region st)"
      "set_option (header_buffer st) \<inter> insert db (set as) = {}"
      "held st = Some (opt_list (map_option Ah (ah st)) @ map Block as @ header_part st @
          [Mr dmr, Block db, Qp k, Cq q, Pd p, Device c])"
    and ok: "distinct as" "distinct (array_blocks st)" "set (array_blocks st) \<subseteq> set as"
    using assms(2) by (auto simp: holds_buffers_def)
  let ?st1 = "c_free (buffer st) (record_call (Destroyed (Mr dmr) 0) st)"
  let ?st2 = "case header_memory_region st of None \<Rightarrow> ?st1
    | Some m \<Rightarrow> c_free (header_buffer st) (record_call (Destroyed (Mr m) 0) ?st1)"
  let ?st3 = "c_free (map_option fst (send_requests st)) (c_free (map_option fst (recv_requests st))
    (c_free (map_option fst (scatter_gather st)) ?st2))"
  have "held ?st2 = Some (opt_list (map_option Ah (ah st)) @ map Block as @ [Qp k, Cq q, Pd p, Device c])"
    using f by (cases "ah st"; cases "header_memory_region st")
      (simp_all add: header_part_def c_free_def image_iff)
  then have "held ?st3 = Some (opt_list (map_option Ah (ah st)) @
      map Block (filter (\<lambda>x. x \<notin> set (array_blocks st)) as) @ [Qp k, Cq q, Pd p, Device c])"
    using free_arrays [of ?st2 "ah st" as k q p c] ok
    by (cases "header_memory_region st") (simp_all add: array_blocks_def)
  moreover have "rdma_cleanup env st = internal_rdma_cleanup env ?st3"
    using f assms(1) by (cases "header_memory_region st")
      (simp_all add: rdma_cleanup_def or_exit_def destroy_def Let_def)
  moreover have "ah ?st3 = ah st" "ctx ?st3 = ctx st" "protection_domain ?st3 = protection_domain st"
    "completion_queue ?st3 = completion_queue st" "queue_pair ?st3 = queue_pair st"
    by (cases "header_memory_region st", simp_all)+
  ultimately show ?thesis
    using internal_cleanup_releases [OF assms(1), of ?st3 c p q k] f by simp
qed

section \<open>Growing and failing\<close>

lemma fail_exits:
  assumes "e_destroy env = (\<lambda>_. 0)" and "holds_buffers as st"
  shows "\<exists>st'. fail env st = Exited EXIT_FAILURE st' \<and>
    held st' = Some (map Block (filter (\<lambda>x. x \<notin> set (array_blocks st)) as))"
  using rdma_cleanup_releases [OF assms] by (auto simp: fail_def)

lemma array_blocks_fields [simp]:
  "array_blocks (record_call e st) = array_blocks st" "array_blocks (c_free p st) = array_blocks st"
  by (simp_all add: array_blocks_def)

lemma header_part_fields [simp]:
  "header_part (record_call e st) = header_part st" "header_part (c_free p st) = header_part st"
  by (simp_all add: header_part_def)

lemma holds_buffers_new_block:
  assumes "holds_buffers as st" and "ah st = None" and "a \<notin> set as"
    and "buffer st \<noteq> Some a" and "header_buffer st \<noteq> Some a"
  shows "holds_buffers (a # as) (record_call (Created (Block a)) st)"
proof -
  have "Block a \<notin> set (header_part st)" using assms(5) by (auto simp: header_part_def elem_set)
  then show ?thesis using assms by (auto simp: holds_buffers_def)
qed

lemma holds_buffers_free:
  assumes "holds_buffers as st" and "a \<in> set as" and "a \<notin> set (array_blocks st)"
  shows "holds_buffers (filter (\<lambda>x. x \<noteq> a) as) (c_free (Some a) st)"
proof -
  obtain c p q k dmr db where
    f: "ctx st = Some c" "protection_domain st = Some p" "completion_queue st = Some q"
      "queue_pair st = Some k" "memory_region st = Some dmr" "buffer st = Some db" "mr_addr dmr = db"
      "db \<notin> set as" "header_buffer st = map_option mr_addr (header_memory_region st)"
      "set_option (header_buffer st) \<inter> insert db (set as) = {}"
      "held st = Some (opt_list (map_option Ah (ah st)) @ map Block as @ header_part st @
          [Mr dmr, Block db, Qp k, Cq q, Pd p, Device c])"
    and ok: "distinct as" "distinct (array_blocks st)" "set (array_blocks st) \<subseteq> set as"
    using assms(1) by (auto simp: holds_buffers_def)
  have "\<not> depends_on d (Block x)"
    if "d \<in> set (header_part st @ [Mr dmr, Block db, Qp k, Cq q, Pd p, Device c])" and "x \<in> set as" for d x
    using that f by (auto simp: header_part_def elem_set)
  note free = held_free [OF f(11) ok(1) _ this, of "Some a"]
  have "filter (\<lambda>x. Some a \<noteq> Some x) as = filter (\<lambda>x. x \<noteq> a) as" by (rule filter_cong) auto
  then have "held (c_free (Some a) st) = Some (opt_list (map_option Ah (ah st)) @
      map Block (filter (\<lambda>x. x \<noteq> a) as) @ header_part st @
      [Mr dmr, Block db, Qp k, Cq q, Pd p, Device c])"
    using free assms(2) by simp
  then show ?thesis using f ok assms(3) by (auto simp: holds_buffers_def)
qed

lemma fail_free_exits:
  assumes "e_destroy env = (\<lambda>_. 0)" and "holds_buffers as st" and "a \<in> set as"
    and "a \<notin> set (array_blocks st)"
  shows "\<exists>st'. fail_free env a st = Exited EXIT_FAILURE st' \<and>
    held st' = Some (map Block (filter (\<lambda>x. x \<noteq> a \<and> x \<notin> set (array_blocks st)) as))"
proof -
  have "filter (\<lambda>x. x \<notin> set (array_blocks st)) (filter (\<lambda>x. x \<noteq> a) as)
      = filter (\<lambda>x. x \<noteq> a \<and> x \<notin> set (array_blocks st)) as"
    by (simp add: conj_commute)
  then show ?thesis
    using rdma_cleanup_releases [OF assms(1) holds_buffers_free [OF assms(2-4)]]
    by (auto simp: fail_free_def)
qed

lemma holds_buffers_arrays:
  assumes "holds_buffers as st" and "array_blocks st' = bs" and "distinct bs" and "set bs \<subseteq> set as"
    and "ctx st' = ctx st" and "protection_domain st' = protection_domain st"
    and "completion_queue st' = completion_queue st" and "queue_pair st' = queue_pair st"
    and "memory_region st' = memory_region st" and "buffer st' = buffer st" and "ah st' = ah st"
    and "header_memory_region st' = header_memory_region st" and "header_buffer st' = header_buffer st"
    and "log st' = log st"
  shows "holds_buffers as st'"
  using assms unfolding holds_buffers_def header_part_def by simp

section \<open>Server\<close>

text \<open>The allocator's contract: blocks that are live at the same time have different addresses.\<close>

definition allocator_ok :: "verbs_env \<Rightarrow> bool" where
  "allocator_ok env = distinct (concat (map opt_list
     [e_data_buf env, e_header_buf env, e_result env, e_sge env, e_requests env]))"

text \<open>The state \<^verbatim>\<open>rdma_init_server\<close> establishes, for \<open>n\<close> requests and the buffer array \<open>bufs\<close> at
  address \<open>result\<close>.\<close>

definition server_ready :: "nat \<Rightarrow> nat \<Rightarrow> recv_buffer list \<Rightarrow> rdma \<Rightarrow> bool" where
  "server_ready n result bufs st \<longleftrightarrow>
     (\<exists>hb db sg rq hmr dmr.
        header_buffer st = Some hb \<and> buffer st = Some db \<and>
        header_memory_region st = Some hmr \<and> mr_addr hmr = hb \<and> mr_length hmr = word_of_int (int n * 40) \<and>
        memory_region st = Some dmr \<and> mr_addr dmr = db \<and> mr_length dmr = word_of_int (int n * int MSG_SIZE) \<and>
        scatter_gather st = Some (sg, concat (map (server_sges hb db (lkey hmr) (lkey dmr)) [0..<n])) \<and>
        recv_requests st = Some (rq, map (recv_request n) [0..<n]) \<and>
        bufs = map (server_buffer hb db) [0..<n] \<and> distinct [rq, sg, result] \<and>
        holds_buffers [rq, sg, result] st) \<and>
     qp_mode st = Some IBV_QPS_RTR \<and> nic_queue st = [] \<and> queue_size st = int n \<and> send_requests st = None \<and> ah st = None"

lemma holds_buffers_reported: "holds_buffers as st \<Longrightarrow> holds_buffers as (record_call (Reported l q g) st)"
  by (simp add: holds_buffers_def)

text \<open>After both buffers are allocated and registered.\<close>

definition server_buffers :: "nat \<Rightarrow> rdma \<Rightarrow> bool" where
  "server_buffers n st \<longleftrightarrow>
     holds_buffers [] st \<and> header_memory_region st \<noteq> None \<and>
     map_option mr_length (header_memory_region st) = Some (word_of_int (int n * 40)) \<and>
     map_option mr_length (memory_region st) = Some (word_of_int (int n * int MSG_SIZE)) \<and>
     scatter_gather st = None \<and> recv_requests st = None \<and> send_requests st = None \<and>
     qp_mode st = Some IBV_QPS_RTR \<and> nic_queue st = [] \<and> queue_size st = int n \<and> ah st = None"

lemma server_buffersE:
  assumes "server_buffers n st"
  obtains hmr dmr where "header_memory_region st = Some hmr" "memory_region st = Some dmr"
    "header_buffer st = Some (mr_addr hmr)" "buffer st = Some (mr_addr dmr)"
    "mr_length hmr = word_of_int (int n * 40)" "mr_length dmr = word_of_int (int n * int MSG_SIZE)"
  using assms by (auto simp: server_buffers_def holds_buffers_def)

lemma server_report_cases:
  assumes "e_destroy env = (\<lambda>_. 0)" and "holds_buffers as st" and "a \<in> set as"
    and "a \<notin> set (array_blocks st)"
  shows "case server_report env a st of
      Ret _ st' \<Rightarrow> \<exists>l q g. st' = record_call (Reported l q g) st
    | Exited c st' \<Rightarrow> c = EXIT_FAILURE \<and>
        held st' = Some (map Block (filter (\<lambda>x. x \<noteq> a \<and> x \<notin> set (array_blocks st)) as))
    | Undef \<Rightarrow> False"
proof -
  obtain st' where "fail_free env a st = (Exited EXIT_FAILURE st' :: unit run)"
    "held st' = Some (map Block (filter (\<lambda>x. x \<noteq> a \<and> x \<notin> set (array_blocks st)) as))"
    using fail_free_exits [OF assms] by blast
  then show ?thesis by (auto simp: server_report_def Let_def split: option.split prod.split)
qed

text \<open>From the second successful \<^verbatim>\<open>malloc\<close> on: \<open>st\<close> is the state with the three blocks of the arrays.\<close>

lemma server_arrays_filled:
  assumes "e_destroy env = (\<lambda>_. 0)" and "server_buffers n st"
    and "distinct (opt_list (buffer st) @ opt_list (header_buffer st) @ [result, sg, rq])"
    and "e_result env = Some result" and "e_sge env = Some sg" and "e_requests env = Some rq"
  shows "case server_arrays env (int n) st of
      Ret (result, bufs) st' \<Rightarrow> server_ready n result bufs st'
    | Exited c st' \<Rightarrow> c = EXIT_FAILURE \<and> held st' = Some []
    | Undef \<Rightarrow> False"
proof -
  from assms(2) have hb0: "holds_buffers [] st" and none: "scatter_gather st = None"
    "recv_requests st = None" "send_requests st = None" "ah st = None"
    and mode: "qp_mode st = Some IBV_QPS_RTR" "queue_size st = int n" "nic_queue st = []"
    by (simp_all add: server_buffers_def)
  obtain hmr dmr where mr: "header_memory_region st = Some hmr" "memory_region st = Some dmr"
    "header_buffer st = Some (mr_addr hmr)" "buffer st = Some (mr_addr dmr)"
    "mr_length hmr = word_of_int (int n * 40)" "mr_length dmr = word_of_int (int n * int MSG_SIZE)"
    using server_buffersE [OF assms(2)] by blast
  let ?log = "record_call (Created (Block rq)) (record_call (Created (Block sg))
    (record_call (Created (Block result)) st))"
  let ?sge = "concat (map (server_sges (mr_addr hmr) (mr_addr dmr) (lkey hmr) (lkey dmr)) [0..<n])"
  let ?st = "?log\<lparr>scatter_gather := Some (sg, ?sge), recv_requests := Some (rq, map (recv_request n) [0..<n])\<rparr>"
  have 1: "holds_buffers [result] (record_call (Created (Block result)) st)"
    using holds_buffers_new_block [OF hb0 none(4)] assms(3) mr by simp
  have 2: "holds_buffers [sg, result] (record_call (Created (Block sg)) (record_call (Created (Block result)) st))"
    by (rule holds_buffers_new_block [OF 1]) (use assms(3) mr none in auto)
  have 3: "holds_buffers [rq, sg, result] ?log"
    by (rule holds_buffers_new_block [OF 2]) (use assms(3) mr none in auto)
  have hb: "holds_buffers [rq, sg, result] ?st"
    by (rule holds_buffers_arrays [OF 3, where bs = "[sg, rq]"]) (use assms(3) none in \<open>auto simp: array_blocks_def\<close>)
  have blocks: "array_blocks ?st = [sg, rq]" by (simp add: array_blocks_def none)
  have run: "server_arrays env (int n) st = bind_run (server_report env result ?st)
      (\<lambda>_ st. Ret (result, map (server_buffer (mr_addr hmr) (mr_addr dmr)) [0..<n]) st)"
    by (simp add: server_arrays_def Let_def assms(4-6) mr server_fold record_call_def)
  have ready: "server_ready n result (map (server_buffer (mr_addr hmr) (mr_addr dmr)) [0..<n])
      (record_call (Reported l q g) ?st)" for l q g
    using holds_buffers_reported [OF hb] mr none mode assms(3) by (auto simp: server_ready_def)
  show ?thesis
    using server_report_cases [OF assms(1) hb, of result] assms(3) ready
    unfolding run blocks by (auto split: run.splits)
qed

lemma server_arrays_cases:
  assumes "e_destroy env = (\<lambda>_. 0)" and "server_buffers n st"
    and "distinct (opt_list (buffer st) @ opt_list (header_buffer st) @
           opt_list (e_result env) @ opt_list (e_sge env) @ opt_list (e_requests env))"
  shows "case server_arrays env (int n) st of
      Ret (result, bufs) st' \<Rightarrow> server_ready n result bufs st'
    | Exited c st' \<Rightarrow> c = EXIT_FAILURE \<and>
        (held st' = Some [] \<or>
         (\<exists>result. e_result env = Some result \<and> (e_sge env = None \<or> e_requests env = None) \<and>
            held st' = Some [Block result]))
    | Undef \<Rightarrow> False"
proof (cases "e_result env")
  case None
  have "holds_buffers [] st" using assms(2) by (simp add: server_buffers_def)
  from fail_exits [OF assms(1) this, where ?'a = "nat \<times> recv_buffer list"] None show ?thesis by (auto simp: server_arrays_def Let_def)
next
  case (Some result)
  note r = this
  from assms(2) have hb0: "holds_buffers [] st" and none: "scatter_gather st = None"
    "recv_requests st = None" "send_requests st = None" "ah st = None"
    by (simp_all add: server_buffers_def)
  have hb1: "holds_buffers [result] (record_call (Created (Block result)) st)"
    using holds_buffers_new_block [OF hb0 none(4)] assms(3) r by (auto simp: elem_set)
  show ?thesis
  proof (cases "e_sge env")
    case None
    have "holds_buffers [result] ((record_call (Created (Block result)) st)\<lparr>scatter_gather := None\<rparr>)"
      by (rule holds_buffers_arrays [OF hb1, where bs = "[]"]) (simp_all add: array_blocks_def none)
    from fail_exits [OF assms(1) this, where ?'a = "nat \<times> recv_buffer list"] None r show ?thesis
      by (auto simp: server_arrays_def Let_def array_blocks_def none)
  next
    case (Some sg)
    note s = this
    show ?thesis
    proof (cases "e_requests env")
      case None
      let ?st2 = "record_call (Created (Block sg)) ((record_call (Created (Block result)) st)
        \<lparr>scatter_gather := Some (sg, map (e_sge0 env) [0..<2 * n])\<rparr>)"
      have "holds_buffers [sg, result] (record_call (Created (Block sg)) (record_call (Created (Block result)) st))"
        by (rule holds_buffers_new_block [OF hb1]) (use assms(3) r s none in \<open>auto simp: elem_set\<close>)
      then have "holds_buffers [sg, result] (?st2\<lparr>recv_requests := None\<rparr>)"
        by (rule holds_buffers_arrays [where bs = "[sg]"]) (simp_all add: array_blocks_def none)
      from fail_exits [OF assms(1) this, where ?'a = "nat \<times> recv_buffer list"] show ?thesis
        using None r s assms(3) by (auto simp: server_arrays_def Let_def array_blocks_def none)
    next
      case (Some rq)
      then show ?thesis
        using server_arrays_filled [OF assms(1,2) _ r s Some] assms(3) r s
        by (auto split: run.splits)
    qed
  qed
qed

text \<open>After the data buffer is allocated and registered.\<close>

definition data_ready :: "nat \<Rightarrow> rdma \<Rightarrow> bool" where
  "data_ready n st \<longleftrightarrow>
     holds_buffers [] st \<and> header_buffer st = None \<and> header_memory_region st = None \<and>
     map_option mr_length (memory_region st) = Some (word_of_int (int n * int MSG_SIZE)) \<and>
     scatter_gather st = None \<and> recv_requests st = None \<and> send_requests st = None \<and>
     qp_mode st = Some IBV_QPS_RTR \<and> nic_queue st = [] \<and> queue_size st = int n \<and> ah st = None"

lemma allocate_data_cases:
  assumes "e_destroy env = (\<lambda>_. 0)" and "rdma_ready (int n) st"
  shows "\<exists>r b m st1. allocate_buf memalign reg (buffer st) (memory_region st)
      (word_of_int (int n * int MSG_SIZE)) st = Ret (r, b, m) st1 \<and>
    (if r \<noteq> 0
     then \<exists>st2. internal_rdma_cleanup env (st1\<lparr>buffer := b, memory_region := m\<rparr>) = Ret () st2 \<and> held st2 = Some []
     else b = memalign \<and> b \<noteq> None \<and> data_ready n (st1\<lparr>buffer := b, memory_region := m\<rparr>))"
proof -
  obtain c p q k where f: "ctx st = Some c" "protection_domain st = Some p"
    "completion_queue st = Some q" "queue_pair st = Some k" "held st = Some [Qp k, Cq q, Pd p, Device c]"
    using assms(2) by (auto simp: rdma_ready_def)
  have int: "\<exists>st2. internal_rdma_cleanup env st1 = Ret () st2 \<and> held st2 = Some []"
    if "ctx st1 = Some c" "protection_domain st1 = Some p" "completion_queue st1 = Some q"
      "queue_pair st1 = Some k" "ah st1 = None" "held st1 = Some [Qp k, Cq q, Pd p, Device c]" for st1
    using internal_cleanup_releases [OF assms(1), of st1 c p q k "[]"] that by simp
  show ?thesis
    using f assms(2)
    by (cases memalign; cases reg)
      (auto simp: allocate_buf_def Let_def rdma_ready_def data_ready_def holds_buffers_def header_part_def
        array_blocks_def c_free_def intro!: int)
qed

lemma allocate_header_cases:
  assumes "e_destroy env = (\<lambda>_. 0)" and "data_ready n st" and "set_option memalign \<inter> set_option (buffer st) = {}"
  shows "\<exists>r b m st1. allocate_buf memalign reg (header_buffer st) (header_memory_region st)
      (word_of_int (int n * 40)) st = Ret (r, b, m) st1 \<and>
    (if r \<noteq> 0 then holds_buffers [] (st1\<lparr>header_buffer := b, header_memory_region := m\<rparr>)
     else b = memalign \<and> buffer st1 = buffer st \<and>
       server_buffers n (st1\<lparr>header_buffer := b, header_memory_region := m\<rparr>))"
  using assms(2,3)
  by (cases memalign; cases reg)
    (auto simp: allocate_buf_def Let_def data_ready_def server_buffers_def holds_buffers_def header_part_def
      array_blocks_def c_free_def)

lemma int_times_small: "0 \<le> a * b \<Longrightarrow> a * b < 2 ^ 31 \<Longrightarrow> int_times a b = Some (a * b)"
  by (simp add: int_times_def)

text \<open>What is still held when \<^verbatim>\<open>rdma_init_server\<close> or \<^verbatim>\<open>rdma_init_client\<close> ends the process: nothing,
  except the device when the protection domain could not be allocated, and the buffer array when one of
  the later \<^verbatim>\<open>malloc\<close> calls failed.\<close>

definition leak :: "verbs_env \<Rightarrow> resource list \<Rightarrow> bool" where
  "leak env L \<longleftrightarrow> L = [] \<or>
     e_alloc_pd env = None \<and> (\<exists>d. L = [Device d]) \<or>
     (\<exists>result. e_result env = Some result \<and> (e_sge env = None \<or> e_requests env = None) \<and>
        L = [Block result])"

text \<open>The rest of \<^verbatim>\<open>rdma_init_server\<close> once the data buffer is in place.\<close>

lemma server_after_data:
  assumes "e_destroy env = (\<lambda>_. 0)" and "allocator_ok env" and "data_ready n st"
    and "buffer st = e_data_buf env"
  shows "\<exists>r b mr st2. allocate_buf (e_header_buf env) (e_header_mr env) (header_buffer st)
      (header_memory_region st) (word_of_int (int n * 40)) st = Ret (r, b, mr) st2 \<and>
    (let st' = st2\<lparr>header_buffer := b, header_memory_region := mr\<rparr> in
     case (if r \<noteq> 0 then fail env st' else server_arrays env (int n) st') of
      Ret (result, bufs) st \<Rightarrow> server_ready n result bufs st
    | Exited c st \<Rightarrow> c = EXIT_FAILURE \<and> (\<exists>L. held st = Some L \<and> leak env L)
    | Undef \<Rightarrow> False)"
proof -
  have "set_option (e_header_buf env) \<inter> set_option (buffer st) = {}"
    using assms(2,4) by (auto simp: allocator_ok_def)
  then obtain r b mr st2 where a: "allocate_buf (e_header_buf env) (e_header_mr env)
      (header_buffer st) (header_memory_region st) (word_of_int (int n * 40)) st = Ret (r, b, mr) st2"
    and c: "if r \<noteq> 0 then holds_buffers [] (st2\<lparr>header_buffer := b, header_memory_region := mr\<rparr>)
      else b = e_header_buf env \<and> buffer st2 = buffer st \<and>
        server_buffers n (st2\<lparr>header_buffer := b, header_memory_region := mr\<rparr>)"
    using allocate_header_cases [OF assms(1,3)] by blast
  let ?st' = "st2\<lparr>header_buffer := b, header_memory_region := mr\<rparr>"
  show ?thesis
  proof (cases "r = 0")
    case False
    then show ?thesis
      using a c fail_exits [OF assms(1), of "[]" ?st', where ?'a = "nat \<times> recv_buffer list"]
      by (auto simp: leak_def)
  next
    case True
    have "distinct (opt_list (buffer ?st') @ opt_list (header_buffer ?st') @
         opt_list (e_result env) @ opt_list (e_sge env) @ opt_list (e_requests env))"
      using c True assms(2,4) by (simp add: allocator_ok_def)
    moreover have "server_buffers n ?st'" using c True by auto
    ultimately show ?thesis
      using server_arrays_cases [OF assms(1), of n ?st'] a True by (auto simp: leak_def split: run.splits)
  qed
qed

lemma rdma_init_server_cases:
  assumes "e_destroy env = (\<lambda>_. 0)" and "allocator_ok env" and "n * MSG_SIZE < 2 ^ 31"
  shows "case rdma_init_server env dev (int n) (rdma_start m) of
      Ret (result, bufs) st \<Rightarrow> server_ready n result bufs st
    | Exited c st \<Rightarrow> c = EXIT_FAILURE \<and> (\<exists>L. held st = Some L \<and> leak env L)
    | Undef \<Rightarrow> \<exists>names i. e_dev_list env = Some names \<and> find_device names dev 0 = Some i \<and> e_open env i = None"
proof (cases "rdma_init env dev (int n) (rdma_start m)")
  case (Ret u st)
  then have ready: "rdma_ready (int n) st"
    using rdma_init_cases [OF assms(1), where dev = dev and n = "int n" and m = m] by simp
  have "int n * int MSG_SIZE < 2 ^ 31" using assms(3) by (simp flip: of_nat_mult)
  then have sizes: "int_times (int n) (int MSG_SIZE) = Some (int n * int MSG_SIZE)"
    "int_times (int n) 40 = Some (int n * 40)"
    by (auto simp: MSG_SIZE_def intro!: int_times_small)
  obtain r b mr st1 where a1: "allocate_buf (e_data_buf env) (e_data_mr env) (buffer st) (memory_region st)
      (word_of_int (int n * int MSG_SIZE)) st = Ret (r, b, mr) st1"
    and a1c: "if r \<noteq> 0
     then \<exists>st2. internal_rdma_cleanup env (st1\<lparr>buffer := b, memory_region := mr\<rparr>) = Ret () st2 \<and> held st2 = Some []
     else b = e_data_buf env \<and> b \<noteq> None \<and> data_ready n (st1\<lparr>buffer := b, memory_region := mr\<rparr>)"
    using allocate_data_cases [OF assms(1) ready] by blast
  show ?thesis
  proof (cases "r = 0")
    case False
    then show ?thesis using Ret a1 a1c sizes by (auto simp: rdma_init_server_def leak_def)
  next
    case True
    let ?st = "st1\<lparr>buffer := b, memory_region := mr\<rparr>"
    have "data_ready n ?st" and "buffer ?st = e_data_buf env" using a1c True by auto
    then obtain r' b' mr' st2 where
      "allocate_buf (e_header_buf env) (e_header_mr env) (header_buffer ?st) (header_memory_region ?st)
        (word_of_int (int n * 40)) ?st = Ret (r', b', mr') st2"
      and res: "case (if r' \<noteq> 0 then fail env (st2\<lparr>header_buffer := b', header_memory_region := mr'\<rparr>)
          else server_arrays env (int n) (st2\<lparr>header_buffer := b', header_memory_region := mr'\<rparr>)) of
        Ret (result, bufs) st \<Rightarrow> server_ready n result bufs st
      | Exited c st \<Rightarrow> c = EXIT_FAILURE \<and> (\<exists>L. held st = Some L \<and> leak env L) | Undef \<Rightarrow> False"
      using server_after_data [OF assms(1,2)] unfolding Let_def by blast
    then have "rdma_init_server env dev (int n) (rdma_start m) =
        (if r' \<noteq> 0 then fail env (st2\<lparr>header_buffer := b', header_memory_region := mr'\<rparr>)
         else server_arrays env (int n) (st2\<lparr>header_buffer := b', header_memory_region := mr'\<rparr>))"
      using Ret a1 sizes True by (simp add: rdma_init_server_def Let_def)
    with res show ?thesis by (auto split: run.splits)
  qed
next
  case (Exited c st)
  then show ?thesis
    using rdma_init_cases [OF assms(1), where dev = dev and n = "int n" and m = m] by (auto simp: rdma_init_server_def leak_def)
next
  case Undef
  then show ?thesis
    using rdma_init_cases [OF assms(1), where dev = dev and n = "int n" and m = m] by (simp add: rdma_init_server_def)
qed

section \<open>Client\<close>

text \<open>The state \<^verbatim>\<open>rdma_init_client\<close> establishes.\<close>

definition client_ready ::
  "verbs_env \<Rightarrow> nat \<Rightarrow> int \<Rightarrow> ibv_gid \<Rightarrow> u32 \<Rightarrow> nat \<Rightarrow> send_buffer list \<Rightarrow> rdma \<Rightarrow> bool" where
  "client_ready env n lid gid qpn result bufs st \<longleftrightarrow>
     (\<exists>db sg sq dmr h.
        buffer st = Some db \<and> memory_region st = Some dmr \<and> mr_addr dmr = db \<and>
        mr_length dmr = word_of_int (int n * int MSG_SIZE) \<and>
        e_create_ah env (client_ah_attr lid gid) = Some h \<and> ah st = Some h \<and>
        scatter_gather st = Some (sg, map (client_sge db (lkey dmr)) [0..<n]) \<and>
        send_requests st = Some (sq, map (send_request (send_flags st) (Some h) qpn n) [0..<n]) \<and>
        bufs = map (client_buffer db) [0..<n] \<and> distinct [sq, sg, result] \<and>
        holds_buffers [sq, sg, result] st) \<and>
     qp_mode st = Some IBV_QPS_RTS \<and> nic_queue st = [] \<and> queue_size st = int n \<and> recv_requests st = None \<and>
     header_buffer st = None \<and> header_memory_region st = None"

lemma holds_buffers_modified:
  "holds_buffers as st \<Longrightarrow> queue_pair st = Some q \<Longrightarrow>
     holds_buffers as (record_call (Modified q attr msk ret) st)"
  by (auto simp: holds_buffers_def)

lemma holds_buffers_new_ah:
  assumes "holds_buffers as st" and "ah st = None"
  shows "holds_buffers as (record_call (Created (Ah h)) (st\<lparr>ah := Some h\<rparr>))"
proof -
  have "has_pd (K @ [Mr d, Block b, Qp k, Cq q, Pd p, Device c])" for K d b k q p c
    by (simp add: has_pd_def)
  then have "has_pd (map Block as @ header_part st @ [Mr d, Block b, Qp k, Cq q, Pd p, Device c])"
    for d b k q p c by (metis append_assoc)
  then show ?thesis
    using assms by (auto simp: holds_buffers_def header_part_def array_blocks_def)
qed

lemma holds_buffers_queue_pair: "holds_buffers as st \<Longrightarrow> \<exists>q. queue_pair st = Some q"
  by (auto simp: holds_buffers_def)

text \<open>\<^verbatim>\<open>client_connect\<close> on the state with the three blocks of the arrays.\<close>

lemma client_connect_cases:
  assumes "e_destroy env = (\<lambda>_. 0)" and "holds_buffers [sq, sg, result] st"
    and "array_blocks st = [sg, sq]" and "recv_requests st = None" and "ah st = None"
    and "header_buffer st = None" and "header_memory_region st = None"
    and "map_option mr_length (memory_region st) = Some (word_of_int (int n * int MSG_SIZE))"
    and "qp_mode st = Some IBV_QPS_RTR" and "queue_size st = int n" and "nic_queue st = []"
  shows "case client_connect env (int n) lid gid qpn result sg sq st of
      Ret (r, bufs) st' \<Rightarrow> r = result \<and> client_ready env n lid gid qpn result bufs st'
    | Exited c st' \<Rightarrow> c = EXIT_FAILURE \<and> held st' = Some []
    | Undef \<Rightarrow> False"
proof -
  have d: "distinct [sq, sg, result]" using assms(2) by (simp add: holds_buffers_def)
  obtain q where q: "queue_pair st = Some q" using holds_buffers_queue_pair [OF assms(2)] by blast
  let ?attr = "(e_qp_attr0 env)\<lparr>qp_state := IBV_QPS_RTS, sq_psn := 0\<rparr>"
  let ?msk = "IBV_QP_STATE OR IBV_QP_SQ_PSN"
  let ?r = "e_modify_qp env ?attr ?msk"
  let ?st1 = "record_call (Modified q ?attr ?msk ?r) st"
  have hb1: "holds_buffers [sq, sg, result] ?st1" by (rule holds_buffers_modified [OF assms(2) q])
  have exits: "\<exists>st'. fail_free env result s = (Exited EXIT_FAILURE st' :: (nat \<times> send_buffer list) run) \<and>
      held st' = Some []" if "holds_buffers [sq, sg, result] s" "array_blocks s = [sg, sq]" for s
    using fail_free_exits [OF assms(1) that(1), of result] that(2) d by auto
  have run: "client_connect env (int n) lid gid qpn result sg sq st =
      (if ?r \<noteq> 0 then fail_free env result ?st1
       else case e_create_ah env (client_ah_attr lid gid) of
         None \<Rightarrow> fail_free env result (?st1\<lparr>ah := None\<rparr>)
       | Some h \<Rightarrow> case (buffer st, memory_region st) of (Some db, Some dmr) \<Rightarrow>
           Ret (result, map (client_buffer db) [0..<n])
             ((record_call (Created (Ah h)) (?st1\<lparr>ah := Some h\<rparr>))
              \<lparr>scatter_gather := Some (sg, map (client_sge db (lkey dmr)) [0..<n]),
                send_requests := Some (sq, map (send_request (send_flags st) (Some h) qpn n) [0..<n])\<rparr>)
         | _ \<Rightarrow> Undef)"
    using q by (simp add: client_connect_def modify_qp_def client_fold Let_def split: option.split)
  obtain dmr where mr: "memory_region st = Some dmr" "buffer st = Some (mr_addr dmr)"
    "mr_length dmr = word_of_int (int n * int MSG_SIZE)"
    using assms(2,8) by (auto simp: holds_buffers_def)
  have hb2: "holds_buffers [sq, sg, result] (?st1\<lparr>ah := None\<rparr>)"
    by (rule holds_buffers_arrays [OF hb1, where bs = "[sg, sq]"])
      (use assms(3,5) d in \<open>auto simp: array_blocks_def\<close>)
  have ready: "client_ready env n lid gid qpn result (map (client_buffer (mr_addr dmr)) [0..<n])
      ((record_call (Created (Ah h)) (?st1\<lparr>ah := Some h\<rparr>))
        \<lparr>scatter_gather := Some (sg, map (client_sge (mr_addr dmr) (lkey dmr)) [0..<n]),
          send_requests := Some (sq, map (send_request (send_flags st) (Some h) qpn n) [0..<n])\<rparr>)"
    (is "client_ready _ _ _ _ _ _ _ ?st2")
    if h: "e_create_ah env (client_ah_attr lid gid) = Some h" and r: "?r = 0" for h
  proof -
    have "holds_buffers [sq, sg, result] (record_call (Created (Ah h)) (?st1\<lparr>ah := Some h\<rparr>))"
      by (rule holds_buffers_new_ah [OF hb1]) (simp add: assms(5))
    then have "holds_buffers [sq, sg, result] ?st2"
      by (rule holds_buffers_arrays [where bs = "[sg, sq]"])
        (use assms(4) d in \<open>auto simp: array_blocks_def\<close>)
    then show ?thesis
      using mr h r d assms(4-11) by (simp add: client_ready_def)
  qed
  have a1: "array_blocks ?st1 = [sg, sq]" and a2: "array_blocks (?st1\<lparr>ah := None\<rparr>) = [sg, sq]"
    using assms(3) by (simp_all add: array_blocks_def)
  show ?thesis
    using exits [OF hb1 a1] exits [OF hb2 a2] ready mr unfolding run by (auto split: option.split)
qed

lemma client_arrays_cases:
  assumes "e_destroy env = (\<lambda>_. 0)" and "data_ready n st"
    and "distinct (opt_list (buffer st) @ opt_list (e_result env) @ opt_list (e_sge env) @ opt_list (e_requests env))"
  shows "case client_arrays env (int n) lid gid qpn st of
      Ret (result, bufs) st' \<Rightarrow> client_ready env n lid gid qpn result bufs st'
    | Exited c st' \<Rightarrow> c = EXIT_FAILURE \<and> (\<exists>L. held st' = Some L \<and> leak env L)
    | Undef \<Rightarrow> False"
proof (cases "e_result env")
  case None
  have "holds_buffers [] st" using assms(2) by (simp add: data_ready_def)
  from fail_exits [OF assms(1) this, where ?'a = "nat \<times> send_buffer list"] None show ?thesis
    by (auto simp: client_arrays_def Let_def leak_def)
next
  case (Some result)
  note r = this
  from assms(2) have hb0: "holds_buffers [] st" and none: "scatter_gather st = None"
    "recv_requests st = None" "send_requests st = None" "ah st = None" "header_buffer st = None"
    "header_memory_region st = None" and len: "queue_size st = int n" "qp_mode st = Some IBV_QPS_RTR" "nic_queue st = []"
    "map_option mr_length (memory_region st) = Some (word_of_int (int n * int MSG_SIZE))"
    by (simp_all add: data_ready_def)
  have hb1: "holds_buffers [result] (record_call (Created (Block result)) st)"
    using holds_buffers_new_block [OF hb0 none(4)] assms(3) r none by (auto simp: elem_set)
  show ?thesis
  proof (cases "e_sge env")
    case None
    have "holds_buffers [result] ((record_call (Created (Block result)) st)\<lparr>scatter_gather := None\<rparr>)"
      by (rule holds_buffers_arrays [OF hb1, where bs = "[]"]) (simp_all add: array_blocks_def none)
    from fail_exits [OF assms(1) this, where ?'a = "nat \<times> send_buffer list"] None r show ?thesis
      by (auto simp: client_arrays_def Let_def array_blocks_def none leak_def)
  next
    case (Some sg)
    note s = this
    let ?st2 = "record_call (Created (Block sg)) ((record_call (Created (Block result)) st)
      \<lparr>scatter_gather := Some (sg, map (e_sge0 env) [0..<n])\<rparr>)"
    have "holds_buffers [sg, result] (record_call (Created (Block sg)) (record_call (Created (Block result)) st))"
      by (rule holds_buffers_new_block [OF hb1]) (use assms(3) r s none in \<open>auto simp: elem_set\<close>)
    then have hb2: "holds_buffers [sg, result] ?st2"
      by (rule holds_buffers_arrays [where bs = "[sg]"]) (simp_all add: array_blocks_def none)
    show ?thesis
    proof (cases "e_requests env")
      case None
      have "holds_buffers [sg, result] (?st2\<lparr>send_requests := None\<rparr>)"
        by (rule holds_buffers_arrays [OF hb2, where bs = "[sg]"]) (simp_all add: array_blocks_def none)
      from fail_exits [OF assms(1) this, where ?'a = "nat \<times> send_buffer list"] show ?thesis
        using None r s assms(3) by (auto simp: client_arrays_def Let_def array_blocks_def none leak_def)
    next
      case (Some sq)
      let ?st3 = "record_call (Created (Block sq)) (?st2\<lparr>send_requests := Some (sq, map (e_send0 env) [0..<n])\<rparr>)"
      have d: "distinct [sq, sg, result]" using assms(3) r s Some by auto
      have "holds_buffers [sq, sg, result] (record_call (Created (Block sq)) ?st2)"
        by (rule holds_buffers_new_block [OF hb2]) (use assms(3) r s Some none in \<open>auto simp: elem_set\<close>)
      then have hb3: "holds_buffers [sq, sg, result] ?st3"
        by (rule holds_buffers_arrays [where bs = "[sg, sq]"]) (use d in \<open>auto simp: array_blocks_def none\<close>)
      have "client_arrays env (int n) lid gid qpn st = client_connect env (int n) lid gid qpn result sg sq ?st3"
        using r s Some by (simp add: client_arrays_def Let_def)
      then show ?thesis
        using client_connect_cases [OF assms(1) hb3, of n lid gid qpn] none len
        by (auto simp: array_blocks_def leak_def split: run.splits)
    qed
  qed
qed

lemma rdma_init_client_cases:
  assumes "e_destroy env = (\<lambda>_. 0)" and "allocator_ok env" and "n * MSG_SIZE < 2 ^ 31"
  shows "case rdma_init_client env dev (int n) lid gid qpn (rdma_start m) of
      Ret (result, bufs) st \<Rightarrow> client_ready env n lid gid qpn result bufs st
    | Exited c st \<Rightarrow> c = EXIT_FAILURE \<and> (\<exists>L. held st = Some L \<and> leak env L)
    | Undef \<Rightarrow> \<exists>names i. e_dev_list env = Some names \<and> find_device names dev 0 = Some i \<and> e_open env i = None"
proof (cases "rdma_init env dev (int n) (rdma_start m)")
  case (Ret u st)
  then have ready: "rdma_ready (int n) st"
    using rdma_init_cases [OF assms(1), where dev = dev and n = "int n" and m = m] by simp
  have "int n * int MSG_SIZE < 2 ^ 31" using assms(3) by (simp flip: of_nat_mult)
  then have sizes: "int_times (int n) (int MSG_SIZE) = Some (int n * int MSG_SIZE)"
    by (simp add: int_times_small)
  obtain r b mr st1 where a: "allocate_buf (e_data_buf env) (e_data_mr env) (buffer st) (memory_region st)
      (word_of_int (int n * int MSG_SIZE)) st = Ret (r, b, mr) st1"
    and c: "if r \<noteq> 0
     then \<exists>st2. internal_rdma_cleanup env (st1\<lparr>buffer := b, memory_region := mr\<rparr>) = Ret () st2 \<and> held st2 = Some []
     else b = e_data_buf env \<and> b \<noteq> None \<and> data_ready n (st1\<lparr>buffer := b, memory_region := mr\<rparr>)"
    using allocate_data_cases [OF assms(1) ready] by blast
  show ?thesis
  proof (cases "r = 0")
    case False
    then show ?thesis using Ret a c sizes by (auto simp: rdma_init_client_def leak_def)
  next
    case True
    let ?st = "st1\<lparr>buffer := b, memory_region := mr\<rparr>"
    have "rdma_init_client env dev (int n) lid gid qpn (rdma_start m) = client_arrays env (int n) lid gid qpn ?st"
      using Ret a sizes True by (simp add: rdma_init_client_def Let_def)
    moreover have "distinct (opt_list (buffer ?st) @ opt_list (e_result env) @ opt_list (e_sge env) @
        opt_list (e_requests env))"
      using c True assms(2) by (auto simp: allocator_ok_def)
    moreover have "data_ready n ?st" using c True by auto
    ultimately show ?thesis
      using client_arrays_cases [OF assms(1), of n ?st lid gid qpn] by (auto split: run.splits)
  qed
next
  case (Exited c st)
  then show ?thesis
    using rdma_init_cases [OF assms(1), where dev = dev and n = "int n" and m = m]
    by (auto simp: rdma_init_client_def leak_def)
next
  case Undef
  then show ?thesis
    using rdma_init_cases [OF assms(1), where dev = dev and n = "int n" and m = m]
    by (simp add: rdma_init_client_def)
qed

section \<open>Failing destroy calls\<close>

lemma reliable_contracts [simp]:
  "allocator_ok (reliable env) = allocator_ok env"
  "client_ready (reliable env) = client_ready env" "leak (reliable env) = leak env"
  by (simp_all add: allocator_ok_def client_ready_def [abs_def] leak_def [abs_def])

lemma rdma_init_server_any:
  assumes "allocator_ok env" and "n * MSG_SIZE < 2 ^ 31"
  shows "case rdma_init_server env dev (int n) (rdma_start m) of
      Ret (result, bufs) st \<Rightarrow> server_ready n result bufs st
    | Exited c st \<Rightarrow> c = EXIT_FAILURE \<and> (e_destroy env = (\<lambda>_. 0) \<longrightarrow> (\<exists>L. held st = Some L \<and> leak env L))
    | Undef \<Rightarrow> \<exists>names i. e_dev_list env = Some names \<and> find_device names dev 0 = Some i \<and> e_open env i = None"
proof (cases "e_destroy env = (\<lambda>_. 0)")
  case True
  then show ?thesis using rdma_init_server_cases [OF True assms, of dev m] by (auto split: run.splits)
next
  case False
  note good = rdma_init_server_cases [of "reliable env" n dev m, unfolded reliable_contracts, OF _ assms]
  have "or_ends (rdma_init_server env dev (int n) (rdma_start m)) (rdma_init_server (reliable env) dev (int n) (rdma_start m))"
    by (rule or_ends_server)
  then show ?thesis
    using good False unfolding or_ends_def by (auto split: run.splits)
qed

lemma rdma_init_client_any:
  assumes "allocator_ok env" and "n * MSG_SIZE < 2 ^ 31"
  shows "case rdma_init_client env dev (int n) lid gid qpn (rdma_start m) of
      Ret (result, bufs) st \<Rightarrow> client_ready env n lid gid qpn result bufs st
    | Exited c st \<Rightarrow> c = EXIT_FAILURE \<and> (e_destroy env = (\<lambda>_. 0) \<longrightarrow> (\<exists>L. held st = Some L \<and> leak env L))
    | Undef \<Rightarrow> \<exists>names i. e_dev_list env = Some names \<and> find_device names dev 0 = Some i \<and> e_open env i = None"
proof (cases "e_destroy env = (\<lambda>_. 0)")
  case True
  then show ?thesis
    using rdma_init_client_cases [OF True assms, where dev = dev and lid = lid and gid = gid and qpn = qpn and m = m]
    by (auto split: run.splits)
next
  case False
  note good = rdma_init_client_cases [where env = "reliable env" and dev = dev and lid = lid and gid = gid
      and qpn = qpn and m = m, unfolded reliable_contracts, OF _ assms]
  have "or_ends (rdma_init_client env dev (int n) lid gid qpn (rdma_start m))
      (rdma_init_client (reliable env) dev (int n) lid gid qpn (rdma_start m))"
    by (rule or_ends_client)
  then show ?thesis
    using good False unfolding or_ends_def by (auto split: run.splits)
qed

section \<open>Layout of the buffers\<close>

lemma take_drop_pairs:
  assumes "\<And>j. length (f j) = 2" and "i < n"
  shows "take 2 (drop (2 * i) (concat (map f [0..<n]))) = f i"
proof -
  have len: "length (concat (map f [0..<i])) = 2 * i" using assms(1) by (induction i) simp_all
  have "[0..<n] = [0..<i] @ i # [Suc i..<n]"
    using assms(2) by (metis less_imp_add_positive less_or_eq_imp_le le_add_same_cancel1 upt_add_eq_append upt_conv_Cons zero_le)
  then have "concat (map f [0..<n]) = concat (map f [0..<i]) @ f i @ concat (map f [Suc i..<n])" by simp
  then show ?thesis using len assms(1) by simp
qed

lemma unat_region:
  assumes "n * MSG_SIZE < 2 ^ 31" and "k \<le> MSG_SIZE"
  shows "unat (word_of_int (int n * int k) :: u64) = n * k"
proof -
  have "n * k \<le> n * MSG_SIZE" by (rule mult_le_mono2 [OF assms(2)])
  moreover have "(2 :: nat) ^ 31 < 2 ^ 64" by simp
  ultimately have "n * k < 2 ^ 64" using assms(1) by linarith
  then show ?thesis by (simp add: unat_of_nat flip: of_nat_mult)
qed

lemma slots_disjoint:
  assumes "i \<noteq> (j :: nat)"
  shows "db + i * k + k \<le> db + j * k \<or> db + j * k + k \<le> db + i * k"
proof -
  have "i * k + k \<le> j * k" if "i < j" for i j :: nat
    using mult_le_mono1 [of "Suc i" j k] that by simp
  then show ?thesis using assms by (metis add.assoc add_left_mono linorder_neqE_nat)
qed

lemma server_ready_layout:
  assumes "server_ready n result bufs st" and "n * MSG_SIZE < 2 ^ 31" and "i < n"
  shows "\<exists>sg sges rq reqs hmr dmr.
    scatter_gather st = Some (sg, sges) \<and> recv_requests st = Some (rq, reqs) \<and>
    header_memory_region st = Some hmr \<and> memory_region st = Some dmr \<and>
    rwr_id (reqs ! i) = word_of_nat i \<and> rwr_num_sge (reqs ! i) = 2 \<and>
    take 2 (drop (rwr_sg_list (reqs ! i)) sges) =
      [\<lparr>sge_addr = word_of_nat (rb_header_buffer (bufs ! i)), sge_length = 40, sge_lkey = lkey hmr\<rparr>,
       \<lparr>sge_addr = word_of_nat (rb_data_buffer (bufs ! i)), sge_length = word_of_nat MSG_SIZE, sge_lkey = lkey dmr\<rparr>] \<and>
    mr_addr hmr \<le> rb_header_buffer (bufs ! i) \<and>
    rb_header_buffer (bufs ! i) + 40 \<le> mr_addr hmr + unat (mr_length hmr) \<and>
    mr_addr dmr \<le> rb_data_buffer (bufs ! i) \<and>
    rb_data_buffer (bufs ! i) + MSG_SIZE \<le> mr_addr dmr + unat (mr_length dmr) \<and>
    (\<forall>j < n. j \<noteq> i \<longrightarrow>
       (rb_header_buffer (bufs ! i) + 40 \<le> rb_header_buffer (bufs ! j) \<or>
        rb_header_buffer (bufs ! j) + 40 \<le> rb_header_buffer (bufs ! i)) \<and>
       (rb_data_buffer (bufs ! i) + MSG_SIZE \<le> rb_data_buffer (bufs ! j) \<or>
        rb_data_buffer (bufs ! j) + MSG_SIZE \<le> rb_data_buffer (bufs ! i)))"
proof -
  obtain sg rq hmr dmr where f: "header_memory_region st = Some hmr" "memory_region st = Some dmr"
    "mr_length hmr = word_of_int (int n * 40)" "mr_length dmr = word_of_int (int n * int MSG_SIZE)"
    "scatter_gather st = Some (sg, concat (map (server_sges (mr_addr hmr) (mr_addr dmr) (lkey hmr) (lkey dmr)) [0..<n]))"
    "recv_requests st = Some (rq, map (recv_request n) [0..<n])"
    "bufs = map (server_buffer (mr_addr hmr) (mr_addr dmr)) [0..<n]"
    using assms(1) by (auto simp: server_ready_def)
  have sizes: "unat (mr_length hmr) = n * 40" "unat (mr_length dmr) = n * MSG_SIZE"
    using unat_region [OF assms(2), of 40] unat_region [OF assms(2), of MSG_SIZE] f(3,4)
    by (simp_all add: MSG_SIZE_def)
  have sges: "take 2 (drop (2 * i) (concat (map (server_sges (mr_addr hmr) (mr_addr dmr) (lkey hmr) (lkey dmr)) [0..<n])))
      = server_sges (mr_addr hmr) (mr_addr dmr) (lkey hmr) (lkey dmr) i"
    by (rule take_drop_pairs [OF _ assms(3)]) (simp add: server_sges_def)
  have "Suc i * k \<le> n * k" for k using assms(3) by (intro mult_le_mono1) simp
  from this [of 40] this [of MSG_SIZE] have bounds: "40 * i + 40 \<le> n * 40" "i * MSG_SIZE + MSG_SIZE \<le> n * MSG_SIZE"
    by simp_all
  show ?thesis
    using f assms(3) sges sizes bounds slots_disjoint [of i _ "mr_addr dmr" MSG_SIZE]
      slots_disjoint [of i _ "mr_addr hmr" 40, unfolded mult.commute [of _ 40]]
    by (auto simp: server_buffer_def recv_request_def server_sges_def)
qed

section \<open>An environment in which every call succeeds\<close>

definition example_cap :: ibv_qp_cap where
  "example_cap = \<lparr>max_send_wr = 100, max_recv_wr = 100, max_send_sge = 1, max_recv_sge = 2, max_inline_data = 0\<rparr>"

definition example_port :: ibv_port_attr where
  "example_port =
     \<lparr>port_state = IBV_PORT_ACTIVE, port_max_mtu = IBV_MTU_4096, active_mtu = IBV_MTU_4096,
      gid_tbl_len = 1, port_cap_flags = 0, max_msg_sz = 0x40000000, bad_pkey_cntr = 0,
      qkey_viol_cntr = 0, pkey_tbl_len = 1, port_lid = 7, sm_lid = 1, lmc = 0, max_vl_num = 1,
      sm_sl = 0, subnet_timeout = 0, init_type_reply = 0, active_width = 2, active_speed = 1,
      phys_state = 5, link_layer = 2, port_reserved = 0\<rparr>"

definition example_qp_attr :: ibv_qp_attr where
  "example_qp_attr =
     \<lparr>qp_state = IBV_QPS_UNKNOWN, cur_qp_state = IBV_QPS_UNKNOWN, path_mtu = IBV_MTU_256,
      path_mig_state = IBV_MIG_MIGRATED, qkey = 0, rq_psn = 9, sq_psn = 9, dest_qp_num = 0,
      qp_access_flags = 0, qp_cap = example_cap, qp_ah_attr = client_ah_attr 0 [],
      alt_ah_attr = client_ah_attr 0 [], pkey_index = 3, alt_pkey_index = 0, en_sqd_async_notify = 0,
      sq_draining = 0, max_rd_atomic = 0, max_dest_rd_atomic = 0, min_rnr_timer = 0, port_num = 0,
      timeout = 0, retry_cnt = 0, rnr_retry = 0, alt_port_num = 0, alt_timeout = 0, rate_limit = 0\<rparr>"

definition example_verbs :: verbs_env where
  "example_verbs =
     \<lparr>e_pagesize = 4096, e_dev_list = Some [''mlx5_0'', ''mlx5_1''], e_open = (\<lambda>i. Some (i + 1)),
      e_query_port = (\<lambda>_ _ _. (0, example_port)), e_port_attr0 = example_port, e_alloc_pd = Some 2,
      e_create_cq = (\<lambda>_. Some 3), e_create_qp = (\<lambda>attr. Some (4, attr)), e_qp_num = 0x182,
      e_query_qp = Pair, e_qp_attr0 = example_qp_attr, e_modify_qp = (\<lambda>_ _. 0),
      e_destroy = (\<lambda>_. 0), e_data_buf = Some 0x10000, e_data_mr = Some (1, 11, 21),
      e_header_buf = Some 0x400000, e_header_mr = Some (2, 12, 22), e_result = Some 0x500000,
      e_sge = Some 0x600000, e_requests = Some 0x700000,
      e_sge0 = (\<lambda>_. \<lparr>sge_addr = 0, sge_length = 0, sge_lkey = 0\<rparr>),
      e_recv0 = (\<lambda>_. \<lparr>rwr_id = 0, rwr_next = None, rwr_sg_list = 0, rwr_num_sge = 0\<rparr>),
      e_send0 = (\<lambda>_. \<lparr>swr_id = 0, swr_next = None, swr_sg_list = 0, swr_num_sge = 0,
        swr_opcode = IBV_WR_SEND, swr_send_flags = 0, ud_ah = None, ud_remote_qpn = 0, ud_remote_qkey = 0\<rparr>),
      e_query_gid = Some (replicate 16 0), e_query_port2 = (\<lambda>_ _ _. (0, example_port)),
      e_ntop = (\<lambda>_. ''::''), e_create_ah = (\<lambda>_. Some 5)\<rparr>"

lemma example_verbs_ok: "e_destroy example_verbs = (\<lambda>_. 0)" "allocator_ok example_verbs"
  by (simp_all add: example_verbs_def allocator_ok_def)

lemmas init_defs = rdma_init_def init_queue_pair_def rdma_start_def modify_qp_def allocate_buf_def
  server_report_def ibv_query_port_def

lemma example_server_returns_any:
  assumes "n * MSG_SIZE < 2 ^ 31" and "dev \<in> {''mlx5_0'', ''mlx5_1''}"
  shows "\<exists>result bufs st. rdma_init_server (example_verbs\<lparr>e_destroy := d\<rparr>) dev (int n) (rdma_start m) =
      Ret (result, bufs) st \<and>
    map_option mr_addr (memory_region st) = Some 0x10000 \<and>
    map_option mr_length (memory_region st) = Some (word_of_nat (n * MSG_SIZE))"
proof -
  have "int n * int MSG_SIZE < 2 ^ 31" using assms(1) by (simp flip: of_nat_mult)
  then have sizes: "int_times (int n) (int MSG_SIZE) = Some (int n * int MSG_SIZE)"
    "int_times (int n) 40 = Some (int n * 40)"
    by (auto simp: MSG_SIZE_def intro!: int_times_small)
  show ?thesis
    using assms(2)
    by (auto simp: rdma_init_server_def init_defs sizes server_arrays_def server_fold Let_def example_verbs_def)
qed

lemma example_server_returns:
  assumes "n * MSG_SIZE < 2 ^ 31" and "dev \<in> {''mlx5_0'', ''mlx5_1''}"
  shows "\<exists>result bufs st. rdma_init_server example_verbs dev (int n) (rdma_start m) = Ret (result, bufs) st \<and>
    map_option mr_addr (memory_region st) = Some 0x10000 \<and>
    map_option mr_length (memory_region st) = Some (word_of_nat (n * MSG_SIZE))"
  using example_server_returns_any [OF assms, of "\<lambda>_. 0" m] by (simp add: example_verbs_def)

lemma example_client_returns:
  assumes "n * MSG_SIZE < 2 ^ 31" and "dev \<in> {''mlx5_0'', ''mlx5_1''}"
  shows "\<exists>result bufs st. rdma_init_client example_verbs dev (int n) lid gid qpn (rdma_start m) = Ret (result, bufs) st"
proof -
  have "int n * int MSG_SIZE < 2 ^ 31" using assms(1) by (simp flip: of_nat_mult)
  then have sizes: "int_times (int n) (int MSG_SIZE) = Some (int n * int MSG_SIZE)"
    by (simp add: int_times_small)
  show ?thesis
    using assms(2)
    by (auto simp: rdma_init_client_def init_defs sizes client_arrays_def client_connect_def client_fold
        Let_def example_verbs_def)
qed

section \<open>Properties\<close>

text \<open>C18: \<^verbatim>\<open>rdma_init_server\<close> for every behaviour of the library, failing destroy calls included, with an
  allocator that keeps its contract and a data buffer whose size fits an \<^verbatim>\<open>int\<close>. If it returns, the process
  holds exactly the device, protection domain, completion queue, queue pair, the two registered buffers
  and the three arrays, the queue pair has gone through reset and init to ready-to-receive with the
  attributes each transition requires, and the arrays are those of \<open>server_ready\<close>. If it ends the process,
  that is with the failure status, and unless a destroy call failed every object was released in an order
  the library allows, and what is left is nothing, or the device when the protection domain could not be
  allocated, or the buffer array when a later \<^verbatim>\<open>malloc\<close> failed. It is undefined only when the device
  that was asked for is in the list and does not open.\<close>

theorem rdma_init_server_outcome:
  assumes "allocator_ok env" and "n * MSG_SIZE < 2 ^ 31"
  shows "case rdma_init_server env dev (int n) (rdma_start m) of
      Ret (result, bufs) st \<Rightarrow> server_ready n result bufs st
    | Exited c st \<Rightarrow> c = EXIT_FAILURE \<and> (e_destroy env = (\<lambda>_. 0) \<longrightarrow> (\<exists>L. held st = Some L \<and> leak env L))
    | Undef \<Rightarrow> \<exists>names i. e_dev_list env = Some names \<and> find_device names dev 0 = Some i \<and> e_open env i = None"
  by (rule rdma_init_server_any [OF assms])

theorem rdma_init_server_outcome_witness:
  "\<exists>result bufs st. rdma_init_server (example_verbs\<lparr>e_destroy := (\<lambda>_. 1)\<rparr>) ''mlx5_1'' (int 2) (rdma_start (\<lambda>_. 0)) =
      Ret (result, bufs) st \<and> server_ready 2 result bufs st"
proof -
  let ?env = "example_verbs\<lparr>e_destroy := (\<lambda>_. 1)\<rparr>"
  have "allocator_ok ?env" by (simp add: example_verbs_def allocator_ok_def)
  moreover have small: "2 * MSG_SIZE < 2 ^ 31" by (simp add: MSG_SIZE_def)
  moreover obtain result bufs st where
    "rdma_init_server ?env ''mlx5_1'' (int 2) (rdma_start (\<lambda>_. 0)) = Ret (result, bufs) st"
    using example_server_returns_any [OF small, of "''mlx5_1''" "\<lambda>_. 1" "\<lambda>_. 0"] by auto
  ultimately show ?thesis using rdma_init_server_outcome [of ?env 2 "''mlx5_1''" "\<lambda>_. 0"] by auto
qed

text \<open>C19: the same for \<^verbatim>\<open>rdma_init_client\<close>, under the same two conditions; when it returns, the queue pair
  is ready to send and every send request names the address handle created for the given LID and GID, and
  the given queue pair.\<close>

theorem rdma_init_client_outcome:
  assumes "allocator_ok env" and "n * MSG_SIZE < 2 ^ 31"
  shows "case rdma_init_client env dev (int n) lid gid qpn (rdma_start m) of
      Ret (result, bufs) st \<Rightarrow> client_ready env n lid gid qpn result bufs st
    | Exited c st \<Rightarrow> c = EXIT_FAILURE \<and> (e_destroy env = (\<lambda>_. 0) \<longrightarrow> (\<exists>L. held st = Some L \<and> leak env L))
    | Undef \<Rightarrow> \<exists>names i. e_dev_list env = Some names \<and> find_device names dev 0 = Some i \<and> e_open env i = None"
  by (rule rdma_init_client_any [OF assms])

theorem rdma_init_client_outcome_witness:
  "\<exists>result bufs st. rdma_init_client example_verbs ''mlx5_0'' (int 2) 7 [] 0x182 (rdma_start (\<lambda>_. 0)) =
      Ret (result, bufs) st \<and> client_ready example_verbs 2 7 [] 0x182 result bufs st"
proof -
  have small: "2 * MSG_SIZE < 2 ^ 31" by (simp add: MSG_SIZE_def)
  obtain result bufs st where
    "rdma_init_client example_verbs ''mlx5_0'' (int 2) 7 [] 0x182 (rdma_start (\<lambda>_. 0)) = Ret (result, bufs) st"
    using example_client_returns [OF small, of "''mlx5_0''"] by blast
  then show ?thesis
    using rdma_init_client_outcome [OF example_verbs_ok(2) small, where dev = "''mlx5_0''" and lid = 7
        and gid = "[]" and qpn = "0x182" and m = "\<lambda>_. 0"] by simp
qed

text \<open>C20: after \<^verbatim>\<open>rdma_init_server\<close>, with an allocator that keeps its contract and a data buffer whose size
  fits an \<^verbatim>\<open>int\<close>, the two scatter-gather entries of request \<open>i\<close> are the header and the data
  slot of buffer \<open>i\<close>, with the keys of the regions they lie in; the slots are inside those regions, and
  neither the header slots nor the data slots of two requests overlap.\<close>

theorem server_layout:
  assumes "allocator_ok env" and "n * MSG_SIZE < 2 ^ 31"
    and "rdma_init_server env dev (int n) (rdma_start m) = Ret (result, bufs) st" and "i < n"
  shows "\<exists>sg sges rq reqs hmr dmr.
    scatter_gather st = Some (sg, sges) \<and> recv_requests st = Some (rq, reqs) \<and>
    header_memory_region st = Some hmr \<and> memory_region st = Some dmr \<and>
    rwr_id (reqs ! i) = word_of_nat i \<and> rwr_num_sge (reqs ! i) = 2 \<and>
    take 2 (drop (rwr_sg_list (reqs ! i)) sges) =
      [\<lparr>sge_addr = word_of_nat (rb_header_buffer (bufs ! i)), sge_length = 40, sge_lkey = lkey hmr\<rparr>,
       \<lparr>sge_addr = word_of_nat (rb_data_buffer (bufs ! i)), sge_length = word_of_nat MSG_SIZE, sge_lkey = lkey dmr\<rparr>] \<and>
    mr_addr hmr \<le> rb_header_buffer (bufs ! i) \<and>
    rb_header_buffer (bufs ! i) + 40 \<le> mr_addr hmr + unat (mr_length hmr) \<and>
    mr_addr dmr \<le> rb_data_buffer (bufs ! i) \<and>
    rb_data_buffer (bufs ! i) + MSG_SIZE \<le> mr_addr dmr + unat (mr_length dmr) \<and>
    (\<forall>j < n. j \<noteq> i \<longrightarrow>
       (rb_header_buffer (bufs ! i) + 40 \<le> rb_header_buffer (bufs ! j) \<or>
        rb_header_buffer (bufs ! j) + 40 \<le> rb_header_buffer (bufs ! i)) \<and>
       (rb_data_buffer (bufs ! i) + MSG_SIZE \<le> rb_data_buffer (bufs ! j) \<or>
        rb_data_buffer (bufs ! j) + MSG_SIZE \<le> rb_data_buffer (bufs ! i)))"
proof -
  have "server_ready n result bufs st"
    using rdma_init_server_any [OF assms(1,2), of dev m] assms(3) by simp
  from server_ready_layout [OF this assms(2,4)] show ?thesis .
qed

theorem server_layout_witness:
  "\<exists>result bufs st sg sges. rdma_init_server example_verbs ''mlx5_1'' (int 2) (rdma_start (\<lambda>_. 0)) = Ret (result, bufs) st \<and>
    scatter_gather st = Some (sg, sges) \<and>
    rb_data_buffer (bufs ! 1) + MSG_SIZE \<le> 0x10000 + 2 * MSG_SIZE \<and>
    (rb_header_buffer (bufs ! 1) + 40 \<le> rb_header_buffer (bufs ! 0) \<or>
     rb_header_buffer (bufs ! 0) + 40 \<le> rb_header_buffer (bufs ! 1))"
proof -
  have small: "2 * MSG_SIZE < 2 ^ 31" by (simp add: MSG_SIZE_def)
  obtain result bufs st where r: "rdma_init_server example_verbs ''mlx5_1'' (int 2) (rdma_start (\<lambda>_. 0)) = Ret (result, bufs) st"
    and mr: "map_option mr_addr (memory_region st) = Some 0x10000" "map_option mr_length (memory_region st) = Some (word_of_nat (2 * MSG_SIZE))"
    using example_server_returns [of 2 "''mlx5_1''" "\<lambda>_. 0"] by (auto simp: MSG_SIZE_def)
  from server_layout [OF example_verbs_ok(2) small r, of 1] obtain sg sges dmr where
    "scatter_gather st = Some (sg, sges)" "memory_region st = Some dmr"
    "rb_data_buffer (bufs ! 1) + MSG_SIZE \<le> mr_addr dmr + unat (mr_length dmr)"
    and apart: "\<forall>j < 2. j \<noteq> 1 \<longrightarrow>
       (rb_header_buffer (bufs ! 1) + 40 \<le> rb_header_buffer (bufs ! j) \<or>
        rb_header_buffer (bufs ! j) + 40 \<le> rb_header_buffer (bufs ! 1)) \<and>
       (rb_data_buffer (bufs ! 1) + MSG_SIZE \<le> rb_data_buffer (bufs ! j) \<or>
        rb_data_buffer (bufs ! j) + MSG_SIZE \<le> rb_data_buffer (bufs ! 1))"
    using one_less_numeral_iff semiring_norm(76) by blast
  then show ?thesis using r mr apart [rule_format, of 0] by (auto simp: MSG_SIZE_def)
qed

end
