(* ===== verification/Rdma_Queue.thy ===== *)
theory Rdma_Queue
  imports Rdma_Resources
begin

text \<open>
  The answers of the adapter to a poll, and the cycle both RDMA programs run: poll for the oldest requests, then post as many again. The contract of a posting
  function is the locale \<open>ring_post\<close>; \<^verbatim>\<open>post_recvs\<close> and \<^verbatim>\<open>post_sends\<close> are its two instances.
\<close>

section \<open>Answers of the adapter\<close>

text \<open>An answer of \<^verbatim>\<open>ibv_poll_cq\<close> with an array of ten entries: the return value, the contents of the
  array, and the answer of the library to the post that may follow. The documented behaviour: at most
  ten completions, and for one queue they come in the order of posting.\<close>

record poll_answer =
  p_ne :: int
  p_wcs :: "ibv_wc list"
  p_post :: int

definition fifo_poll :: "nat list \<Rightarrow> 'z poll_answer_scheme \<Rightarrow> bool" where
  "fifo_poll q a \<longleftrightarrow> length (p_wcs a) = 10 \<and> p_ne a \<le> 10 \<and>
     map (unat \<circ> wc_wr_id) (take (nat (p_ne a)) (p_wcs a)) = take (nat (p_ne a)) q"

text \<open>A run of answers of an adapter whose completed requests are posted again after each poll.\<close>

fun fifo_answers :: "nat list \<Rightarrow> 'z poll_answer_scheme list \<Rightarrow> bool" where
  "fifo_answers q [] = True"
| "fifo_answers q (a # as) =
     (fifo_poll q a \<and> fifo_answers (drop (nat (p_ne a)) q @ take (nat (p_ne a)) q) as)"

text \<open>An answer that reports no failure.\<close>

definition good_answer :: "'z poll_answer_scheme \<Rightarrow> bool" where
  "good_answer a \<longleftrightarrow> 0 \<le> p_ne a \<and> (\<forall>w \<in> set (take (nat (p_ne a)) (p_wcs a)). status w = IBV_WC_SUCCESS) \<and>
     (p_ne a = 0 \<or> p_post a = 0)"

section \<open>Windows\<close>

lemma length_window [simp]: "length (window n s c) = c"
  by (simp add: window_def)

lemma nth_window: "k < c \<Longrightarrow> window n s c ! k = (s + k) mod n"
  by (simp add: window_def)

lemma take_window: "k \<le> c \<Longrightarrow> take k (window n s c) = window n s k"
  by (simp add: window_def take_map)

lemma window_0: "window n 0 n = [0..<n]"
  by (rule nth_equalityI) (simp_all add: nth_window)

lemma window_mod: "window n (s mod n) c = window n s c"
  by (simp add: window_def mod_simps)

lemma rotate_window:
  assumes "k \<le> n"
  shows "drop k (window n s n) @ window n s k = window n ((s + k) mod n) n"
proof (rule nth_equalityI)
  fix i
  assume "i < length (drop k (window n s n) @ window n s k)"
  then have i: "i < n" using assms by simp
  have "(s + (i + k) - n) mod n = (s + (i + k)) mod n" if "\<not> i < n - k"
    using that by (simp add: le_mod_geq)
  then show "(drop k (window n s n) @ window n s k) ! i = window n ((s + k) mod n) n ! i"
    using assms i by (auto simp: nth_append nth_window mod_simps ac_simps)
qed (use assms in simp)

lemma set_full_window: "s < n \<Longrightarrow> set (window n s n) = {..<n} \<and> distinct (window n s n)"
proof -
  assume s: "s < n"
  have "rotate s [0..<n] = window n s n"
    by (rule nth_equalityI) (simp_all add: nth_rotate nth_window add.commute)
  then show ?thesis by (metis atLeast_upt distinct_rotate distinct_upt set_rotate)
qed

lemma unat_window:
  assumes "s < n" and "n \<le> 2 ^ 30"
  shows "map (unat \<circ> (word_of_nat :: nat \<Rightarrow> u64)) (window n s c) = window n s c"
proof -
  have "unat (word_of_nat i :: u64) = i" if "i \<in> set (window n s c)" for i
    using in_window [OF assms(1) that] assms(2) by (simp add: unat_of_nat)
  then show ?thesis by (simp add: map_idI)
qed

lemma fifo_ids:
  assumes "fifo_poll (window n s n) a" and "s < n" and "w \<in> set (take (nat (p_ne a)) (p_wcs a))"
  shows "unat (wc_wr_id w) < n"
proof -
  have "unat (wc_wr_id w) \<in> set (map (unat \<circ> wc_wr_id) (take (nat (p_ne a)) (p_wcs a)))"
    using assms(3) by simp
  then have "unat (wc_wr_id w) \<in> set (window n s n)"
    using assms(1) unfolding fifo_poll_def by (metis in_set_takeD)
  then show ?thesis using in_window [OF assms(2)] by blast
qed

lemma fifo_count:
  assumes "fifo_poll (window n s n) a"
  shows "nat (p_ne a) \<le> n" and "nat (p_ne a) \<le> 10" and "length (p_wcs a) = 10"
proof -
  show 10: "nat (p_ne a) \<le> 10" and len: "length (p_wcs a) = 10" using assms by (auto simp: fifo_poll_def nat_le_iff)
  have "length (take (nat (p_ne a)) (window n s n)) = nat (p_ne a)"
    using assms 10 len unfolding fifo_poll_def by (metis length_map length_take min.absorb2)
  then show "nat (p_ne a) \<le> n" by simp
qed

text \<open>Polling and posting keep what the process holds.\<close>

lemma holds_buffers_polled:
  assumes "holds_buffers as st"
  shows "holds_buffers as (record_call (Polled ne w) st)"
proof -
  have "has_cq (K @ [Mr d, Block b, Qp k, Cq q, Pd p, Device c])" for K d b k q p c
    by (simp add: has_cq_def)
  then have "has_cq (K @ K' @ header_part st @ [Mr d, Block b, Qp k, Cq q, Pd p, Device c])"
    for K K' d b k q p c by (metis append_assoc)
  then show ?thesis using assms by (auto simp: holds_buffers_def)
qed

lemma holds_buffers_posted:
  assumes "holds_buffers as st" and "queue_pair st = Some q"
  shows "holds_buffers as (record_call (Posted_recv q ws ret) st)"
    and "holds_buffers as (record_call (Posted_send q us ret) st)"
  using assms by (auto simp: holds_buffers_def)

lemma post_recvs_keeps:
  assumes "post_recvs ret start count st = Ret r st'" and "holds_buffers as st"
  shows "holds_buffers as st' \<and> array_blocks st' = array_blocks st"
proof -
  obtain q ws a reqs reqs' where "queue_pair st = Some q" and rq: "recv_requests st = Some (a, reqs)"
    and st': "st' = (record_call (Posted_recv q ws ret) st)\<lparr>recv_requests := Some (a, reqs')\<rparr>"
    using assms(1) by (auto simp: post_recvs_def Let_def split: option.splits prod.splits)
  then have "holds_buffers as (record_call (Posted_recv q ws ret) st)"
    using holds_buffers_posted [OF assms(2)] by blast
  moreover have "array_blocks st' = array_blocks st" using rq by (simp add: st' array_blocks_def)
  ultimately show ?thesis
    using assms(2) by (auto simp: st' holds_buffers_def header_part_def)
qed

lemma post_sends_keeps:
  assumes "post_sends ret start count st = Ret r st'" and "holds_buffers as st"
  shows "holds_buffers as st' \<and> array_blocks st' = array_blocks st"
proof -
  obtain q ws a reqs reqs' where "queue_pair st = Some q" and rq: "send_requests st = Some (a, reqs)"
    and st': "st' = (record_call (Posted_send q ws ret) st)\<lparr>send_requests := Some (a, reqs')\<rparr>"
    using assms(1) by (auto simp: post_sends_def Let_def split: option.splits prod.splits)
  then have "holds_buffers as (record_call (Posted_send q ws ret) st)"
    using holds_buffers_posted [OF assms(2)] by blast
  moreover have "array_blocks st' = array_blocks st" using rq by (simp add: st' array_blocks_def)
  ultimately show ?thesis
    using assms(2) by (auto simp: st' holds_buffers_def header_part_def)
qed

text \<open>\<^verbatim>\<open>free(buffers); rdma_cleanup();\<close> from any state in which the three arrays are still held.\<close>

lemma final_cleanup:
  assumes "e_destroy env = (\<lambda>_. 0)" and "holds_buffers [q, sg, result] st" and "array_blocks st = [sg, q]"
  shows "\<exists>st'. rdma_cleanup env (c_free (Some result) st) = Ret () st' \<and> held st' = Some []"
proof -
  have d: "distinct [q, sg, result]" using assms(2) by (simp add: holds_buffers_def)
  have "holds_buffers (filter (\<lambda>x. x \<noteq> result) [q, sg, result]) (c_free (Some result) st)"
    using assms(3) d by (intro holds_buffers_free [OF assms(2)]) auto
  from rdma_cleanup_releases [OF assms(1) this] show ?thesis
    using assms(3) d by auto
qed

lemma final_cleanup_any:
  assumes "holds_buffers [q, sg, result] st" and "array_blocks st = [sg, q]"
  shows "(\<exists>st'. rdma_cleanup env (c_free (Some result) st) = Ret () st' \<and> held st' = Some []) \<or>
    (\<exists>st' r. rdma_cleanup env (c_free (Some result) st) = Exited EXIT_FAILURE st' \<and> e_destroy env r \<noteq> 0)"
  using or_fails_cleanup [of env "c_free (Some result) st"] final_cleanup [of "reliable env", OF _ assms]
  by (auto simp: or_fails_def)

lemma bind_run_RetE:
  assumes "bind_run r f = Ret x st'"
  obtains y st where "r = Ret y st" and "f y st = Ret x st'"
  using assms by (cases r) auto

section \<open>The poll-and-post cycle\<close>

locale ring_post =
  fixes ring_ok :: "nat \<Rightarrow> rdma \<Rightarrow> bool"
    and post :: "int \<Rightarrow> int \<Rightarrow> int \<Rightarrow> rdma \<Rightarrow> int run"
    and posted :: "int \<Rightarrow> verbs_call \<Rightarrow> u64 list option"
  assumes ok_record: "ring_ok n st \<Longrightarrow> ring_ok n (record_call e st)"
    and ok_small: "ring_ok n st \<Longrightarrow> n \<le> 2 ^ 30"
    and post_window: "ring_ok n st \<Longrightarrow> start < n \<Longrightarrow> 0 < count \<Longrightarrow> count \<le> n \<Longrightarrow>
      \<exists>e. post ret (int start) (int count) st = Ret (if ret \<noteq> 0 then -1 else 0) (record_call e st) \<and>
        posted ret e = Some (map word_of_nat (window n start count))"
    and posted_nic: "posted 0 e = Some ids \<Longrightarrow> nic_step q e = q @ map unat ids"
begin

text \<open>Filling the empty queue.\<close>

lemma fill:
  assumes "ring_ok n st" and "0 < n" and "nic_queue st = []"
  shows "\<exists>e. post 0 0 (int n) st = Ret 0 (record_call e st) \<and> nic_queue (record_call e st) = window n 0 n"
proof -
  obtain e where "post 0 (int 0) (int n) st = Ret 0 (record_call e st)"
    and "posted 0 e = Some (map word_of_nat (window n 0 n))"
    using post_window [OF assms(1), of 0 n 0] assms(2) by auto
  then show ?thesis
    using posted_nic unat_window [OF assms(2) ok_small [OF assms(1)], of n] assms(3) by auto
qed

text \<open>Posting again what was polled: the queue is rotated, and the posted identifiers are the polled
  ones.\<close>

lemma cycle:
  assumes "ring_ok n st" and "s < n" and "nic_queue st = window n s n" and "fifo_poll (window n s n) a"
    and "0 < p_ne a" and "p_ne a \<le> int n"
  shows "\<exists>e. post ret (int_of_size (wc_wr_id (p_wcs a ! 0))) (p_ne a) (record_call (Polled (p_ne a) w) st) =
      Ret (if ret \<noteq> 0 then -1 else 0) (record_call e (record_call (Polled (p_ne a) w) st)) \<and>
    posted ret e = Some (map wc_wr_id (take (nat (p_ne a)) (p_wcs a))) \<and>
    (ret = 0 \<longrightarrow> nic_queue (record_call e (record_call (Polled (p_ne a) w) st)) =
       window n ((s + nat (p_ne a)) mod n) n \<and>
       window n ((s + nat (p_ne a)) mod n) n =
         drop (nat (p_ne a)) (window n s n) @ take (nat (p_ne a)) (window n s n))"
proof -
  let ?k = "nat (p_ne a)" and ?st = "record_call (Polled (p_ne a) w) st"
  have k: "0 < ?k" "?k \<le> n" "p_ne a = int ?k" using assms(5,6) by simp_all
  have small: "n \<le> 2 ^ 30" by (rule ok_small [OF assms(1)])
  have ids: "map (unat \<circ> wc_wr_id) (take ?k (p_wcs a)) = window n s ?k" and len: "length (p_wcs a) = 10"
    using assms(4) k by (simp_all add: fifo_poll_def take_window)
  have "unat (wc_wr_id (p_wcs a ! 0)) = s"
    using arg_cong [OF ids, of "\<lambda>xs. xs ! 0"] k len assms(2) by (simp add: nth_window)
  then have first: "int_of_size (wc_wr_id (p_wcs a ! 0)) = int s"
    using assms(2) small by (simp add: int_of_size_small)
  obtain e where e: "post ret (int s) (int ?k) ?st = Ret (if ret \<noteq> 0 then -1 else 0) (record_call e ?st)"
    and p: "posted ret e = Some (map word_of_nat (window n s ?k))"
    using post_window [OF ok_record [OF assms(1)] assms(2) k(1,2)] by blast
  have "map wc_wr_id (take ?k (p_wcs a)) = map word_of_nat (map (unat \<circ> wc_wr_id) (take ?k (p_wcs a)))"
    by simp
  also have "\<dots> = map word_of_nat (window n s ?k)" by (simp only: ids)
  finally have same: "map word_of_nat (window n s ?k) = map wc_wr_id (take ?k (p_wcs a))" by simp
  have "nic_queue (record_call e ?st) = window n ((s + ?k) mod n) n" if "ret = 0"
    using posted_nic [of e] p that assms(3) unat_window [OF assms(2) small, of ?k] rotate_window [OF k(2)]
    by simp
  moreover have "window n ((s + ?k) mod n) n = drop ?k (window n s n) @ take ?k (window n s n)"
    using rotate_window [OF k(2)] k(2) by (simp add: take_window)
  ultimately show ?thesis using e p same k(3) first by auto
qed

end

definition recv_ok :: "nat \<Rightarrow> rdma \<Rightarrow> bool" where
  "recv_ok n st \<longleftrightarrow> n \<le> 2 ^ 30 \<and> queue_size st = int n \<and> queue_pair st \<noteq> None \<and>
     (\<exists>rq. recv_requests st = Some (rq, map (recv_request n) [0..<n]))"

fun recv_posted :: "int \<Rightarrow> verbs_call \<Rightarrow> u64 list option" where
  "recv_posted ret (Posted_recv q ws r) = (if r = ret then Some (map rwr_id ws) else None)"
| "recv_posted ret _ = None"

interpretation recv_post: ring_post recv_ok post_recvs recv_posted
proof
  fix n st start count ret
  assume "recv_ok n st" "start < n" "0 < count" "count \<le> n"
  then obtain rq q where "recv_requests st = Some (rq, map (recv_request n) [0..<n])"
    "queue_pair st = Some q" "queue_size st = int n" "n \<le> 2 ^ 30" by (auto simp: recv_ok_def)
  from post_recvs_posted [OF this \<open>start < n\<close> \<open>0 < count\<close> \<open>count \<le> n\<close>, of ret]
  show "\<exists>e. post_recvs ret (int start) (int count) st = Ret (if ret \<noteq> 0 then -1 else 0) (record_call e st) \<and>
      recv_posted ret e = Some (map word_of_nat (window n start count))"
    by fastforce
next
  fix e ids q
  show "recv_posted 0 e = Some ids \<Longrightarrow> nic_step q e = q @ map unat ids"
    by (cases e) (auto split: if_splits)
qed (auto simp: recv_ok_def)

definition send_ok :: "nat \<Rightarrow> rdma \<Rightarrow> bool" where
  "send_ok n st \<longleftrightarrow> n \<le> 2 ^ 30 \<and> queue_size st = int n \<and> queue_pair st \<noteq> None \<and>
     (\<exists>sq h qpn. send_requests st = Some (sq, map (send_request (send_flags st) h qpn n) [0..<n]))"

fun send_posted :: "int \<Rightarrow> verbs_call \<Rightarrow> u64 list option" where
  "send_posted ret (Posted_send q ws r) = (if r = ret then Some (map swr_id ws) else None)"
| "send_posted ret _ = None"

interpretation send_post: ring_post send_ok post_sends send_posted
proof
  fix n st start count ret
  assume "send_ok n st" "start < n" "0 < count" "count \<le> n"
  then obtain sq h qpn q where "send_requests st = Some (sq, map (send_request (send_flags st) h qpn n) [0..<n])"
    "queue_pair st = Some q" "queue_size st = int n" "n \<le> 2 ^ 30" by (auto simp: send_ok_def)
  from post_sends_posted [OF this \<open>start < n\<close> \<open>0 < count\<close> \<open>count \<le> n\<close>, of ret]
  show "\<exists>e. post_sends ret (int start) (int count) st = Ret (if ret \<noteq> 0 then -1 else 0) (record_call e st) \<and>
      send_posted ret e = Some (map word_of_nat (window n start count))"
    by fastforce
next
  fix e ids q
  show "send_posted 0 e = Some ids \<Longrightarrow> nic_step q e = q @ map unat ids"
    by (cases e) (auto split: if_splits)
qed (auto simp: send_ok_def)

section \<open>An answer with two completions\<close>

definition example_wc :: "nat \<Rightarrow> ibv_wc" where
  "example_wc i =
     \<lparr>wc_wr_id = word_of_nat i, status = IBV_WC_SUCCESS, wc_opcode = IBV_WC_RECV, vendor_err = 0,
      byte_len = 8980, wc_imm_data = 0, wc_qp_num = 0x182, src_qp = 0x182, wc_flags = 1,
      wc_pkey_index = 0, slid = 7, wc_sl = 0, dlid_path_bits = 0\<rparr>"

definition example_poll :: poll_answer where
  "example_poll = \<lparr>p_ne = 2, p_wcs = map example_wc [0..<10], p_post = 0\<rparr>"

end
