(* ===== verification/Rdma_Server.thy ===== *)
theory Rdma_Server
  imports Rdma_Queue Interruptible
begin

text \<open>
  Model of \<^verbatim>\<open>src/rdma_server.c\<close>: the body of the polling loop, the loop, and \<^verbatim>\<open>main\<close>. The reachable
  states of the loop are an inductive relation over the answers of an adapter that completes requests
  in the order of posting.
\<close>

section \<open>The loop\<close>

text \<open>Between two polls the adapter writes incoming messages to the buffers: an answer carries the
  memory as the adapter left it.\<close>

record recv_answer = poll_answer +
  p_mem :: "nat \<Rightarrow> byte"

text \<open>The check of the completions: the line printed for each, up to the first with an error status.
  The value is \<open>None\<close> when an identifier is beyond the array of buffers; the flag says that all
  completions were successful.\<close>

definition message_line :: "recv_buffer list \<Rightarrow> (nat \<Rightarrow> byte) \<Rightarrow> ibv_wc \<Rightarrow> string" where
  "message_line bufs m w =
     ''Message for WR #'' @ fmt_d (sint (wc_wr_id w)) @ '': index #''
     @ fmt_d (sint (m (rb_data_buffer (bufs ! unat (wc_wr_id w))))) @ '' size: ''
     @ fmt_d (sint (byte_len w)) @ '' bytes'' @ nl"

fun check_recvs :: "recv_buffer list \<Rightarrow> (nat \<Rightarrow> byte) \<Rightarrow> ibv_wc list \<Rightarrow> (string \<times> bool) option" where
  "check_recvs bufs m [] = Some ([], True)"
| "check_recvs bufs m (w # ws) =
     (if length bufs \<le> unat (wc_wr_id w) then None
      else if status w \<noteq> IBV_WC_SUCCESS then Some (message_line bufs m w, False)
      else map_option (\<lambda>(out, ok). (message_line bufs m w @ out, ok)) (check_recvs bufs m ws))"

text \<open>One iteration. The result is \<open>Some code\<close> when the loop is left through \<^verbatim>\<open>goto cleanup\<close> with
  \<^verbatim>\<open>result = code\<close>, with the text printed.\<close>

definition server_iter ::
  "recv_buffer list \<Rightarrow> recv_answer \<Rightarrow> rdma \<Rightarrow> (int option \<times> string) run" where
  "server_iter bufs a st =
     (let ne = p_ne a; wcs = take (nat ne) (p_wcs a);
          st = record_call (Polled ne wcs) (st\<lparr>mem := p_mem a\<rparr>) in
      if ne < 0 then Ret (Some EXIT_FAILURE, []) st
      else if int (length (p_wcs a)) < ne then Undef
      else
        case check_recvs bufs (mem st) wcs of None \<Rightarrow> Undef
        | Some (out, ok) \<Rightarrow>
            if \<not> ok then Ret (Some EXIT_FAILURE, out) st
            else if 0 < ne then
              bind_run (post_recvs (p_post a) (int_of_size (wc_wr_id (p_wcs a ! 0))) ne st) (\<lambda>r st.
                Ret (if r \<noteq> 0 then Some EXIT_FAILURE else None, out) st)
            else Ret (None, out) st)"

text \<open>The loop runs until the signal handler clears \<^verbatim>\<open>server_loop\<close>, after the given answers.\<close>

fun server_loop :: "recv_buffer list \<Rightarrow> recv_answer list \<Rightarrow> string \<Rightarrow> rdma \<Rightarrow> (int \<times> string) run" where
  "server_loop bufs [] out st = Ret (EXIT_SUCCESS, out) st"
| "server_loop bufs (a # as) out st =
     bind_run (server_iter bufs a st) (\<lambda>(r, o1) st.
       case r of Some code \<Rightarrow> Ret (code, out @ o1) st
       | None \<Rightarrow> server_loop bufs as (out @ o1) st)"

section \<open>The interrupt\<close>

text \<open>The flag of the loop with its initial value, the loop's condition, and the signal handler that \<^verbatim>\<open>main\<close>
  installs for the interrupt. The body never waits in a call that the handler could interrupt.\<close>

definition server_loop_flag :: int where "server_loop_flag = 1"

definition server_loop_test :: "int \<Rightarrow> bool" where "server_loop_test flag \<longleftrightarrow> flag \<noteq> 0"

definition server_stop_loop :: "int \<Rightarrow> int \<Rightarrow> int" where "server_stop_loop sig flag = 0"

definition server_loop_body ::
  "recv_buffer list \<Rightarrow> string \<times> rdma \<Rightarrow> recv_answer \<Rightarrow> string \<times> rdma + (int \<times> string) run" where
  "server_loop_body bufs s a =
     (case server_iter bufs a (snd s) of
        Ret (None, out) st \<Rightarrow> Inl (fst s @ out, st)
      | Ret (Some code, out) st \<Rightarrow> Inr (Ret (code, fst s @ out) st)
      | Exited c st \<Rightarrow> Inr (Exited c st)
      | Undef \<Rightarrow> Inr Undef)"

text \<open>The complete runs of the loop under the interrupt.\<close>

abbreviation server_runs where
  "server_runs bufs \<equiv> loop_run server_loop_test (server_stop_loop SIGINT) None
     (server_loop_body bufs) (\<lambda>s. Ret (EXIT_SUCCESS, fst s) (snd s)) server_loop_flag"

interpretation server_interrupt: interruptible_loop server_loop_test "server_stop_loop SIGINT" None
  "server_loop_body bufs" "\<lambda>s. Ret (EXIT_SUCCESS, fst s) (snd s)" server_loop_flag
  "\<lambda>s as. server_loop bufs as (fst s) (snd s)"
proof unfold_locales
  fix s a as
  show "server_loop bufs (a # as) (fst s) (snd s) =
      (case server_loop_body bufs s a of Inl s' \<Rightarrow> server_loop bufs as (fst s') (snd s') | Inr x \<Rightarrow> x)"
    by (cases "server_iter bufs a (snd s)")
      (auto simp: server_loop_body_def split: option.splits)
qed (simp_all add: server_loop_flag_def server_stop_loop_def server_loop_test_def)

section \<open>Main\<close>

definition server_queue_size :: nat where "server_queue_size = 100"

text \<open>\<open>sig\<close> is the answer of \<^verbatim>\<open>sigaction\<close>, \<open>post0\<close> of the library to the first post.\<close>

definition server_main ::
  "verbs_env \<Rightarrow> int \<Rightarrow> int \<Rightarrow> recv_answer list \<Rightarrow> string list \<Rightarrow> (nat \<Rightarrow> byte) \<Rightarrow> (int \<times> string) run" where
  "server_main env sig post0 polls argv m =
     (if length argv \<noteq> 2 then Ret (EXIT_FAILURE, []) (rdma_start m)
      else if sig \<noteq> 0 then Ret (EXIT_FAILURE, []) (rdma_start m)
      else
        bind_run (rdma_init_server env (argv ! 1) (int server_queue_size) (rdma_start m)) (\<lambda>(result, bufs) st.
        bind_run (post_recvs post0 0 (int server_queue_size) st) (\<lambda>r st.
        bind_run (if r \<noteq> 0 then Ret (EXIT_FAILURE, []) st else server_loop bufs polls [] st) (\<lambda>(code, out) st.
        bind_run (rdma_cleanup env (c_free (Some result) st)) (\<lambda>_ st. Ret (code, out) st)))))"

section \<open>Reachable states\<close>

inductive server_reach :: "nat \<Rightarrow> recv_buffer list \<Rightarrow> rdma \<Rightarrow> bool" for n bufs where
  start: "server_ready n result bufs st \<Longrightarrow> post_recvs 0 0 (int n) st = Ret 0 st' \<Longrightarrow>
    server_reach n bufs st'"
| iter: "server_reach n bufs st \<Longrightarrow> fifo_poll (nic_queue st) a \<Longrightarrow>
    server_iter bufs a st = Ret (None, out) st' \<Longrightarrow> server_reach n bufs st'"

text \<open>The loop's invariant: the ring is closed, and the adapter's queue holds every request, in ring
  order from some first one.\<close>

definition server_inv :: "nat \<Rightarrow> recv_buffer list \<Rightarrow> rdma \<Rightarrow> bool" where
  "server_inv n bufs st \<longleftrightarrow> recv_ok n st \<and> length bufs = n \<and> (\<exists>s < n. nic_queue st = window n s n)"

lemma recv_ok_mem [simp]: "recv_ok n (st\<lparr>mem := m\<rparr>) = recv_ok n st"
  by (simp add: recv_ok_def)

lemma recv_ok_record [simp]: "recv_ok n (record_call e st) = recv_ok n st"
  by (simp add: recv_ok_def)

lemma server_ready_ok:
  "server_ready n result bufs st \<Longrightarrow> n \<le> 2 ^ 30 \<Longrightarrow> recv_ok n st \<and> length bufs = n \<and> nic_queue st = []"
  by (auto simp: server_ready_def recv_ok_def holds_buffers_def)

lemma server_first_post:
  assumes "server_ready n result bufs st" and "0 < n" and "n \<le> 2 ^ 30"
  shows "\<exists>e. post_recvs 0 0 (int n) st = Ret 0 (record_call e st) \<and> server_inv n bufs (record_call e st)"
  using recv_post.fill [of n st] server_ready_ok [OF assms(1,3)] assms(2) by (auto simp: server_inv_def)

text \<open>The identifiers of an in-order answer are indices of buffers, so the check never leaves the array.\<close>

lemma check_recvs_defined:
  "\<forall>w \<in> set ws. unat (wc_wr_id w) < length bufs \<Longrightarrow>
     \<exists>out. check_recvs bufs m ws = Some (out, \<forall>w \<in> set ws. status w = IBV_WC_SUCCESS)"
  by (induction ws) auto

text \<open>One iteration from a state of the invariant: what it returns in every case, and the invariant again
  unless the loop is left.\<close>

lemma server_iter_cases:
  assumes "server_inv n bufs st" and "fifo_poll (nic_queue st) a"
  defines "polled \<equiv> record_call (Polled (p_ne a) (take (nat (p_ne a)) (p_wcs a))) (st\<lparr>mem := p_mem a\<rparr>)"
  shows "\<exists>out. if p_ne a < 0 \<or> (\<exists>w \<in> set (take (nat (p_ne a)) (p_wcs a)). status w \<noteq> IBV_WC_SUCCESS)
     then server_iter bufs a st = Ret (Some EXIT_FAILURE, out) polled
     else if p_ne a = 0 then server_iter bufs a st = Ret (None, out) polled \<and> server_inv n bufs polled
     else \<exists>e. server_iter bufs a st =
            Ret (if p_post a \<noteq> 0 then Some EXIT_FAILURE else None, out) (record_call e polled) \<and>
          recv_posted (p_post a) e = Some (map wc_wr_id (take (nat (p_ne a)) (p_wcs a))) \<and>
          (p_post a = 0 \<longrightarrow> server_inv n bufs (record_call e polled) \<and>
             nic_queue (record_call e polled) = drop (nat (p_ne a)) (nic_queue st) @ take (nat (p_ne a)) (nic_queue st))"
proof -
  let ?k = "nat (p_ne a)" and ?wcs = "take (nat (p_ne a)) (p_wcs a)"
  obtain s where s: "s < n" "nic_queue st = window n s n" and ok: "recv_ok n st" "length bufs = n"
    using assms(1) by (auto simp: server_inv_def)
  have fifo: "fifo_poll (window n s n) a" using assms(2) s(2) by simp
  have k: "?k \<le> n" "?k \<le> 10" "length (p_wcs a) = 10" using fifo_count [OF fifo] by simp_all
  have le: "\<not> int (length (p_wcs a)) < p_ne a" using k by simp
  define good where "good \<longleftrightarrow> (\<forall>w \<in> set ?wcs. status w = IBV_WC_SUCCESS)"
  obtain out where out: "check_recvs bufs (p_mem a) ?wcs = Some (out, good)"
    unfolding good_def using check_recvs_defined [of ?wcs bufs "p_mem a"] fifo_ids [OF fifo s(1)] ok(2) by blast
  consider "p_ne a < 0" | "p_ne a = 0" | "0 < p_ne a" by linarith
  then show ?thesis
  proof cases
    case 1
    then show ?thesis by (simp add: server_iter_def polled_def)
  next
    case 2
    then show ?thesis
      using s ok by (simp add: server_iter_def polled_def server_inv_def) blast
  next
    case 3
    have q: "nic_queue (st\<lparr>mem := p_mem a\<rparr>) = window n s n" using s(2) by simp
    have "p_ne a \<le> int n" using k(1) by simp
    from recv_post.cycle [OF _ s(1) q fifo 3 this, of "p_post a" ?wcs]
    obtain e where e: "post_recvs (p_post a) (int_of_size (wc_wr_id (p_wcs a ! 0))) (p_ne a) polled =
        Ret (if p_post a \<noteq> 0 then -1 else 0) (record_call e polled)"
      "recv_posted (p_post a) e = Some (map wc_wr_id ?wcs)"
      "p_post a = 0 \<longrightarrow> nic_queue (record_call e polled) = window n ((s + ?k) mod n) n \<and>
        window n ((s + ?k) mod n) n = drop ?k (window n s n) @ take ?k (window n s n)"
      using ok(1) unfolding polled_def by auto
    have "(s + ?k) mod n < n" using s(1) by (intro mod_less_divisor) linarith
    then have "p_post a = 0 \<longrightarrow> server_inv n bufs (record_call e polled) \<and>
        nic_queue (record_call e polled) = drop ?k (nic_queue st) @ take ?k (nic_queue st)"
      using e(3) ok s(2) unfolding server_inv_def polled_def by auto
    moreover have "server_iter bufs a st = (if \<not> good then Ret (Some EXIT_FAILURE, out) polled
        else Ret (if p_post a \<noteq> 0 then Some EXIT_FAILURE else None, out) (record_call e polled))"
      using 3 le out e(1) [unfolded polled_def] by (simp add: server_iter_def polled_def Let_def)
    moreover have "\<not> good \<longleftrightarrow> (\<exists>w \<in> set ?wcs. status w \<noteq> IBV_WC_SUCCESS)" by (auto simp: good_def)
    ultimately show ?thesis using 3 e(2) by (intro exI [of _ out]) auto
  qed
qed

lemma server_reach_inv:
  assumes "server_reach n bufs st" and "0 < n" and "n \<le> 2 ^ 30"
  shows "server_inv n bufs st"
  using assms
proof (induction rule: server_reach.induct)
  case (start result st st')
  then show ?case using server_first_post [of n result bufs st] by auto
next
  case (iter st a out st')
  then show ?case
    using server_iter_cases [of n bufs st a] by (auto split: if_splits)
qed

text \<open>The loop on a run of in-order answers: it returns, with success exactly when no answer reports a
  failure.\<close>

lemma server_loop_returns:
  assumes "server_inv n bufs st" and "fifo_answers (nic_queue st) as"
  shows "\<exists>out' st'. server_loop bufs as out st =
    Ret (if list_all good_answer as then EXIT_SUCCESS else EXIT_FAILURE, out') st'"
  using assms
proof (induction as arbitrary: st out)
  case Nil
  then show ?case by simp
next
  case (Cons a as)
  let ?k = "nat (p_ne a)"
  from Cons.prems have fifo: "fifo_poll (nic_queue st) a"
    and rest: "fifo_answers (drop ?k (nic_queue st) @ take ?k (nic_queue st)) as" by simp_all
  obtain r o1 st1 where run: "server_iter bufs a st = Ret (r, o1) st1"
    and r: "r = (if good_answer a then None else Some EXIT_FAILURE)"
    and next_st: "good_answer a \<Longrightarrow> server_inv n bufs st1 \<and>
      nic_queue st1 = drop ?k (nic_queue st) @ take ?k (nic_queue st)"
    using server_iter_cases [OF Cons.prems(1) fifo]
    by (fastforce simp: good_answer_def split: if_splits)
  show ?case
  proof (cases "good_answer a")
    case True
    then show ?thesis
      using run r next_st rest Cons.IH [of st1 "out @ o1"] by auto
  next
    case False
    then show ?thesis using run r by simp
  qed
qed

text \<open>The loop under the interrupt. The body leaves it only with the failure code.\<close>

lemma server_iter_code: "server_iter bufs a st = Ret (Some code, out) st' \<Longrightarrow> code = EXIT_FAILURE"
  by (auto simp: server_iter_def Let_def split: if_splits option.splits elim!: bind_run_RetE)

lemma server_body_code: "server_loop_body bufs s a = Inr (Ret (code, out) st) \<Longrightarrow> code = EXIT_FAILURE"
  by (auto simp: server_loop_body_def split: run.splits option.splits dest: server_iter_code)

lemma server_loop_interrupted:
  assumes "server_inv n bufs st" and "fifo_answers (nic_queue st) as"
    and run: "server_runs bufs (out, st) flag as r"
  shows "\<exists>out' st'. r = Ret (if list_all good_answer as then EXIT_SUCCESS else EXIT_FAILURE, out') st' \<and>
    (list_all good_answer as \<longrightarrow> \<not> server_loop_test flag)"
proof -
  obtain out' st' where r: "r = Ret (if list_all good_answer as then EXIT_SUCCESS else EXIT_FAILURE, out') st'"
    using server_interrupt.loop_run_result [OF run] server_loop_returns [OF assms(1,2), of out] by auto
  moreover have "\<not> server_loop_test flag" if "list_all good_answer as"
    by (rule server_interrupt.left_by_test [OF run]) (use that r in \<open>auto dest: server_body_code simp: EXIT_SUCCESS_def EXIT_FAILURE_def\<close>)
  ultimately show ?thesis by blast
qed

lemma server_iter_keeps:
  assumes "server_iter bufs a st = Ret x st'" and "holds_buffers as st"
  shows "holds_buffers as st' \<and> array_blocks st' = array_blocks st"
proof -
  let ?st = "record_call (Polled (p_ne a) (take (nat (p_ne a)) (p_wcs a))) (st\<lparr>mem := p_mem a\<rparr>)"
  have ab: "array_blocks ?st = array_blocks st" by (simp add: array_blocks_def)
  have "holds_buffers as (st\<lparr>mem := p_mem a\<rparr>)"
    using assms(2) by (auto simp: holds_buffers_def header_part_def array_blocks_def)
  then have hb: "holds_buffers as ?st" by (rule holds_buffers_polled)
  show ?thesis
    using assms(1) hb ab post_recvs_keeps [OF _ hb]
    by (cases "post_recvs (p_post a) (int_of_size (wc_wr_id (p_wcs a ! 0))) (p_ne a) ?st")
      (auto simp: server_iter_def Let_def split: if_splits option.splits)
qed

lemma server_loop_keeps:
  assumes "server_loop bufs polls out st = Ret x st'" and "holds_buffers as st"
  shows "holds_buffers as st' \<and> array_blocks st' = array_blocks st"
  using assms
proof (induction bufs polls out st rule: server_loop.induct)
  case (1 bufs out st)
  then show ?case by simp
next
  case (2 bufs a polls out st)
  then obtain r o1 st1 where i: "server_iter bufs a st = Ret (r, o1) st1"
    by (cases "server_iter bufs a st") auto
  then show ?case
    using 2 server_iter_keeps [OF i 2(3)] by (cases r) auto
qed

lemma server_ready_blocks:
  assumes "server_ready n result bufs st"
  shows "\<exists>rq sg. holds_buffers [rq, sg, result] st \<and> array_blocks st = [sg, rq]"
  using assms by (auto simp: server_ready_def array_blocks_def)

lemma server_main_cases:
  assumes "allocator_ok env" and "fifo_answers [0..<100] polls"
  shows "if length argv \<noteq> 2 \<or> sig \<noteq> 0
    then server_main env sig post0 polls argv m = Ret (EXIT_FAILURE, []) (rdma_start m)
    else case rdma_init_server env (argv ! 1) 100 (rdma_start m) of
      Ret x st0 \<Rightarrow>
        (\<exists>out st. server_main env sig post0 polls argv m =
            Ret (if post0 = 0 \<and> list_all good_answer polls then EXIT_SUCCESS else EXIT_FAILURE, out) st \<and>
          held st = Some []) \<or>
        (\<exists>st r. server_main env sig post0 polls argv m = Exited EXIT_FAILURE st \<and> e_destroy env r \<noteq> 0)
    | Exited c st \<Rightarrow> server_main env sig post0 polls argv m = Exited c st
    | Undef \<Rightarrow> server_main env sig post0 polls argv m = Undef"
proof (cases "length argv = 2 \<and> sig = 0")
  case False
  then show ?thesis by (auto simp: server_main_def)
next
  case args: True
  have small: "100 * MSG_SIZE < 2 ^ 31" by (simp add: MSG_SIZE_def)
  have init: "rdma_init_server env (argv ! 1) (int server_queue_size) (rdma_start m) =
      rdma_init_server env (argv ! 1) 100 (rdma_start m)" by (simp add: server_queue_size_def)
  show ?thesis
  proof (cases "rdma_init_server env (argv ! 1) 100 (rdma_start m)")
    case (Ret x st)
    obtain result bufs where x: "x = (result, bufs)" by (cases x)
    have ready: "server_ready 100 result bufs st"
      using rdma_init_server_any [OF assms(1) small, of "argv ! 1" m] Ret x by simp
    obtain rq sg where hb: "holds_buffers [rq, sg, result] st" and ab: "array_blocks st = [sg, rq]"
      using server_ready_blocks [OF ready] by blast
    obtain e where post: "post_recvs post0 0 100 st = Ret (if post0 \<noteq> 0 then -1 else 0) (record_call e st)"
      using recv_post.post_window [of 100 st 0 100 post0] server_ready_ok [OF ready] by auto
    have inv: "server_inv 100 bufs (record_call e st)" "nic_queue (record_call e st) = [0..<100]" if "post0 = 0"
      using that post recv_post.fill [of 100 st] server_first_post [OF ready] server_ready_ok [OF ready]
      by (auto simp: window_0)
    have "\<exists>out st'. server_loop bufs polls [] (record_call e st) =
        Ret (if list_all good_answer polls then EXIT_SUCCESS else EXIT_FAILURE, out) st'" if "post0 = 0"
      using server_loop_returns [OF inv(1) [OF that]] inv(2) [OF that] assms(2) by simp
    then obtain code out st' where loop: "(if (if post0 \<noteq> 0 then -1 else (0 :: int)) \<noteq> 0 then Ret (EXIT_FAILURE, [])
        (record_call e st) else server_loop bufs polls [] (record_call e st)) = Ret (code, out) st'"
      and code: "code = (if post0 = 0 \<and> list_all good_answer polls then EXIT_SUCCESS else EXIT_FAILURE)"
      by (cases "post0 = 0") auto
    have "holds_buffers [rq, sg, result] (record_call e st) \<and> array_blocks (record_call e st) = [sg, rq]"
      using post_recvs_keeps [OF post hb] ab by simp
    then have "holds_buffers [rq, sg, result] st' \<and> array_blocks st' = [sg, rq]"
      using loop server_loop_keeps [of bufs polls "[]" "record_call e st" "(code, out)" st' "[rq, sg, result]"]
      by (cases "post0 = 0") auto
    note clean = final_cleanup_any [of rq sg result st' env, OF conjunct1 [OF this] conjunct2 [OF this]]
    have "server_main env sig post0 polls argv m =
        bind_run (rdma_cleanup env (c_free (Some result) st')) (\<lambda>_ st. Ret (code, out) st)"
      using args Ret x post loop by (simp add: server_main_def server_queue_size_def)
    then show ?thesis using args clean code Ret by auto
  qed (use init args in \<open>auto simp: server_main_def\<close>)
qed

section \<open>A running server\<close>

definition example_recv_answer :: recv_answer where
  "example_recv_answer = poll_answer.extend example_poll \<lparr>p_mem = (\<lambda>_. 7)\<rparr>"

lemma example_server_start:
  "\<exists>result bufs st st'. server_ready 2 result bufs st \<and> post_recvs 0 0 (int 2) st = Ret 0 st' \<and>
     nic_queue st' = [0, 1]"
proof -
  have small: "2 * MSG_SIZE < 2 ^ 31" by (simp add: MSG_SIZE_def)
  obtain result bufs st where "rdma_init_server example_verbs ''mlx5_1'' (int 2) (rdma_start (\<lambda>_. 0)) = Ret (result, bufs) st"
    using example_server_returns [of 2 "''mlx5_1''" "\<lambda>_. 0"] by (auto simp: MSG_SIZE_def)
  then have ready: "server_ready 2 result bufs st"
    using rdma_init_server_cases [OF example_verbs_ok small, of "''mlx5_1''" "\<lambda>_. 0"] by simp
  obtain e where "post_recvs 0 0 (int 2) st = Ret 0 (record_call e st)"
    and "nic_queue (record_call e st) = window 2 0 2"
    using recv_post.fill [of 2 st] server_ready_ok [OF ready] by auto
  moreover have "window 2 0 2 = [0, 1]" by (simp add: window_0 upt_rec)
  ultimately show ?thesis using ready by metis
qed

lemma example_server_reach: "\<exists>bufs st. server_reach 2 bufs st \<and> nic_queue st = [0, 1]"
  using example_server_start server_reach.start by blast

lemma example_recv_answer_fifo: "take 2 q = [0, 1] \<Longrightarrow> fifo_poll q example_recv_answer"
  by (simp add: fifo_poll_def example_recv_answer_def poll_answer.defs example_poll_def example_wc_def upt_rec)

section \<open>Properties\<close>

text \<open>C14: in every state the server's loop can reach with an adapter that completes receives in the order
  of posting, the adapter holds every one of the \<open>n\<close> requests exactly once: no buffer is lost, and none
  is posted twice.\<close>

theorem server_requests_all_posted:
  assumes "server_reach n bufs st" and "0 < n" and "n \<le> 2 ^ 30"
  shows "distinct (nic_queue st) \<and> set (nic_queue st) = {..<n}"
  using server_reach_inv [OF assms] set_full_window unfolding server_inv_def by auto

theorem server_requests_all_posted_witness:
  "\<exists>bufs st. server_reach 2 bufs st \<and> distinct (nic_queue st) \<and> set (nic_queue st) = {..<2}"
proof -
  obtain bufs st where reach: "server_reach 2 bufs st" using example_server_reach by blast
  with server_requests_all_posted [OF this] show ?thesis by auto
qed

text \<open>C15: one iteration of the server's loop from a reachable state, for every in-order answer of the
  adapter. A failed poll or a completion with an error status leaves the loop with the failure code
  and posts nothing; an empty poll changes nothing; otherwise exactly the completed requests, in the
  order of completion, are posted again, and the loop is left only if that post fails. No access is out
  of bounds.\<close>

theorem server_iter_reposts:
  assumes "server_reach n bufs st" and "0 < n" and "n \<le> 2 ^ 30" and "fifo_poll (nic_queue st) a"
  shows "\<exists>out st'. if p_ne a < 0 \<or> (\<exists>w \<in> set (take (nat (p_ne a)) (p_wcs a)). status w \<noteq> IBV_WC_SUCCESS)
     then server_iter bufs a st = Ret (Some EXIT_FAILURE, out) st' \<and>
       log st' = log st @ [Polled (p_ne a) (take (nat (p_ne a)) (p_wcs a))]
     else if p_ne a = 0 then server_iter bufs a st = Ret (None, out) st' \<and> log st' = log st @ [Polled 0 []]
     else server_iter bufs a st = Ret (if p_post a \<noteq> 0 then Some EXIT_FAILURE else None, out) st' \<and>
       (\<exists>e. log st' = log st @ [Polled (p_ne a) (take (nat (p_ne a)) (p_wcs a)), e] \<and>
          recv_posted (p_post a) e = Some (map wc_wr_id (take (nat (p_ne a)) (p_wcs a))))"
  using server_iter_cases [OF server_reach_inv [OF assms(1-3)] assms(4)]
  by (fastforce split: if_splits)

theorem server_iter_reposts_witness:
  "\<exists>bufs st out st' e. server_reach 2 bufs st \<and>
     server_iter bufs example_recv_answer st = Ret (None, out) st' \<and>
     log st' = log st @ [Polled 2 [example_wc 0, example_wc 1], e] \<and> recv_posted 0 e = Some [0, 1]"
proof -
  obtain bufs st where r: "server_reach 2 bufs st" and q: "nic_queue st = [0, 1]"
    using example_server_reach by blast
  have "fifo_poll (nic_queue st) example_recv_answer" using example_recv_answer_fifo q by simp
  from server_iter_reposts [OF r _ _ this] r show ?thesis
    by (fastforce simp: example_recv_answer_def poll_answer.defs example_poll_def example_wc_def upt_rec)
qed

text \<open>C23: the whole server, for an allocator that keeps its contract and an adapter that completes receives
  in the order of posting. Without exactly one argument or with a failing \<^verbatim>\<open>sigaction\<close>, \<^verbatim>\<open>main\<close> returns the
  failure code with nothing done. Otherwise it goes the way \<^verbatim>\<open>rdma_init_server\<close> goes: if that ends
  the process or is undefined, so does \<^verbatim>\<open>main\<close> and nothing else happens (what those endings leave is C18);
  if it returns, \<^verbatim>\<open>main\<close> returns having released every object in an order the library
  allows, with the success code exactly when the first post and every poll, completion and later post was
  good, or,
  only when destroying some object fails, has ended the process with the failure status.\<close>

theorem server_main_lifecycle:
  assumes "allocator_ok env" and "fifo_answers [0..<100] polls"
  shows "if length argv \<noteq> 2 \<or> sig \<noteq> 0
    then server_main env sig post0 polls argv m = Ret (EXIT_FAILURE, []) (rdma_start m)
    else case rdma_init_server env (argv ! 1) 100 (rdma_start m) of
      Ret x st0 \<Rightarrow>
        (\<exists>out st. server_main env sig post0 polls argv m =
            Ret (if post0 = 0 \<and> list_all good_answer polls then EXIT_SUCCESS else EXIT_FAILURE, out) st \<and>
          held st = Some []) \<or>
        (\<exists>st r. server_main env sig post0 polls argv m = Exited EXIT_FAILURE st \<and> e_destroy env r \<noteq> 0)
    | Exited c st \<Rightarrow> server_main env sig post0 polls argv m = Exited c st
    | Undef \<Rightarrow> server_main env sig post0 polls argv m = Undef"
  by (rule server_main_cases [OF assms])

theorem server_main_lifecycle_witness:
  "\<exists>out st. server_main example_verbs 0 0 [example_recv_answer] [''rdma_server'', ''mlx5_0''] (\<lambda>_. 0) =
     Ret (EXIT_SUCCESS, out) st \<and> held st = Some []"
proof -
  have "fifo_answers [0..<100] [example_recv_answer]"
    using example_recv_answer_fifo [of "[0..<100]"] by (simp add: take_upt del: upt.simps) (simp add: upt_rec)
  moreover have "good_answer example_recv_answer"
    by (simp add: good_answer_def example_recv_answer_def poll_answer.defs example_poll_def example_wc_def take_map)
  moreover have "100 * MSG_SIZE < 2 ^ 31" by (simp add: MSG_SIZE_def)
  then obtain x st where "rdma_init_server example_verbs ''mlx5_0'' 100 (rdma_start (\<lambda>_. 0)) = Ret x st"
    using example_server_returns [of 100 "''mlx5_0''" "\<lambda>_. 0"] by auto
  moreover have "e_destroy example_verbs r = 0" for r by (simp add: example_verbs_ok)
  ultimately show ?thesis
    using server_main_lifecycle [OF example_verbs_ok(2), where polls = "[example_recv_answer]" and sig = 0
        and ?post0.0 = 0 and argv = "[''rdma_server'', ''mlx5_0'']" and m = "\<lambda>_. 0"]
    by auto
qed

end
