(* ===== verification/Rdma_Client.thy ===== *)
theory Rdma_Client
  imports Rdma_Queue Interruptible
begin

text \<open>
  Model of \<^verbatim>\<open>src/rdma_client.c\<close>: the initial filling of the send buffers, the body of the polling loop
  with its refill of the completed buffers, the loop, and \<^verbatim>\<open>main\<close>. The counter \<^verbatim>\<open>count\<close> is part of the
  loop's state. The theorems say which message every outstanding request carries, and that the program
  never writes to a buffer the adapter may still read.
\<close>

section \<open>Filling buffers\<close>

text \<open>\<^verbatim>\<open>memset(buf, count++, MSG_SIZE)\<close>: the counter is cut to an unsigned char; its increment is undefined
  at \<^verbatim>\<open>INT_MAX\<close>.\<close>

definition fill_buffer :: "nat \<Rightarrow> int \<Rightarrow> (nat \<Rightarrow> byte) \<Rightarrow> (int \<times> (nat \<Rightarrow> byte)) option" where
  "fill_buffer a count m =
     (if count = 2 ^ 31 - 1 then None else Some (count + 1, memset a (word_of_int count) MSG_SIZE m))"

fun init_buffers :: "send_buffer list \<Rightarrow> int \<Rightarrow> (nat \<Rightarrow> byte) \<Rightarrow> (int \<times> (nat \<Rightarrow> byte)) option" where
  "init_buffers [] count m = Some (count, m)"
| "init_buffers (b # bs) count m =
     (case fill_buffer (sb_data_buffer b) count m of None \<Rightarrow> None
      | Some (count, m) \<Rightarrow> init_buffers bs count m)"

section \<open>The loop\<close>

text \<open>The loop over the completions: the status of each is checked before its buffer is refilled. The
  flag is false when a completion had an error status.\<close>

fun refill_sends ::
  "send_buffer list \<Rightarrow> ibv_wc list \<Rightarrow> int \<Rightarrow> (nat \<Rightarrow> byte) \<Rightarrow> (bool \<times> int \<times> (nat \<Rightarrow> byte)) option" where
  "refill_sends bufs [] count m = Some (True, count, m)"
| "refill_sends bufs (w # ws) count m =
     (if status w \<noteq> IBV_WC_SUCCESS then Some (False, count, m)
      else if length bufs \<le> unat (wc_wr_id w) then None
      else case fill_buffer (sb_data_buffer (bufs ! unat (wc_wr_id w))) count m of None \<Rightarrow> None
      | Some (count, m) \<Rightarrow> refill_sends bufs ws count m)"

text \<open>One iteration; the result is \<open>Some code\<close> when the loop is left through \<^verbatim>\<open>goto cleanup\<close>, with the new
  value of the counter.\<close>

definition client_iter ::
  "send_buffer list \<Rightarrow> poll_answer \<Rightarrow> int \<Rightarrow> rdma \<Rightarrow> (int option \<times> int) run" where
  "client_iter bufs a count st =
     (let ne = p_ne a; wcs = take (nat ne) (p_wcs a); st = record_call (Polled ne wcs) st in
      if ne < 0 then Ret (Some EXIT_FAILURE, count) st
      else if int (length (p_wcs a)) < ne then Undef
      else
        case refill_sends bufs wcs count (mem st) of None \<Rightarrow> Undef
        | Some (ok, count, m) \<Rightarrow>
            let st = st\<lparr>mem := m\<rparr> in
            if \<not> ok then Ret (Some EXIT_FAILURE, count) st
            else if 0 < ne then
              bind_run (post_sends (p_post a) (int_of_size (wc_wr_id (p_wcs a ! 0))) ne st) (\<lambda>r st.
                Ret (if r \<noteq> 0 then Some EXIT_FAILURE else None, count) st)
            else Ret (None, count) st)"

fun client_loop :: "send_buffer list \<Rightarrow> poll_answer list \<Rightarrow> int \<Rightarrow> rdma \<Rightarrow> int run" where
  "client_loop bufs [] count st = Ret EXIT_SUCCESS st"
| "client_loop bufs (a # as) count st =
     bind_run (client_iter bufs a count st) (\<lambda>(r, count) st.
       case r of Some code \<Rightarrow> Ret code st | None \<Rightarrow> client_loop bufs as count st)"

section \<open>The interrupt\<close>

text \<open>The flag of the loop with its initial value, the loop's condition, and the signal handler that \<^verbatim>\<open>main\<close>
  installs for the interrupt. The body never waits in a call that the handler could interrupt.\<close>

definition client_loop_flag :: int where "client_loop_flag = 1"

definition client_loop_test :: "int \<Rightarrow> bool" where "client_loop_test flag \<longleftrightarrow> flag \<noteq> 0"

definition client_stop_loop :: "int \<Rightarrow> int \<Rightarrow> int" where "client_stop_loop sig flag = 0"

definition client_loop_body ::
  "send_buffer list \<Rightarrow> int \<times> rdma \<Rightarrow> poll_answer \<Rightarrow> int \<times> rdma + int run" where
  "client_loop_body bufs s a =
     (case client_iter bufs a (fst s) (snd s) of
        Ret (None, count) st \<Rightarrow> Inl (count, st)
      | Ret (Some code, count) st \<Rightarrow> Inr (Ret code st)
      | Exited c st \<Rightarrow> Inr (Exited c st)
      | Undef \<Rightarrow> Inr Undef)"

text \<open>The complete runs of the loop under the interrupt.\<close>

abbreviation client_runs where
  "client_runs bufs \<equiv> loop_run client_loop_test (client_stop_loop SIGINT) None
     (client_loop_body bufs) (\<lambda>s. Ret EXIT_SUCCESS (snd s)) client_loop_flag"

interpretation client_interrupt: interruptible_loop client_loop_test "client_stop_loop SIGINT" None
  "client_loop_body bufs" "\<lambda>s. Ret EXIT_SUCCESS (snd s)" client_loop_flag
  "\<lambda>s as. client_loop bufs as (fst s) (snd s)"
proof unfold_locales
  fix s a as
  show "client_loop bufs (a # as) (fst s) (snd s) =
      (case client_loop_body bufs s a of Inl s' \<Rightarrow> client_loop bufs as (fst s') (snd s') | Inr x \<Rightarrow> x)"
    by (cases "client_iter bufs a (fst s) (snd s)")
      (auto simp: client_loop_body_def split: option.splits)
qed (simp_all add: client_loop_flag_def client_stop_loop_def client_loop_test_def)

section \<open>Main\<close>

definition client_queue_size :: nat where "client_queue_size = 20"

text \<open>\<open>sig\<close> is the answer of \<^verbatim>\<open>sigaction\<close>, \<open>pton\<close> gives the contents of \<^verbatim>\<open>gid\<close> after \<^verbatim>\<open>inet_pton\<close> (whose
  result the program ignores), \<open>post0\<close> is the library's answer to the first post.\<close>

definition client_main ::
  "verbs_env \<Rightarrow> int \<Rightarrow> (string \<Rightarrow> ibv_gid) \<Rightarrow> int \<Rightarrow> poll_answer list \<Rightarrow> string list \<Rightarrow> (nat \<Rightarrow> byte) \<Rightarrow> int run" where
  "client_main env sig pton post0 polls argv m =
     (if length argv \<noteq> 5 then Ret EXIT_FAILURE (rdma_start m)
      else case (atoi (argv ! 3), atoi (argv ! 4)) of
        (Ok lid, Ok qpn) \<Rightarrow>
          if sig \<noteq> 0 then Ret EXIT_FAILURE (rdma_start m)
          else
            bind_run (rdma_init_client env (argv ! 1) (int client_queue_size) lid (pton (argv ! 2))
                (word_of_int qpn) (rdma_start m)) (\<lambda>(result, bufs) st.
            case init_buffers bufs 0 (mem st) of None \<Rightarrow> Undef
            | Some (count, m') \<Rightarrow>
                bind_run (post_sends post0 0 (int client_queue_size) (st\<lparr>mem := m'\<rparr>)) (\<lambda>r st.
                bind_run (if r \<noteq> 0 then Ret EXIT_FAILURE st else client_loop bufs polls count st) (\<lambda>code st.
                bind_run (rdma_cleanup env (c_free (Some result) st)) (\<lambda>_ st. Ret code st))))
      | _ \<Rightarrow> Undef)"

section \<open>Contents of the buffers\<close>

text \<open>Slot \<open>i\<close> of the data buffer at \<open>db\<close> holds the message \<open>v\<close>.\<close>

definition holds_message :: "nat \<Rightarrow> (nat \<Rightarrow> byte) \<Rightarrow> nat \<Rightarrow> int \<Rightarrow> bool" where
  "holds_message db m i v \<longleftrightarrow> (\<forall>x < MSG_SIZE. m (db + i * MSG_SIZE + x) = word_of_int v)"

definition same_slot :: "nat \<Rightarrow> (nat \<Rightarrow> byte) \<Rightarrow> (nat \<Rightarrow> byte) \<Rightarrow> nat \<Rightarrow> bool" where
  "same_slot db m m' i \<longleftrightarrow> (\<forall>x < MSG_SIZE. m' (db + i * MSG_SIZE + x) = m (db + i * MSG_SIZE + x))"

lemma same_slot_refl [simp]: "same_slot db m m i"
  by (simp add: same_slot_def)

lemma same_slot_trans: "same_slot db m m' i \<Longrightarrow> same_slot db m' m'' i \<Longrightarrow> same_slot db m m'' i"
  by (simp add: same_slot_def)

lemma same_slot_message: "same_slot db m m' i \<Longrightarrow> holds_message db m' i v = holds_message db m i v"
  by (simp add: same_slot_def holds_message_def)

lemma memset_message: "holds_message db (memset (db + i * MSG_SIZE) (word_of_int v) MSG_SIZE m) i v"
  by (simp add: holds_message_def memset_def)

lemma memset_same_slot:
  assumes "i \<noteq> j"
  shows "same_slot db m (memset (db + i * MSG_SIZE) v MSG_SIZE m) j"
  using slots_disjoint [OF assms, of db MSG_SIZE] by (auto simp: same_slot_def memset_def)

definition client_buffers :: "nat \<Rightarrow> nat \<Rightarrow> send_buffer list" where
  "client_buffers db n = map (client_buffer db) [0..<n]"

lemma client_buffers_nth: "i < n \<Longrightarrow> sb_data_buffer (client_buffers db n ! i) = db + i * MSG_SIZE"
  by (simp add: client_buffers_def client_buffer_def)

lemma length_client_buffers [simp]: "length (client_buffers db n) = n"
  by (simp add: client_buffers_def)

lemma distinct_window: "s < n \<Longrightarrow> c \<le> n \<Longrightarrow> distinct (window n s c)"
  using set_full_window [of s n] by (metis distinct_take take_window)

text \<open>Completions in ring order from slot \<open>s\<close>: the slots get consecutive messages, the others keep theirs,
  also when an error status stops the loop.\<close>

lemma refill_window:
  assumes "map (unat \<circ> wc_wr_id) ws = window n s (length ws)" and "s < n" and "length ws \<le> n"
    and "count + int (length ws) < 2 ^ 31" and "- (2 ^ 31) \<le> count"
  shows "\<exists>c m'. refill_sends (client_buffers db n) ws count m =
      Some (\<forall>w \<in> set ws. status w = IBV_WC_SUCCESS, c, m') \<and>
    (\<forall>i < n. i \<notin> set (window n s (length ws)) \<longrightarrow> same_slot db m m' i) \<and>
    ((\<forall>w \<in> set ws. status w = IBV_WC_SUCCESS) \<longrightarrow> c = count + int (length ws) \<and>
      (\<forall>j < length ws. holds_message db m' ((s + j) mod n) (count + int j)))"
  using assms
proof (induction ws arbitrary: s count m)
  case Nil
  then show ?case by simp
next
  case (Cons w ws)
  let ?s = "Suc s mod n" and ?m = "memset (db + s * MSG_SIZE) (word_of_int count) MSG_SIZE m"
  have win: "window n s (length (w # ws)) = s # window n ?s (length ws)"
    using Cons.prems(2) by (simp add: window_Suc)
  then have w: "unat (wc_wr_id w) = s" and ids: "map (unat \<circ> wc_wr_id) ws = window n ?s (length ws)"
    using Cons.prems(1) by (simp_all add: comp_def)
  have s': "?s < n" using Cons.prems(2) by (intro mod_less_divisor) linarith
  show ?case
  proof (cases "status w = IBV_WC_SUCCESS")
    case False
    then show ?thesis by auto
  next
    case True
    obtain c m' where r: "refill_sends (client_buffers db n) ws (count + 1) ?m =
        Some (\<forall>w \<in> set ws. status w = IBV_WC_SUCCESS, c, m')"
      and keep: "\<And>i. i < n \<Longrightarrow> i \<notin> set (window n ?s (length ws)) \<Longrightarrow> same_slot db ?m m' i"
      and full: "(\<forall>w \<in> set ws. status w = IBV_WC_SUCCESS) \<Longrightarrow> c = count + 1 + int (length ws) \<and>
        (\<forall>j < length ws. holds_message db m' ((?s + j) mod n) (count + 1 + int j))"
      using Cons.IH [OF ids s', of "count + 1" ?m] Cons.prems(3-5) by auto
    have "s \<notin> set (window n ?s (length ws))"
      using distinct_window [OF Cons.prems(2,3)] win by simp
    then have first: "holds_message db m' s count"
      using keep [OF Cons.prems(2)] same_slot_message memset_message by blast
    have rest: "same_slot db m m' i" if "i < n" "i \<notin> set (window n s (length (w # ws)))" for i
      using that keep [of i] memset_same_slot [of s i db m "word_of_int count"] win
      by (auto intro: same_slot_trans)
    have "holds_message db m' ((s + j) mod n) (count + int j)"
      if "\<forall>w \<in> set ws. status w = IBV_WC_SUCCESS" "j < length (w # ws)" for j
      using that first full Cons.prems(2) by (cases j) (auto simp: mod_simps algebra_simps)
    then show ?thesis
      using True r w rest full Cons.prems(2,4) client_buffers_nth [OF Cons.prems(2)]
      by (auto simp: fill_buffer_def)
  qed
qed

lemma init_buffers_from:
  assumes "i \<le> n" and "n < 2 ^ 31"
  shows "\<exists>m'. init_buffers (map (client_buffer db) [i..<n]) (int i) m = Some (int n, m') \<and>
    (\<forall>j. i \<le> j \<and> j < n \<longrightarrow> holds_message db m' j (int j)) \<and> (\<forall>j < i. same_slot db m m' j)"
  using assms(1)
proof (induction "n - i" arbitrary: i m)
  case 0
  then show ?case by auto
next
  case (Suc d)
  then have i: "i < n" and d: "d = n - Suc i" by simp_all
  let ?m = "memset (db + i * MSG_SIZE) (word_of_int (int i)) MSG_SIZE m"
  obtain m' where r: "init_buffers (map (client_buffer db) [Suc i..<n]) (int (Suc i)) ?m = Some (int n, m')"
    and m': "\<And>j. Suc i \<le> j \<Longrightarrow> j < n \<Longrightarrow> holds_message db m' j (int j)" "\<And>j. j < Suc i \<Longrightarrow> same_slot db ?m m' j"
    using Suc.hyps(1) [OF d Suc_leI [OF i], of ?m] by blast
  have "holds_message db m' i (int i)"
    using same_slot_message [OF m'(2) [of i]] memset_message [of db i "int i" m] by simp
  then have "\<forall>j. i \<le> j \<and> j < n \<longrightarrow> holds_message db m' j (int j)"
    using m'(1) by (metis le_antisym not_less_eq_eq)
  moreover have "\<forall>j < i. same_slot db m m' j"
    using memset_same_slot [of i _ db m] m'(2) by (metis less_SucI less_irrefl same_slot_trans)
  moreover have "int i \<noteq> 2 ^ 31 - 1"
  proof -
    have "int n < 2 ^ 31" using assms(2) by simp
    then show ?thesis using i by linarith
  qed
  ultimately show ?case
    using r i by (simp add: upt_conv_Cons fill_buffer_def client_buffer_def add.commute)
qed

section \<open>Reachable states\<close>

text \<open>The invariant of the loop with counter \<open>T\<close>: the adapter's queue holds every slot once, in ring order,
  and its \<open>k\<close>-th oldest request carries the message with number \<open>T - n + k\<close>.\<close>

definition client_inv :: "nat \<Rightarrow> nat \<Rightarrow> nat \<Rightarrow> rdma \<Rightarrow> bool" where
  "client_inv n db T st \<longleftrightarrow> send_ok n st \<and> 0 < n \<and> n \<le> T \<and> nic_queue st = window n (T mod n) n \<and>
     (\<forall>k < n. holds_message db (mem st) ((T + k) mod n) (int T - int n + int k))"

lemma send_ok_simps [simp]:
  "send_ok n (st\<lparr>mem := m\<rparr>) = send_ok n st" "send_ok n (record_call e st) = send_ok n st"
  by (simp_all add: send_ok_def)

lemma record_call_mem [simp]: "(record_call e st)\<lparr>mem := m\<rparr> = record_call e (st\<lparr>mem := m\<rparr>)"
  by (simp add: record_call_def)

lemma client_inv_polled_none:
  "client_inv n db T st \<Longrightarrow> client_inv n db T (record_call (Polled 0 []) st)"
  by (simp add: client_inv_def)

lemma window_drop_disjoint:
  assumes "s < n" and "k \<le> n"
  shows "set (window n s k) \<inter> set (drop k (window n s n)) = {}"
proof -
  have "distinct (take k (window n s n) @ drop k (window n s n))"
    using set_full_window [OF assms(1)] by simp
  then show ?thesis unfolding take_window [OF assms(2)] by (simp only: distinct_append)
qed

text \<open>Refilling the \<open>k\<close> oldest slots moves the sequence of messages on by \<open>k\<close>.\<close>

lemma messages_advance:
  assumes "\<forall>j < n. holds_message db m ((T + j) mod n) (int T - int n + int j)" and "k \<le> n" and "0 < n"
    and "\<forall>j < k. holds_message db m' ((T mod n + j) mod n) (int T + int j)"
    and "\<And>i. i < n \<Longrightarrow> i \<notin> set (window n (T mod n) k) \<Longrightarrow> same_slot db m m' i" and "j < n"
  shows "holds_message db m' ((T + k + j) mod n) (int (T + k) - int n + int j)"
proof (cases "k + j < n")
  case True
  have "set (window n (T mod n) k) \<inter> set (drop k (window n (T mod n) n)) = {}"
    using assms(2,3) by (intro window_drop_disjoint) simp_all
  moreover have "drop k (window n (T mod n) n) ! j = (T + k + j) mod n"
    using True assms(2) by (simp add: nth_window mod_simps add.assoc)
  then have "(T + k + j) mod n \<in> set (drop k (window n (T mod n) n))"
    using True by (metis add.commute length_drop length_window less_diff_conv nth_mem)
  ultimately have "(T + k + j) mod n \<notin> set (window n (T mod n) k)" by blast
  then have "same_slot db m m' ((T + k + j) mod n)" using assms(3) by (intro assms(5)) simp_all
  moreover have "holds_message db m ((T + (k + j)) mod n) (int T - int n + int (k + j))"
    using assms(1) True by blast
  ultimately show ?thesis using same_slot_message by (simp add: algebra_simps)
next
  case False
  define i where "i = k + j - n"
  have e: "T + k + j = T + i + n" and "i < k" using False assms(2,6) by (simp_all add: i_def)
  have "(T + k + j) mod n = (T mod n + i) mod n" by (simp add: e mod_simps)
  moreover have "int (T + k) - int n + int j = int T + int i" using e by simp
  ultimately show ?thesis using assms(4) \<open>i < k\<close> by (simp only:)
qed

text \<open>The iteration once the completions are processed.\<close>

lemma client_iter_polled:
  assumes "client_inv n db T st" and "fifo_poll (window n (T mod n) n) a"
    and "refill_sends bufs (take (nat (p_ne a)) (p_wcs a)) (int T) (mem st) = Some (good, c, m')"
    and "good \<Longrightarrow> c = int T + int (nat (p_ne a))"
    and "good \<Longrightarrow> \<forall>j < n. holds_message db m' ((T + nat (p_ne a) + j) mod n) (int (T + nat (p_ne a)) - int n + int j)"
  defines "k \<equiv> nat (p_ne a)"
    and "polled \<equiv> record_call (Polled (p_ne a) (take (nat (p_ne a)) (p_wcs a))) (st\<lparr>mem := m'\<rparr>)"
  assumes "0 \<le> p_ne a" and "good"
  shows "if p_ne a = 0 then client_iter bufs a (int T) st = Ret (None, int T) polled \<and> client_inv n db T polled
     else \<exists>e. client_iter bufs a (int T) st =
            Ret (if p_post a \<noteq> 0 then Some EXIT_FAILURE else None, int (T + k)) (record_call e polled) \<and>
          send_posted (p_post a) e = Some (map wc_wr_id (take k (p_wcs a))) \<and>
          (p_post a = 0 \<longrightarrow> client_inv n db (T + k) (record_call e polled) \<and>
             nic_queue (record_call e polled) = drop k (nic_queue st) @ take k (nic_queue st))"
proof -
  from assms(1) have ok: "send_ok n st" and n: "0 < n" "n \<le> T" and q: "nic_queue st = window n (T mod n) n"
    by (simp_all add: client_inv_def)
  have le: "\<not> int (length (p_wcs a)) < p_ne a" and kn: "p_ne a \<le> int n"
    using fifo_count [OF assms(2)] assms(8) by simp_all
  show ?thesis
  proof (cases "p_ne a = 0")
    case True
    then show ?thesis
      using assms(3-5,9) le n ok q
      by (simp add: client_iter_def polled_def Let_def k_def client_inv_def)
  next
    case False
    then have pos: "0 < p_ne a" using assms(8) by simp
    have q': "nic_queue (st\<lparr>mem := m'\<rparr>) = window n (T mod n) n" using q by simp
    have ok': "send_ok n (st\<lparr>mem := m'\<rparr>)" using ok by simp
    have s: "T mod n < n" using n by simp
    obtain e where e: "post_sends (p_post a) (int_of_size (wc_wr_id (p_wcs a ! 0))) (p_ne a) polled =
        Ret (if p_post a \<noteq> 0 then -1 else 0) (record_call e polled)"
      "send_posted (p_post a) e = Some (map wc_wr_id (take k (p_wcs a)))"
      "p_post a = 0 \<Longrightarrow> nic_queue (record_call e polled) = window n ((T mod n + k) mod n) n \<and>
        window n ((T mod n + k) mod n) n = drop k (window n (T mod n) n) @ take k (window n (T mod n) n)"
      using send_post.cycle [OF ok' s q' assms(2) pos kn, of "p_post a" "take (nat (p_ne a)) (p_wcs a)"]
      unfolding polled_def k_def by blast
    have "client_inv n db (T + k) (record_call e polled)" if "p_post a = 0"
      using e(3) [OF that] ok n assms(5,9)
      by (simp add: client_inv_def polled_def k_def mod_simps)
    moreover have "client_iter bufs a (int T) st =
        Ret (if p_post a \<noteq> 0 then Some EXIT_FAILURE else None, int (T + k)) (record_call e polled)"
      using assms(3,4,9) le pos e(1) [unfolded polled_def]
      by (simp add: client_iter_def polled_def Let_def k_def)
    ultimately show ?thesis using False e(2,3) q by auto
  qed
qed

lemma client_iter_cases:
  assumes "client_inv n db T st" and "fifo_poll (nic_queue st) a" and "T + 10 < 2 ^ 31"
  defines "k \<equiv> nat (p_ne a)"
  shows "\<exists>c m'. (\<forall>i \<in> set (drop k (nic_queue st)). same_slot db (mem st) m' i) \<and>
    (let polled = record_call (Polled (p_ne a) (take k (p_wcs a))) (st\<lparr>mem := m'\<rparr>) in
     if p_ne a < 0 \<or> (\<exists>w \<in> set (take k (p_wcs a)). status w \<noteq> IBV_WC_SUCCESS)
     then client_iter (client_buffers db n) a (int T) st = Ret (Some EXIT_FAILURE, c) polled
     else if p_ne a = 0
     then client_iter (client_buffers db n) a (int T) st = Ret (None, int T) polled \<and> client_inv n db T polled
     else \<exists>e. client_iter (client_buffers db n) a (int T) st =
            Ret (if p_post a \<noteq> 0 then Some EXIT_FAILURE else None, int (T + k)) (record_call e polled) \<and>
          send_posted (p_post a) e = Some (map wc_wr_id (take k (p_wcs a))) \<and>
          (p_post a = 0 \<longrightarrow> client_inv n db (T + k) (record_call e polled) \<and>
             nic_queue (record_call e polled) = drop k (nic_queue st) @ take k (nic_queue st)))"
proof -
  let ?wcs = "take k (p_wcs a)" and ?s = "T mod n" and ?bufs = "client_buffers db n"
  from assms(1) have ok: "send_ok n st" and n: "0 < n" "n \<le> T" and q: "nic_queue st = window n ?s n"
    and msgs: "\<forall>j < n. holds_message db (mem st) ((T + j) mod n) (int T - int n + int j)"
    by (simp_all add: client_inv_def)
  have s: "?s < n" using n by simp
  have fifo: "fifo_poll (window n ?s n) a" using assms(2) q by simp
  have k: "k \<le> n" "k \<le> 10" "length (p_wcs a) = 10" using fifo_count [OF fifo] by (simp_all add: k_def)
  have le: "\<not> int (length (p_wcs a)) < p_ne a" using k by (simp add: k_def)
  define good where "good \<longleftrightarrow> (\<forall>w \<in> set ?wcs. status w = IBV_WC_SUCCESS)"
  have len: "length ?wcs = k" using k by simp
  have ids: "map (unat \<circ> wc_wr_id) ?wcs = window n ?s k"
    using fifo take_window [OF k(1)] by (simp add: fifo_poll_def k_def)
  have "int T + int k < 2 ^ 31" using assms(3) k(2) by simp
  then obtain c m' where run: "refill_sends ?bufs ?wcs (int T) (mem st) = Some (good, c, m')"
    and keep: "\<And>i. i < n \<Longrightarrow> i \<notin> set (window n ?s k) \<Longrightarrow> same_slot db (mem st) m' i"
    and full: "good \<Longrightarrow> c = int T + int k \<and> (\<forall>j < k. holds_message db m' ((?s + j) mod n) (int T + int j))"
    using refill_window [of ?wcs n ?s "int T" db "mem st", unfolded len, OF ids s k(1)] unfolding good_def by auto
  have outstanding: "\<forall>i \<in> set (drop k (nic_queue st)). same_slot db (mem st) m' i"
  proof
    fix i assume i: "i \<in> set (drop k (nic_queue st))"
    then have "i \<notin> set (window n ?s k)" using window_drop_disjoint [OF s k(1)] q by auto
    moreover have "i < n" using i q in_window [OF s] by (auto dest: in_set_dropD)
    ultimately show "same_slot db (mem st) m' i" by (rule keep [rotated])
  qed
  let ?polled = "record_call (Polled (p_ne a) ?wcs) (st\<lparr>mem := m'\<rparr>)"
  have ng: "\<not> good \<longleftrightarrow> (\<exists>w \<in> set ?wcs. status w \<noteq> IBV_WC_SUCCESS)" by (simp add: good_def)
  have res: "if p_ne a < 0 \<or> \<not> good then client_iter ?bufs a (int T) st = Ret (Some EXIT_FAILURE, c) ?polled
     else if p_ne a = 0 then client_iter ?bufs a (int T) st = Ret (None, int T) ?polled \<and> client_inv n db T ?polled
     else \<exists>e. client_iter ?bufs a (int T) st =
            Ret (if p_post a \<noteq> 0 then Some EXIT_FAILURE else None, int (T + k)) (record_call e ?polled) \<and>
          send_posted (p_post a) e = Some (map wc_wr_id ?wcs) \<and>
          (p_post a = 0 \<longrightarrow> client_inv n db (T + k) (record_call e ?polled) \<and>
             nic_queue (record_call e ?polled) = drop k (nic_queue st) @ take k (nic_queue st))"
  proof (cases "0 \<le> p_ne a \<and> good")
    case False
    then show ?thesis
      using run [unfolded k_def] le by (cases "p_ne a < 0") (auto simp: client_iter_def k_def Let_def)
  next
    case True
    then have "\<forall>j < n. holds_message db m' ((T + k + j) mod n) (int (T + k) - int n + int j)"
      using messages_advance [OF msgs k(1) n(1) _ keep] full by blast
    then show ?thesis
      using client_iter_polled [OF assms(1) fifo run [unfolded k_def]] full True unfolding k_def by simp
  qed
  show ?thesis
    unfolding Let_def by (rule exI [of _ c], rule exI [of _ m'], rule conjI [OF outstanding res [unfolded ng]])
qed

lemma client_iter_same:
  assumes "client_inv n db T st" and "fifo_poll (nic_queue st) a" and "T + 10 < 2 ^ 31"
  shows "\<exists>r st'. client_iter (client_buffers db n) a (int T) st = Ret r st' \<and>
    (\<forall>i \<in> set (drop (nat (p_ne a)) (nic_queue st)). same_slot db (mem st) (mem st') i)"
proof -
  let ?k = "nat (p_ne a)"
  obtain c m' where same: "\<forall>i \<in> set (drop ?k (nic_queue st)). same_slot db (mem st) m' i"
    and res: "let polled = record_call (Polled (p_ne a) (take ?k (p_wcs a))) (st\<lparr>mem := m'\<rparr>) in
     if p_ne a < 0 \<or> (\<exists>w \<in> set (take ?k (p_wcs a)). status w \<noteq> IBV_WC_SUCCESS)
     then client_iter (client_buffers db n) a (int T) st = Ret (Some EXIT_FAILURE, c) polled
     else if p_ne a = 0
     then client_iter (client_buffers db n) a (int T) st = Ret (None, int T) polled \<and> client_inv n db T polled
     else \<exists>e. client_iter (client_buffers db n) a (int T) st =
            Ret (if p_post a \<noteq> 0 then Some EXIT_FAILURE else None, int (T + ?k)) (record_call e polled) \<and>
          send_posted (p_post a) e = Some (map wc_wr_id (take ?k (p_wcs a))) \<and>
          (p_post a = 0 \<longrightarrow> client_inv n db (T + ?k) (record_call e polled) \<and>
             nic_queue (record_call e polled) = drop ?k (nic_queue st) @ take ?k (nic_queue st))"
    using client_iter_cases [OF assms] by blast
  have "\<exists>r st'. client_iter (client_buffers db n) a (int T) st = Ret r st' \<and> mem st' = m'"
    using res unfolding Let_def
    by (cases "p_ne a < 0 \<or> (\<exists>w \<in> set (take ?k (p_wcs a)). status w \<noteq> IBV_WC_SUCCESS)"; cases "p_ne a = 0")
      (simp_all only: if_True if_False, auto)
  then show ?thesis using same by blast
qed

lemma client_ready_ok:
  assumes "client_ready env n lid gid qpn result bufs st" and "n \<le> 2 ^ 30"
  shows "send_ok n st \<and> (\<exists>db. bufs = client_buffers db n) \<and> nic_queue st = []"
  using assms by (auto simp: client_ready_def send_ok_def holds_buffers_def client_buffers_def)

lemma client_first_post:
  assumes "client_ready env n lid gid qpn result bufs st" and "0 < n" and "n \<le> 2 ^ 30"
  shows "\<exists>db m'. bufs = client_buffers db n \<and> init_buffers bufs 0 (mem st) = Some (int n, m') \<and>
    (\<exists>e. post_sends 0 0 (int n) (st\<lparr>mem := m'\<rparr>) = Ret 0 (record_call e (st\<lparr>mem := m'\<rparr>)) \<and>
       client_inv n db n (record_call e (st\<lparr>mem := m'\<rparr>)))"
proof -
  obtain db where bufs: "bufs = client_buffers db n" and ok: "send_ok n st" and q: "nic_queue st = []"
    using client_ready_ok [OF assms(1,3)] by blast
  have "(2 :: nat) ^ 30 < 2 ^ 31" by simp
  then have "n < 2 ^ 31" using assms(3) by linarith
  then obtain m' where m': "init_buffers bufs 0 (mem st) = Some (int n, m')"
    and msgs: "\<forall>j < n. holds_message db m' j (int j)"
    using init_buffers_from [of 0 n db "mem st"] unfolding bufs client_buffers_def by auto
  obtain e where e: "post_sends 0 0 (int n) (st\<lparr>mem := m'\<rparr>) = Ret 0 (record_call e (st\<lparr>mem := m'\<rparr>))"
    and nic: "nic_queue (record_call e (st\<lparr>mem := m'\<rparr>)) = window n 0 n"
    using send_post.fill [of n "st\<lparr>mem := m'\<rparr>"] ok q assms(2) by auto
  have "client_inv n db n (record_call e (st\<lparr>mem := m'\<rparr>))"
    unfolding client_inv_def nic using ok msgs assms(2) by simp
  then show ?thesis using bufs m' e by blast
qed

inductive client_reach :: "nat \<Rightarrow> send_buffer list \<Rightarrow> int \<Rightarrow> rdma \<Rightarrow> bool" for n bufs where
  start: "client_ready env n lid gid qpn result bufs st \<Longrightarrow> init_buffers bufs 0 (mem st) = Some (count, m') \<Longrightarrow>
    post_sends 0 0 (int n) (st\<lparr>mem := m'\<rparr>) = Ret 0 st' \<Longrightarrow> client_reach n bufs count st'"
| iter: "client_reach n bufs count st \<Longrightarrow> fifo_poll (nic_queue st) a \<Longrightarrow> count + 10 < 2 ^ 31 \<Longrightarrow>
    client_iter bufs a count st = Ret (None, count') st' \<Longrightarrow> client_reach n bufs count' st'"

lemma client_reach_inv:
  assumes "client_reach n bufs count st" and "0 < n" and "n \<le> 2 ^ 30"
  shows "\<exists>db T. bufs = client_buffers db n \<and> count = int T \<and> client_inv n db T st"
  using assms
proof (induction rule: client_reach.induct)
  case (start env lid gid qpn result st count m' st')
  then show ?case using client_first_post [OF start(1)] by fastforce
next
  case (iter count st a count' st')
  then obtain db T where b: "bufs = client_buffers db n" and T: "count = int T" and inv: "client_inv n db T st"
    by blast
  have "T + 10 < 2 ^ 31" using iter.hyps(3) T by simp
  note cases = client_iter_cases [OF inv iter.hyps(2) this]
  have run: "client_iter (client_buffers db n) a (int T) st = Ret (None, count') st'"
    using iter.hyps(4) b T by simp
  have "count' = int T \<and> client_inv n db T st' \<or>
      count' = int (T + nat (p_ne a)) \<and> client_inv n db (T + nat (p_ne a)) st'"
    using cases unfolding run by (auto simp: Let_def split: if_splits)
  then show ?case using b by blast
qed

text \<open>The loop on in-order answers: it returns, with success exactly when no answer reports a failure.\<close>

lemma client_loop_returns:
  assumes "client_inv n db T st" and "fifo_answers (nic_queue st) as" and "T + 10 * length as < 2 ^ 31"
  shows "\<exists>st'. client_loop (client_buffers db n) as (int T) st =
    Ret (if list_all good_answer as then EXIT_SUCCESS else EXIT_FAILURE) st'"
  using assms
proof (induction as arbitrary: T st)
  case Nil
  then show ?case by simp
next
  case (Cons a as)
  let ?k = "nat (p_ne a)"
  from Cons.prems have fifo: "fifo_poll (nic_queue st) a" and T: "T + 10 < 2 ^ 31"
    and rest: "fifo_answers (drop ?k (nic_queue st) @ take ?k (nic_queue st)) as" by simp_all
  have "?k \<le> 10" using fifo by (auto simp: fifo_poll_def)
  then have T': "T + ?k + 10 * length as < 2 ^ 31" "T + 10 * length as < 2 ^ 31" using Cons.prems(3) by simp_all
  show ?case
  proof (cases "good_answer a")
    case True
    then obtain T' st1 where run: "client_iter (client_buffers db n) a (int T) st = Ret (None, int T') st1"
      and inv: "client_inv n db T' st1" "nic_queue st1 = drop ?k (nic_queue st) @ take ?k (nic_queue st)"
      and "T' = T \<or> T' = T + ?k"
      using client_iter_cases [OF Cons.prems(1) fifo T]
      by (fastforce simp: good_answer_def Let_def split: if_splits)
    then have "T' + 10 * length as < 2 ^ 31" using T' by auto
    with inv rest show ?thesis using run True Cons.IH [OF inv(1)] by auto
  next
    case False
    then obtain c st1 where "client_iter (client_buffers db n) a (int T) st = Ret (Some EXIT_FAILURE, c) st1"
      using client_iter_cases [OF Cons.prems(1) fifo T]
      by (fastforce simp: good_answer_def Let_def split: if_splits)
    then show ?thesis using False by simp
  qed
qed

lemma holds_buffers_mem: "holds_buffers as (st\<lparr>mem := m\<rparr>) = holds_buffers as st"
  by (simp add: holds_buffers_def header_part_def array_blocks_def)

lemma array_blocks_mem [simp]: "array_blocks (st\<lparr>mem := m\<rparr>) = array_blocks st"
  by (simp add: array_blocks_def)

text \<open>The loop under the interrupt. The body leaves it only with the failure code.\<close>

lemma client_iter_code: "client_iter bufs a count st = Ret (Some code, c) st' \<Longrightarrow> code = EXIT_FAILURE"
  by (auto simp: client_iter_def Let_def split: if_splits option.splits elim!: bind_run_RetE)

lemma client_body_code: "client_loop_body bufs s a = Inr (Ret code st) \<Longrightarrow> code = EXIT_FAILURE"
  by (auto simp: client_loop_body_def split: run.splits option.splits dest: client_iter_code)

lemma client_loop_interrupted:
  assumes "client_inv n db T st" and "fifo_answers (nic_queue st) as" and "T + 10 * length as < 2 ^ 31"
    and run: "client_runs (client_buffers db n) (int T, st) flag as r"
  shows "\<exists>st'. r = Ret (if list_all good_answer as then EXIT_SUCCESS else EXIT_FAILURE) st' \<and>
    (list_all good_answer as \<longrightarrow> \<not> client_loop_test flag)"
proof -
  obtain st' where r: "r = Ret (if list_all good_answer as then EXIT_SUCCESS else EXIT_FAILURE) st'"
    using client_interrupt.loop_run_result [OF run] client_loop_returns [OF assms(1-3)] by auto
  moreover have "\<not> client_loop_test flag" if "list_all good_answer as"
    by (rule client_interrupt.left_by_test [OF run]) (use that r in \<open>auto dest: client_body_code simp: EXIT_SUCCESS_def EXIT_FAILURE_def\<close>)
  ultimately show ?thesis by blast
qed

lemma client_iter_keeps:
  assumes "client_iter bufs a count st = Ret x st'" and "holds_buffers as st"
  shows "holds_buffers as st' \<and> array_blocks st' = array_blocks st"
proof -
  let ?st = "\<lambda>m. record_call (Polled (p_ne a) (take (nat (p_ne a)) (p_wcs a))) (st\<lparr>mem := m\<rparr>)"
  have st: "?st (mem st) = record_call (Polled (p_ne a) (take (nat (p_ne a)) (p_wcs a))) st" by simp
  have hb: "holds_buffers as (?st m)" for m
    using assms(2) by (intro holds_buffers_polled) (simp add: holds_buffers_mem)
  have "\<exists>m. st' = ?st m \<or>
      (\<exists>r. post_sends (p_post a) (int_of_size (wc_wr_id (p_wcs a ! 0))) (p_ne a) (?st m) = Ret r st')"
  proof (cases "p_ne a < 0")
    case True
    then show ?thesis using assms(1) st by (intro exI [of _ "mem st"]) (simp add: client_iter_def)
  next
    case False
    then obtain ok c m where "refill_sends bufs (take (nat (p_ne a)) (p_wcs a)) count (mem st) = Some (ok, c, m)"
      using assms(1) by (auto simp: client_iter_def Let_def split: if_splits option.splits)
    then show ?thesis
      using assms(1) False
      by (intro exI [of _ m]) (auto simp: client_iter_def Let_def split: if_splits elim!: bind_run_RetE)
  qed
  then show ?thesis using hb post_sends_keeps [OF _ hb] by auto
qed

lemma client_loop_keeps:
  assumes "client_loop bufs polls count st = Ret x st'" and "holds_buffers as st"
  shows "holds_buffers as st' \<and> array_blocks st' = array_blocks st"
  using assms
proof (induction bufs polls count st rule: client_loop.induct)
  case (1 bufs count st)
  then show ?case by simp
next
  case (2 bufs a polls count st)
  then obtain r c st1 where i: "client_iter bufs a count st = Ret (r, c) st1"
    by (cases "client_iter bufs a count st") auto
  then show ?case
    using 2 client_iter_keeps [OF i 2(3)] by (cases r) auto
qed

lemma client_ready_blocks:
  assumes "client_ready env n lid gid qpn result bufs st"
  shows "\<exists>sq sg. holds_buffers [sq, sg, result] st \<and> array_blocks st = [sg, sq]"
  using assms by (auto simp: client_ready_def array_blocks_def)

lemma client_main_cases:
  assumes "allocator_ok env" and "fifo_answers [0..<20] polls"
    and "20 + 10 * length polls < 2 ^ 31" and "- (2 ^ 31) \<le> lid" and "lid < 2 ^ 31"
    and "- (2 ^ 31) \<le> qpn" and "qpn < 2 ^ 31" and "argv = [prog, dev, gid, fmt_d lid, fmt_d qpn]"
  shows "if sig \<noteq> 0 then client_main env sig pton post0 polls argv m = Ret EXIT_FAILURE (rdma_start m)
    else case rdma_init_client env dev 20 lid (pton gid) (word_of_int qpn) (rdma_start m) of
      Ret x st0 \<Rightarrow>
        (\<exists>st. client_main env sig pton post0 polls argv m =
            Ret (if post0 = 0 \<and> list_all good_answer polls then EXIT_SUCCESS else EXIT_FAILURE) st \<and>
          held st = Some []) \<or>
        (\<exists>st r. client_main env sig pton post0 polls argv m = Exited EXIT_FAILURE st \<and> e_destroy env r \<noteq> 0)
    | Exited c st \<Rightarrow> client_main env sig pton post0 polls argv m = Exited c st
    | Undef \<Rightarrow> client_main env sig pton post0 polls argv m = Undef"
proof (cases "sig = 0")
  case False
  then show ?thesis using assms(4-8) by (auto simp: client_main_def atoi_fmt_d)
next
  case sig: True
  have small: "20 * MSG_SIZE < 2 ^ 31" by (simp add: MSG_SIZE_def)
  have init: "rdma_init_client env dev (int client_queue_size) lid (pton gid) (word_of_int qpn) (rdma_start m) =
      rdma_init_client env dev 20 lid (pton gid) (word_of_int qpn) (rdma_start m)" by (simp add: client_queue_size_def)
  note args = sig assms(4-8) atoi_fmt_d
  show ?thesis
  proof (cases "rdma_init_client env dev 20 lid (pton gid) (word_of_int qpn) (rdma_start m)")
    case (Ret x st)
    obtain result bufs where x: "x = (result, bufs)" by (cases x)
    have ready: "client_ready env 20 lid (pton gid) (word_of_int qpn) result bufs st"
      using rdma_init_client_any [OF assms(1) small, where dev = dev and lid = lid and gid = "pton gid"
          and qpn = "word_of_int qpn" and m = m] Ret x by simp
    obtain sq sg where hb: "holds_buffers [sq, sg, result] st" and ab: "array_blocks st = [sg, sq]"
      using client_ready_blocks [OF ready] by blast
    obtain db m' where bufs: "bufs = client_buffers db 20" and fill: "init_buffers bufs 0 (mem st) = Some (20, m')"
      and first: "\<exists>e. post_sends 0 0 20 (st\<lparr>mem := m'\<rparr>) = Ret 0 (record_call e (st\<lparr>mem := m'\<rparr>)) \<and>
        client_inv 20 db 20 (record_call e (st\<lparr>mem := m'\<rparr>))"
      using client_first_post [OF ready] by auto
    let ?st = "st\<lparr>mem := m'\<rparr>"
    obtain e where post: "post_sends post0 0 20 ?st = Ret (if post0 \<noteq> 0 then -1 else 0) (record_call e ?st)"
      using send_post.post_window [of 20 ?st 0 20 post0] client_ready_ok [OF ready] by auto
    have "\<exists>st'. client_loop bufs polls 20 (record_call e ?st) =
        Ret (if list_all good_answer polls then EXIT_SUCCESS else EXIT_FAILURE) st'" if "post0 = 0"
    proof -
      have inv: "client_inv 20 db 20 (record_call e ?st)" using that post first by auto
      then have "fifo_answers (nic_queue (record_call e ?st)) polls"
        unfolding client_inv_def using assms(2) by (simp only:) (simp add: window_0)
      then show ?thesis using client_loop_returns [OF inv] assms(3) bufs by simp
    qed
    then obtain code st' where loop: "(if (if post0 \<noteq> 0 then -1 else (0 :: int)) \<noteq> 0 then Ret EXIT_FAILURE
        (record_call e ?st) else client_loop bufs polls 20 (record_call e ?st)) = Ret code st'"
      and code: "code = (if post0 = 0 \<and> list_all good_answer polls then EXIT_SUCCESS else EXIT_FAILURE)"
      by (cases "post0 = 0") auto
    have "holds_buffers [sq, sg, result] (record_call e ?st) \<and> array_blocks (record_call e ?st) = [sg, sq]"
      using post_sends_keeps [OF post] hb ab by (simp add: holds_buffers_mem)
    then have "holds_buffers [sq, sg, result] st' \<and> array_blocks st' = [sg, sq]"
      using loop client_loop_keeps [of bufs polls 20 "record_call e ?st" code st' "[sq, sg, result]"]
      by (cases "post0 = 0") auto
    note clean = final_cleanup_any [of sq sg result st' env, OF conjunct1 [OF this] conjunct2 [OF this]]
    have "client_main env sig pton post0 polls argv m =
        bind_run (rdma_cleanup env (c_free (Some result) st')) (\<lambda>_ st. Ret code st)"
      using args Ret x fill post loop by (simp add: client_main_def client_queue_size_def)
    then show ?thesis using sig clean code Ret by auto
  qed (use init args in \<open>auto simp: client_main_def\<close>)
qed

section \<open>A running client\<close>

lemma example_client_start:
  "\<exists>result bufs st m' c. client_ready example_verbs 2 7 [] 5 result bufs st \<and>
     init_buffers bufs 0 (mem st) = Some (2, m') \<and>
     post_sends 0 0 (int 2) (st\<lparr>mem := m'\<rparr>) = Ret 0 c \<and> nic_queue c = [0, 1]"
proof -
  have small: "2 * MSG_SIZE < 2 ^ 31" by (simp add: MSG_SIZE_def)
  obtain result bufs st where "rdma_init_client example_verbs ''mlx5_1'' (int 2) 7 [] 5 (rdma_start (\<lambda>_. 0)) = Ret (result, bufs) st"
    using example_client_returns [OF small, of "''mlx5_1''"] by blast
  then have ready: "client_ready example_verbs 2 7 [] 5 result bufs st"
    using rdma_init_client_cases [OF example_verbs_ok small, where dev = "''mlx5_1''" and lid = 7 and gid = "[]"
        and qpn = 5 and m = "\<lambda>_. 0"] by simp
  obtain db m' e where m': "init_buffers bufs 0 (mem st) = Some (2, m')"
    and e: "post_sends 0 0 (int 2) (st\<lparr>mem := m'\<rparr>) = Ret 0 (record_call e (st\<lparr>mem := m'\<rparr>))"
    and inv: "client_inv 2 db 2 (record_call e (st\<lparr>mem := m'\<rparr>))"
    using client_first_post [OF ready] by auto
  have "window 2 0 2 = [0, 1]" by (simp add: window_0 upt_rec)
  then have "nic_queue (record_call e (st\<lparr>mem := m'\<rparr>)) = [0, 1]"
    using inv unfolding client_inv_def by (simp only:) simp
  with ready m' e show ?thesis by blast
qed

lemma example_client_reach: "\<exists>bufs st. client_reach 2 bufs 2 st \<and> nic_queue st = [0, 1]"
  using example_client_start client_reach.start by blast

lemma example_poll_fifo: "take 2 q = [0, 1] \<Longrightarrow> fifo_poll q example_poll"
  by (simp add: fifo_poll_def example_poll_def example_wc_def upt_rec)

section \<open>Properties\<close>

text \<open>C16: in every state the client's loop can reach with an adapter that completes sends in order, the
  adapter holds every one of the \<open>n\<close> send requests exactly once, and the \<open>k\<close>-th oldest of them carries
  message number \<open>count - n + k\<close>, its low eight bits in each of the 8940 bytes of the buffer: the messages
  handed to the adapter are numbered consecutively, none is skipped and none is repeated.\<close>

theorem client_messages_consecutive:
  assumes "client_reach n bufs count st" and "0 < n" and "n \<le> 2 ^ 30" and "k < n"
  shows "distinct (nic_queue st) \<and> set (nic_queue st) = {..<n} \<and>
    (\<forall>x < MSG_SIZE. mem st (sb_data_buffer (bufs ! (nic_queue st ! k)) + x) = word_of_int (count - int n + int k))"
proof -
  obtain db T where b: "bufs = client_buffers db n" and T: "count = int T" and inv: "client_inv n db T st"
    using client_reach_inv [OF assms(1-3)] by blast
  from inv have q: "nic_queue st = window n (T mod n) n"
    and m: "holds_message db (mem st) ((T + k) mod n) (int T - int n + int k)"
    using assms(4) by (simp_all add: client_inv_def)
  have "nic_queue st ! k = (T + k) mod n" using assms(4) unfolding q by (simp add: nth_window mod_simps)
  moreover have "sb_data_buffer (bufs ! ((T + k) mod n)) = db + ((T + k) mod n) * MSG_SIZE"
    unfolding b using assms(2) by (intro client_buffers_nth) simp
  moreover have "distinct (nic_queue st) \<and> set (nic_queue st) = {..<n}"
    using set_full_window [of "T mod n" n] assms(2) unfolding q by auto
  ultimately show ?thesis using m T by (simp add: holds_message_def)
qed

theorem client_messages_consecutive_witness:
  "\<exists>bufs st. client_reach 2 bufs 2 st \<and>
     (\<forall>x < MSG_SIZE. mem st (sb_data_buffer (bufs ! (nic_queue st ! 1)) + x) = 1)"
proof -
  obtain bufs st where r: "client_reach 2 bufs 2 st" using example_client_reach by blast
  from client_messages_consecutive [OF this, of 1] r show ?thesis by auto
qed

text \<open>C17: an iteration of the client's loop from a reachable state never changes a byte of a buffer whose
  request the adapter still holds after the poll, whatever the answer, and it is never undefined while
  the counter is ten below its limit.\<close>

theorem client_outstanding_untouched:
  assumes "client_reach n bufs count st" and "0 < n" and "n \<le> 2 ^ 30" and "fifo_poll (nic_queue st) a"
    and "count + 10 < 2 ^ 31"
  shows "\<exists>r st'. client_iter bufs a count st = Ret r st' \<and>
    (\<forall>i \<in> set (drop (nat (p_ne a)) (nic_queue st)). \<forall>x < MSG_SIZE.
       mem st' (sb_data_buffer (bufs ! i) + x) = mem st (sb_data_buffer (bufs ! i) + x))"
proof -
  obtain db T where b: "bufs = client_buffers db n" and T: "count = int T" and inv: "client_inv n db T st"
    using client_reach_inv [OF assms(1-3)] by blast
  have "T + 10 < 2 ^ 31" using assms(5) T by simp
  from client_iter_same [OF inv assms(4) this] obtain r st' where
    "client_iter (client_buffers db n) a (int T) st = Ret r st'"
    and same: "\<forall>i \<in> set (drop (nat (p_ne a)) (nic_queue st)). same_slot db (mem st) (mem st') i"
    by (elim exE conjE)
  then have run: "client_iter bufs a count st = Ret r st'" by (simp only: b T)
  have addr: "sb_data_buffer (bufs ! i) = db + i * MSG_SIZE" if "i \<in> set (drop (nat (p_ne a)) (nic_queue st))" for i
  proof -
    have q: "nic_queue st = window n (T mod n) n" using inv by (simp only: client_inv_def)
    have "i \<in> set (window n (T mod n) n)" by (rule in_set_dropD [OF that [unfolded q]])
    moreover have "T mod n < n" using assms(2) by (rule mod_less_divisor)
    ultimately have "i < n" by (rule in_window [rotated])
    then show ?thesis unfolding b by (rule client_buffers_nth)
  qed
  have "mem st' (sb_data_buffer (bufs ! i) + x) = mem st (sb_data_buffer (bufs ! i) + x)"
    if "i \<in> set (drop (nat (p_ne a)) (nic_queue st))" and "x < MSG_SIZE" for i x
    using same that unfolding addr [OF that(1)] same_slot_def by blast
  then show ?thesis using run by blast
qed

theorem client_outstanding_untouched_witness:
  "\<exists>bufs st r st'. client_reach 2 bufs 2 st \<and> client_iter bufs (example_poll\<lparr>p_ne := 1\<rparr>) 2 st = Ret r st' \<and>
     (\<forall>x < MSG_SIZE. mem st' (sb_data_buffer (bufs ! 1) + x) = mem st (sb_data_buffer (bufs ! 1) + x))"
proof -
  obtain bufs st where r: "client_reach 2 bufs 2 st" and q: "nic_queue st = [0, 1]"
    using example_client_reach by blast
  have "fifo_poll (nic_queue st) (example_poll\<lparr>p_ne := 1\<rparr>)"
    using q by (simp add: fifo_poll_def example_poll_def example_wc_def upt_rec)
  from client_outstanding_untouched [OF r _ _ this] obtain r' st' where
    "client_iter bufs (example_poll\<lparr>p_ne := 1\<rparr>) 2 st = Ret r' st'"
    "\<forall>x < MSG_SIZE. mem st' (sb_data_buffer (bufs ! 1) + x) = mem st (sb_data_buffer (bufs ! 1) + x)"
    using q by auto
  then show ?thesis using r by blast
qed

text \<open>C24: the whole client, called with the decimal digits of a LID and a queue pair number, for an allocator
  that keeps its contract, an adapter that completes sends in the order of posting and fewer polls than
  the counter has room for. With a failing \<^verbatim>\<open>sigaction\<close>, \<^verbatim>\<open>main\<close> returns the failure code with nothing
  done. Otherwise it goes the way \<^verbatim>\<open>rdma_init_client\<close> goes with the converted arguments: if that ends the
  process or is undefined, so does \<^verbatim>\<open>main\<close> and nothing else happens (what those endings leave is C19);
  if it returns, \<^verbatim>\<open>main\<close> returns having released every object in an order the library allows, with the
  success code exactly when the first post and every poll, completion and later post was good, or,
  only when destroying some object fails, has ended the process with the failure status.\<close>

theorem client_main_lifecycle:
  assumes "allocator_ok env" and "fifo_answers [0..<20] polls"
    and "20 + 10 * length polls < 2 ^ 31" and "- (2 ^ 31) \<le> lid" and "lid < 2 ^ 31"
    and "- (2 ^ 31) \<le> qpn" and "qpn < 2 ^ 31" and "argv = [prog, dev, gid, fmt_d lid, fmt_d qpn]"
  shows "if sig \<noteq> 0 then client_main env sig pton post0 polls argv m = Ret EXIT_FAILURE (rdma_start m)
    else case rdma_init_client env dev 20 lid (pton gid) (word_of_int qpn) (rdma_start m) of
      Ret x st0 \<Rightarrow>
        (\<exists>st. client_main env sig pton post0 polls argv m =
            Ret (if post0 = 0 \<and> list_all good_answer polls then EXIT_SUCCESS else EXIT_FAILURE) st \<and>
          held st = Some []) \<or>
        (\<exists>st r. client_main env sig pton post0 polls argv m = Exited EXIT_FAILURE st \<and> e_destroy env r \<noteq> 0)
    | Exited c st \<Rightarrow> client_main env sig pton post0 polls argv m = Exited c st
    | Undef \<Rightarrow> client_main env sig pton post0 polls argv m = Undef"
  by (rule client_main_cases [OF assms])

theorem client_main_lifecycle_witness:
  "\<exists>st. client_main example_verbs 0 (\<lambda>_. []) 0 [example_poll]
      [''rdma_client'', ''mlx5_0'', ''fe80::1'', fmt_d 7, fmt_d 386] (\<lambda>_. 0) = Ret EXIT_SUCCESS st \<and> held st = Some []"
proof -
  have "fifo_answers [0..<20] [example_poll]"
    using example_poll_fifo [of "[0..<20]"] by (simp add: take_upt del: upt.simps) (simp add: upt_rec)
  moreover have "good_answer example_poll"
    by (simp add: good_answer_def example_poll_def example_wc_def take_map)
  moreover have "20 * MSG_SIZE < 2 ^ 31" by (simp add: MSG_SIZE_def)
  then obtain x st where
    "rdma_init_client example_verbs ''mlx5_0'' 20 7 [] (word_of_int 386) (rdma_start (\<lambda>_. 0)) = Ret x st"
    using example_client_returns [of 20 "''mlx5_0''" 7 "[]" "word_of_int 386" "\<lambda>_. 0"] by auto
  moreover have "e_destroy example_verbs r = 0" for r by (simp add: example_verbs_ok)
  ultimately show ?thesis
    using client_main_lifecycle [OF example_verbs_ok(2), where polls = "[example_poll]" and sig = 0
        and lid = 7 and qpn = 386 and ?post0.0 = 0 and prog = "''rdma_client''" and dev = "''mlx5_0''"
        and gid = "''fe80::1''" and pton = "\<lambda>_. []" and m = "\<lambda>_. 0", OF _ _ _ _ _ _ refl]
    by auto
qed

end
