(* ===== verification/Rdma_System.thy ===== *)
theory Rdma_System
  imports Rdma_Server Rdma_Client
begin

text \<open>
  The two RDMA programs together. A client with its adapter, a network and a server with its adapter
  make one transition system: the client's adapter puts the oldest request it has not sent yet on the
  network, as a copy of the buffer; the network may lose datagrams and overtake one with the next (the
  programs use unreliable datagrams); the server's adapter writes arriving datagrams to the oldest
  posted buffers; and each program runs the body of its polling loop on in-order completions. The
  client's completions are of requests that were transmitted. The theorems say what the
  server prints, and that it can always print more.
\<close>

section \<open>The system\<close>

record rdma_system =
  sy_client :: rdma
  sy_count :: int
  sy_sent :: nat
  sy_wire :: "byte list list"
  sy_server :: rdma
  sy_printed :: string
  sy_lost :: bool
  sy_reordered :: bool

text \<open>The datagram of send buffer \<open>i\<close>.\<close>

definition datagram :: "send_buffer list \<Rightarrow> (nat \<Rightarrow> byte) \<Rightarrow> nat \<Rightarrow> byte list" where
  "datagram bufs m i = map (\<lambda>x. m (sb_data_buffer (bufs ! i) + x)) [0..<MSG_SIZE]"

text \<open>An answer of the server's adapter that delivers the datagrams \<open>ds\<close> to the oldest requests.\<close>

definition delivers :: "recv_buffer list \<Rightarrow> nat list \<Rightarrow> recv_answer \<Rightarrow> byte list list \<Rightarrow> bool" where
  "delivers bufs q a ds \<longleftrightarrow> p_ne a = int (length ds) \<and>
     (\<forall>j < length ds. \<forall>x < MSG_SIZE. p_mem a (rb_data_buffer (bufs ! (q ! j)) + x) = ds ! j ! x)"

text \<open>The steps of the system: the client's adapter transmits, the network loses a datagram or lets one
  overtake the one before it, the client and the server run the body of their loops. An iteration that
  leaves its loop (a failed poll, completion or post) ends that program and is not a step, and the client
  takes no step once its counter is within ten of the largest \<^verbatim>\<open>int\<close>: what is shown here is about the
  two programs while both are in their loops.\<close>

inductive system_step ::
  "send_buffer list \<Rightarrow> recv_buffer list \<Rightarrow> rdma_system \<Rightarrow> rdma_system \<Rightarrow> bool" for cb sb where
  transmit: "sy_sent s < length (nic_queue (sy_client s)) \<Longrightarrow>
    system_step cb sb s (s\<lparr>sy_sent := Suc (sy_sent s),
      sy_wire := sy_wire s @ [datagram cb (mem (sy_client s)) (nic_queue (sy_client s) ! sy_sent s)]\<rparr>)"
| lose: "sy_wire s = us @ d # vs \<Longrightarrow>
    system_step cb sb s (s\<lparr>sy_wire := us @ vs, sy_lost := True\<rparr>)"
| overtake: "sy_wire s = us @ d # e # vs \<Longrightarrow>
    system_step cb sb s (s\<lparr>sy_wire := us @ e # d # vs, sy_reordered := True\<rparr>)"
| client: "fifo_poll (nic_queue (sy_client s)) a \<Longrightarrow>
    p_ne a \<le> int (sy_sent s) \<Longrightarrow> sy_count s + 10 < 2 ^ 31 \<Longrightarrow>
    client_iter cb a (sy_count s) (sy_client s) = Ret (None, count) c \<Longrightarrow>
    system_step cb sb s (s\<lparr>sy_client := c, sy_count := count, sy_sent := sy_sent s - nat (p_ne a)\<rparr>)"
| server: "fifo_poll (nic_queue (sy_server s)) a \<Longrightarrow>
    sy_wire s = ds @ rest \<Longrightarrow> delivers sb (nic_queue (sy_server s)) a ds \<Longrightarrow>
    server_iter sb a (sy_server s) = Ret (None, out) sv \<Longrightarrow>
    system_step cb sb s
      (s\<lparr>sy_server := sv, sy_wire := rest, sy_printed := sy_printed s @ out\<rparr>)"

inductive system_reach ::
  "nat \<Rightarrow> send_buffer list \<Rightarrow> nat \<Rightarrow> recv_buffer list \<Rightarrow> rdma_system \<Rightarrow> bool" for n cb n' sb where
  start: "client_ready env n lid gid qpn result cb c0 \<Longrightarrow>
    init_buffers cb 0 (mem c0) = Some (count, m') \<Longrightarrow>
    post_sends 0 0 (int n) (c0\<lparr>mem := m'\<rparr>) = Ret 0 c \<Longrightarrow>
    server_ready n' result' sb s0 \<Longrightarrow> post_recvs 0 0 (int n') s0 = Ret 0 sv \<Longrightarrow>
    system_reach n cb n' sb \<lparr>sy_client = c, sy_count = count, sy_sent = 0, sy_wire = [],
      sy_server = sv, sy_printed = [], sy_lost = False, sy_reordered = False\<rparr>"
| step: "system_reach n cb n' sb s \<Longrightarrow> system_step cb sb s s' \<Longrightarrow> system_reach n cb n' sb s'"

section \<open>Messages\<close>

text \<open>Message number \<open>v\<close> as a datagram, and the line the server prints for it on completion \<open>w\<close>.\<close>

definition message_bytes :: "nat \<Rightarrow> byte list" where
  "message_bytes v = replicate MSG_SIZE (word_of_nat v)"

definition received_line :: "ibv_wc \<Rightarrow> nat \<Rightarrow> string" where
  "received_line w v =
     ''Message for WR #'' @ fmt_d (sint (wc_wr_id w)) @ '': index #''
     @ fmt_d (sint (word_of_nat v :: byte)) @ '' size: '' @ fmt_d (sint (byte_len w)) @ '' bytes'' @ nl"

lemma check_recvs_lines:
  "check_recvs bufs m ws = Some (out, True) \<Longrightarrow> out = concat (map (message_line bufs m) ws)"
  by (induction ws arbitrary: out) (auto split: if_splits)

lemma server_iter_lines:
  assumes "server_iter bufs a st = Ret (None, out) st'"
  shows "out = concat (map (message_line bufs (p_mem a)) (take (nat (p_ne a)) (p_wcs a)))"
proof -
  let ?wcs = "take (nat (p_ne a)) (p_wcs a)"
  obtain out' ok where c: "check_recvs bufs (p_mem a) ?wcs = Some (out', ok)"
    using assms by (auto simp: server_iter_def Let_def split: if_splits option.splits)
  have "ok" "out = out'"
    using assms c
    by (cases "post_recvs (p_post a) (int_of_size (wc_wr_id (p_wcs a ! 0))) (p_ne a)
          (record_call (Polled (p_ne a) ?wcs) (st\<lparr>mem := p_mem a\<rparr>))";
        auto simp: server_iter_def Let_def split: if_splits)+
  with check_recvs_lines [of bufs "p_mem a" ?wcs out'] c show ?thesis by simp
qed

lemma delivered_lines:
  assumes "fifo_poll q a" and "delivers sb q a (map message_bytes vs)" and "length vs \<le> length q"
  shows "map (message_line sb (p_mem a)) (take (nat (p_ne a)) (p_wcs a)) =
    map2 received_line (take (nat (p_ne a)) (p_wcs a)) vs"
proof (rule nth_equalityI)
  let ?ws = "take (nat (p_ne a)) (p_wcs a)"
  have k: "nat (p_ne a) = length vs" using assms(2) by (simp add: delivers_def)
  have len: "length ?ws = length vs"
    using assms(1) k by (auto simp: fifo_poll_def)
  then show "length (map (message_line sb (p_mem a)) ?ws) = length (map2 received_line ?ws vs)" by simp
  fix j assume "j < length (map (message_line sb (p_mem a)) ?ws)"
  then have j: "j < length vs" by (simp only: length_map len)
  have "map (unat \<circ> wc_wr_id) ?ws ! j = take (nat (p_ne a)) q ! j"
    using assms(1) by (simp add: fifo_poll_def)
  then have id: "unat (wc_wr_id (?ws ! j)) = q ! j" using j len k by simp
  have "0 < MSG_SIZE" by (simp add: MSG_SIZE_def)
  then have "p_mem a (rb_data_buffer (sb ! (q ! j))) = word_of_nat (vs ! j)"
    using assms(2) j by (force simp: delivers_def message_bytes_def)
  then show "map (message_line sb (p_mem a)) ?ws ! j = map2 received_line ?ws vs ! j"
    using j len id by (simp add: message_line_def received_line_def)
qed

lemma client_datagram:
  assumes "client_inv n db T st" and "k < n"
  shows "datagram (client_buffers db n) (mem st) (nic_queue st ! k) = message_bytes (T - n + k)"
proof -
  have n: "0 < n" "n \<le> T" and q: "nic_queue st ! k = (T + k) mod n"
    and m: "holds_message db (mem st) ((T + k) mod n) (int T - int n + int k)"
    using assms by (simp_all add: client_inv_def nth_window mod_simps)
  have "int T - int n + int k = int (T - n + k)" using n by simp
  then have v: "(word_of_int (int T - int n + int k) :: byte) = word_of_nat (T - n + k)"
    by (simp only: of_int_of_nat_eq)
  have slot: "mem st (db + (T + k) mod n * MSG_SIZE + x) = word_of_nat (T - n + k)" if "x < MSG_SIZE" for x
    using m that unfolding holds_message_def v by blast
  have "sb_data_buffer (client_buffers db n ! ((T + k) mod n)) = db + (T + k) mod n * MSG_SIZE"
    using n(1) by (intro client_buffers_nth) simp
  then show ?thesis
    unfolding datagram_def message_bytes_def q
    by (intro nth_equalityI) (simp_all add: slot del: of_nat_add)
qed

section \<open>The invariant\<close>

text \<open>\<open>ds\<close> are the numbers of the messages delivered so far, \<open>ms\<close> of those on the network, and
  \<open>T - n + sent\<close> messages were transmitted.\<close>

definition system_inv ::
  "nat \<Rightarrow> send_buffer list \<Rightarrow> nat \<Rightarrow> recv_buffer list \<Rightarrow> rdma_system \<Rightarrow> nat \<Rightarrow> nat \<Rightarrow> nat list \<Rightarrow> nat list \<Rightarrow>
     ibv_wc list \<Rightarrow> bool" where
  "system_inv n cb n' sb s db T ds ms ws \<longleftrightarrow>
     cb = client_buffers db n \<and> sy_count s = int T \<and> client_inv n db T (sy_client s) \<and>
     sy_sent s \<le> n \<and> server_inv n' sb (sy_server s) \<and>
     distinct (ds @ ms) \<and> (\<not> sy_reordered s \<longrightarrow> sorted_wrt (<) (ds @ ms)) \<and>
     (\<forall>v \<in> set (ds @ ms). v < T - n + sy_sent s) \<and>
     sy_wire s = map message_bytes ms \<and>
     length ws = length ds \<and> sy_printed s = concat (map2 received_line ws ds) \<and>
     (\<not> sy_lost s \<longrightarrow> set (ds @ ms) = {0..<T - n + sy_sent s})"

lemma sorted_prefix_upt:
  assumes "sorted_wrt (<) (ds @ ms)" and "set (ds @ ms) = {0..<t :: nat}"
  shows "ds = [0..<length ds]"
proof -
  have "ds @ ms = [0..<t]"
    using assms by (intro sorted_distinct_set_unique) (simp_all add: strict_sorted_iff)
  then have "ds = take (length ds) [0..<t]" and "length ds \<le> t"
    by (metis append_eq_conv_conj, metis length_append length_upt le_add1 minus_nat.diff_0)
  then show ?thesis by (simp add: take_upt)
qed

lemma client_inv_length: "client_inv n db T st \<Longrightarrow> length (nic_queue st) = n"
  by (simp add: client_inv_def)

lemma system_start:
  assumes "client_ready env n lid gid qpn result cb c0" "init_buffers cb 0 (mem c0) = Some (count, m')"
    "post_sends 0 0 (int n) (c0\<lparr>mem := m'\<rparr>) = Ret 0 c" "server_ready n' result' sb s0"
    "post_recvs 0 0 (int n') s0 = Ret 0 sv" "0 < n" "n \<le> 2 ^ 30" "0 < n'" "n' \<le> 2 ^ 30"
  shows "\<exists>db. system_inv n cb n' sb \<lparr>sy_client = c, sy_count = count, sy_sent = 0, sy_wire = [],
      sy_server = sv, sy_printed = [], sy_lost = False, sy_reordered = False\<rparr> db n [] [] []"
  using client_first_post [OF assms(1,6,7)] server_first_post [OF assms(4,8,9)] assms(2,3,5)
  by (fastforce simp: system_inv_def)

lemma client_step_inv:
  assumes "client_inv n db T c" "fifo_poll (nic_queue c) a" "T + 10 < 2 ^ 31"
    "client_iter (client_buffers db n) a (int T) c = Ret (None, count) c'"
  shows "count = int (T + nat (p_ne a)) \<and> client_inv n db (T + nat (p_ne a)) c'"
  using client_iter_cases [OF assms(1-3)] unfolding assms(4)
  by (auto simp: Let_def split: if_splits)

lemma server_step_inv:
  assumes "server_inv n' sb st" "fifo_poll (nic_queue st) a" "server_iter sb a st = Ret (None, out) st'"
  shows "server_inv n' sb st'"
  using server_iter_cases [OF assms(1,2)] unfolding assms(3)
  by (auto split: if_splits)

lemma system_step_inv:
  assumes inv: "system_inv n cb n' sb s db T ds ms ws" and "system_step cb sb s s'"
  shows "\<exists>db T ds ms ws. system_inv n cb n' sb s' db T ds ms ws"
  using assms(2)
proof cases
  case transmit
  have c: "client_inv n db T (sy_client s)" using inv by (simp add: system_inv_def)
  then have k: "sy_sent s < n" using transmit(2) client_inv_length by simp
  let ?v = "T - n + sy_sent s"
  have d: "datagram cb (mem (sy_client s)) (nic_queue (sy_client s) ! sy_sent s) = message_bytes ?v"
    using client_datagram [OF c k] inv by (simp add: system_inv_def)
  have "system_inv n cb n' sb (s\<lparr>sy_sent := Suc (sy_sent s),
      sy_wire := sy_wire s @ [datagram cb (mem (sy_client s)) (nic_queue (sy_client s) ! sy_sent s)]\<rparr>)
      db T ds (ms @ [?v]) ws"
    using inv k unfolding d
    by (auto simp: system_inv_def sorted_wrt_append less_Suc_eq simp flip: append_assoc)
  then show ?thesis unfolding transmit(1) by blast
next
  case (lose us d vs)
  have "map message_bytes ms = us @ d # vs" using inv lose(2) by (simp add: system_inv_def)
  then obtain mu mv v where ms: "ms = mu @ v # mv" "us = map message_bytes mu" "vs = map message_bytes mv"
    by (auto simp: map_eq_append_conv map_eq_Cons_conv)
  have "system_inv n cb n' sb (s\<lparr>sy_wire := us @ vs, sy_lost := True\<rparr>) db T ds (mu @ mv) ws"
    using inv by (auto simp: system_inv_def ms sorted_wrt_append)
  then show ?thesis unfolding lose(1) by blast
next
  case (overtake us d e vs)
  have "map message_bytes ms = us @ d # e # vs" using inv overtake(2) by (simp add: system_inv_def)
  then obtain mu mv v w where ms: "ms = mu @ v # w # mv" "us = map message_bytes mu"
    "d = message_bytes v" "e = message_bytes w" "vs = map message_bytes mv"
    by (auto simp: map_eq_append_conv map_eq_Cons_conv)
  have "system_inv n cb n' sb (s\<lparr>sy_wire := us @ e # d # vs, sy_reordered := True\<rparr>) db T ds
      (mu @ w # v # mv) ws"
    using inv by (auto simp: system_inv_def ms insert_commute)
  then show ?thesis unfolding overtake(1) by blast
next
  case (client a count c)
  have cb: "cb = client_buffers db n" and T: "sy_count s = int T"
    and c: "client_inv n db T (sy_client s)" using inv by (simp_all add: system_inv_def)
  have "T + 10 < 2 ^ 31" using client(4) T by simp
  from client_step_inv [OF c client(2) this] client(5)
  have step: "count = int (T + nat (p_ne a))" "client_inv n db (T + nat (p_ne a)) c"
    by (simp_all add: cb T)
  have "n \<le> T" using c by (simp add: client_inv_def)
  then have sum: "T + nat (p_ne a) - n + (sy_sent s - nat (p_ne a)) = T - n + sy_sent s"
    using client(3) by simp
  have "system_inv n cb n' sb (s\<lparr>sy_client := c, sy_count := count, sy_sent := sy_sent s - nat (p_ne a)\<rparr>)
      db (T + nat (p_ne a)) ds ms ws"
    using inv step sum by (auto simp: system_inv_def)
  then show ?thesis unfolding client(1) by blast
next
  case (server a dgs rest out sv)
  have sinv: "server_inv n' sb (sy_server s)" using inv by (simp add: system_inv_def)
  have "map message_bytes ms = dgs @ rest" using inv server(3) by (simp add: system_inv_def)
  then obtain md mr where ms: "ms = md @ mr" "dgs = map message_bytes md" "rest = map message_bytes mr"
    by (auto simp: map_eq_append_conv)
  let ?ws = "take (nat (p_ne a)) (p_wcs a)"
  obtain q0 where q: "nic_queue (sy_server s) = window n' q0 n'" using sinv by (auto simp: server_inv_def)
  have k: "nat (p_ne a) = length md" using server(4) ms by (simp add: delivers_def)
  have "nat (p_ne a) \<le> n'" and len: "length ?ws = length md"
    using fifo_count [of n' q0 a] server(2) q k by simp_all
  then have "out = concat (map2 received_line ?ws md)"
    using server_iter_lines [OF server(5)]
      delivered_lines [OF server(2), of sb md] server(4) ms q k by simp
  then have "system_inv n cb n' sb
      (s\<lparr>sy_server := sv, sy_wire := rest, sy_printed := sy_printed s @ out\<rparr>) db T (ds @ md) mr (ws @ ?ws)"
    using inv server_step_inv [OF sinv server(2,5)] len by (simp add: system_inv_def ms)
  then show ?thesis unfolding server(1) by blast
qed

lemma system_reach_inv:
  assumes "system_reach n cb n' sb s" "0 < n" "n \<le> 2 ^ 30" "0 < n'" "n' \<le> 2 ^ 30"
  shows "\<exists>db T ds ms ws. system_inv n cb n' sb s db T ds ms ws"
  using assms
proof (induction rule: system_reach.induct)
  case (start env lid gid qpn result c0 count m' c result' s0 sv)
  then show ?case using system_start [OF start(1-5)] by blast
next
  case (step s s')
  then show ?case using system_step_inv by blast
qed

section \<open>What the server prints\<close>

text \<open>C3: The system of client, network and server, with any number of send and receive buffers up to
  \<open>2 ^ 30\<close>: what the server has printed is, in every reachable state, one line for each element of a
  sequence of distinct message numbers the client has filled in, with the right index in each line, so
  nothing is printed twice or with the contents of a buffer that was refilled too early. The sequence
  is strictly increasing when the network reordered nothing; when it lost nothing and is empty the
  numbers are 0, 1, ... up to a last one, each of them once; when it did neither the sequence is
  0, 1, 2, ... without a gap. The index is the low byte of the number, printed as a signed character.\<close>

theorem server_prints_messages_in_order:
  assumes "system_reach n cb n' sb s" "0 < n" "n \<le> 2 ^ 30" "0 < n'" "n' \<le> 2 ^ 30"
  shows "\<exists>vs ws. distinct vs \<and> length ws = length vs \<and>
    sy_printed s = concat (map2 received_line ws vs) \<and> (\<forall>v \<in> set vs. int v < sy_count s) \<and>
    (\<not> sy_reordered s \<longrightarrow> sorted_wrt (<) vs) \<and>
    (\<not> sy_lost s \<and> sy_wire s = [] \<longrightarrow> set vs = {0..<length vs}) \<and>
    (\<not> sy_lost s \<and> \<not> sy_reordered s \<longrightarrow> vs = [0..<length vs])"
proof -
  obtain db T ds ms ws where inv: "system_inv n cb n' sb s db T ds ms ws"
    using system_reach_inv [OF assms] by blast
  have small: "\<forall>v \<in> set ds. v < T - n + sy_sent s" "sy_sent s \<le> n" "n \<le> T"
    using inv unfolding system_inv_def client_inv_def set_append by blast+
  have "int v < sy_count s" if "v \<in> set ds" for v
  proof -
    have "v < T - n + sy_sent s" using small(1) that by blast
    then have "v < T" using small(2,3) by linarith
    then show ?thesis using inv by (simp add: system_inv_def)
  qed
  moreover have "set ds = {0..<length ds}" if "\<not> sy_lost s \<and> sy_wire s = []"
  proof -
    have "distinct ds" "set ds = {0..<T - n + sy_sent s}"
      using inv that by (auto simp: system_inv_def)
    then show ?thesis using distinct_card [of ds] by simp
  qed
  moreover have "ds = [0..<length ds]" if "\<not> sy_lost s \<and> \<not> sy_reordered s"
    using inv that by (intro sorted_prefix_upt [of ds ms "T - n + sy_sent s"]) (simp_all add: system_inv_def)
  ultimately show ?thesis
    using inv by (intro exI [of _ ds] exI [of _ ws]) (auto simp: system_inv_def sorted_wrt_append)
qed

section \<open>The system can always go on\<close>

text \<open>A completion of one request, successful, after which the library accepts the new post.\<close>

definition one_wc :: "nat \<Rightarrow> ibv_wc" where
  "one_wc i =
     \<lparr>wc_wr_id = word_of_nat i, status = IBV_WC_SUCCESS, wc_opcode = IBV_WC_RECV, vendor_err = 0,
      byte_len = word_of_nat (40 + MSG_SIZE), wc_imm_data = 0, wc_qp_num = 0, src_qp = 0, wc_flags = 0,
      wc_pkey_index = 0, slid = 0, wc_sl = 0, dlid_path_bits = 0\<rparr>"

definition one_poll :: "nat \<Rightarrow> poll_answer" where
  "one_poll i = \<lparr>p_ne = 1, p_wcs = replicate 10 (one_wc i), p_post = 0\<rparr>"

definition one_recv :: "nat \<Rightarrow> (nat \<Rightarrow> byte) \<Rightarrow> recv_answer" where
  "one_recv i m = \<lparr>p_ne = 1, p_wcs = replicate 10 (one_wc i), p_post = 0, p_mem = m\<rparr>"

lemma one_answer_simps [simp]:
  "p_ne (one_poll i) = 1" "p_wcs (one_poll i) = replicate 10 (one_wc i)" "p_post (one_poll i) = 0"
  "p_ne (one_recv i m) = 1" "p_wcs (one_recv i m) = replicate 10 (one_wc i)" "p_post (one_recv i m) = 0"
  "p_mem (one_recv i m) = m" "status (one_wc i) = IBV_WC_SUCCESS"
  by (simp_all add: one_poll_def one_recv_def one_wc_def)

lemma fifo_one:
  assumes "i < 2 ^ 30"
  shows "fifo_poll (i # q) (one_poll i)" "fifo_poll (i # q) (one_recv i m)"
proof -
  have "unat (word_of_nat i :: u64) = i" using assms by (simp add: unat_of_nat)
  then show "fifo_poll (i # q) (one_poll i)" "fifo_poll (i # q) (one_recv i m)"
    by (simp_all add: fifo_poll_def one_wc_def)
qed

lemma one_completion:
  "take (nat (p_ne (one_poll i))) (p_wcs (one_poll i)) = [one_wc i]"
  "take (nat (p_ne (one_recv i m))) (p_wcs (one_recv i m)) = [one_wc i]"
  by (simp_all add: take_Cons')

lemma full_window_first:
  assumes "s < n"
  obtains i q where "window n s n = i # q" "i < n"
proof -
  obtain i q where iq: "window n s n = i # q"
    using assms by (cases "window n s n") (auto dest: arg_cong [of _ _ length])
  then have "i \<in> {..<n}" using set_full_window [OF assms] by (metis list.set_intros(1))
  with iq that show thesis by simp
qed

text \<open>With a datagram on the network the server can take it and print its line.\<close>

lemma server_can_print:
  assumes inv: "system_inv n cb n' sb s db T ds (v # ms) ws" and "0 < n'" "n' \<le> 2 ^ 30"
  shows "\<exists>s' w. system_step cb sb s s' \<and> sy_printed s' = sy_printed s @ received_line w v"
proof -
  have sinv: "server_inv n' sb (sy_server s)" and wire: "sy_wire s = message_bytes v # map message_bytes ms"
    using inv by (simp_all add: system_inv_def)
  obtain i q where q: "nic_queue (sy_server s) = i # q" "i < n'"
    using sinv full_window_first unfolding server_inv_def by metis
  let ?d = "message_bytes v"
  let ?a = "one_recv i (\<lambda>y. ?d ! (y - rb_data_buffer (sb ! i)))"
  have fifo: "fifo_poll (nic_queue (sy_server s)) ?a"
    unfolding q(1) by (rule fifo_one) (use q(2) assms(3) in simp)
  have dels: "delivers sb (nic_queue (sy_server s)) ?a [?d]" by (simp add: delivers_def q)
  obtain out sv where iter: "server_iter sb ?a (sy_server s) = Ret (None, out) sv"
    using server_iter_cases [OF sinv fifo] unfolding one_completion by auto
  have "out = concat (map2 received_line [one_wc i] [v])"
    using server_iter_lines [OF iter] delivered_lines [OF fifo, of sb "[v]"] dels q(1)
    unfolding one_completion by simp
  then have out: "out = received_line (one_wc i) v" by simp
  have "sy_wire s = [?d] @ map message_bytes ms" using wire by simp
  note step = system_step.server [OF fifo this dels iter]
  show ?thesis by (intro exI conjI, rule step, simp add: out)
qed

text \<open>When every request the client posted was transmitted, one of them can complete, and the client posts it
  again with the next message; then there is a request to transmit.\<close>

lemma client_can_post:
  assumes inv: "system_inv n cb n' sb s db T ds ms ws" and "sy_sent s = n" "0 < n" "n \<le> 2 ^ 30"
    and "sy_count s + 10 < 2 ^ 31"
  shows "\<exists>s'. system_step cb sb s s' \<and> sy_sent s' < n \<and> sy_wire s' = sy_wire s \<and> sy_printed s' = sy_printed s"
proof -
  have c: "client_inv n db T (sy_client s)" and cb: "cb = client_buffers db n" and T: "sy_count s = int T"
    using inv by (simp_all add: system_inv_def)
  obtain i q where q: "nic_queue (sy_client s) = i # q" "i < n"
    using c assms(3) full_window_first [of "T mod n" n] mod_less_divisor unfolding client_inv_def by metis
  have fifo: "fifo_poll (nic_queue (sy_client s)) (one_poll i)"
    unfolding q(1) by (rule fifo_one) (use q(2) assms(4) in simp)
  have "T + 10 < 2 ^ 31" using assms(5) T by simp
  then obtain count c' where "client_iter cb (one_poll i) (sy_count s) (sy_client s) = Ret (None, count) c'"
    using client_iter_cases [OF c fifo] unfolding one_completion by (auto simp: Let_def cb T)
  from system_step.client [OF fifo _ assms(5) this, of sb] assms(2,3)
  have "system_step cb sb s (s\<lparr>sy_client := c', sy_count := count, sy_sent := sy_sent s - 1\<rparr>)" by simp
  then show ?thesis
    using assms(2,3) by (intro exI [of _ "s\<lparr>sy_client := c', sy_count := count, sy_sent := sy_sent s - 1\<rparr>"]) simp
qed

text \<open>An untransmitted request can go on the network.\<close>

lemma client_can_transmit:
  assumes inv: "system_inv n cb n' sb s db T ds ms ws" and "sy_sent s < n"
  shows "\<exists>s'. system_step cb sb s s' \<and> sy_wire s' \<noteq> [] \<and> sy_printed s' = sy_printed s"
proof -
  have "length (nic_queue (sy_client s)) = n"
    using inv client_inv_length by (auto simp: system_inv_def)
  then have "sy_sent s < length (nic_queue (sy_client s))" using assms(2) by simp
  note step = system_step.transmit [OF this, of cb sb]
  show ?thesis by (intro exI conjI, rule step, simp_all)
qed

text \<open>C4: the system of client, network and server never gets stuck: from every reachable state, whatever
  was lost or overtaken before, there are steps after which the server has printed the line of one more
  message and nothing else, as long as the client's counter is ten below its overflow.\<close>

theorem system_goes_on:
  assumes "system_reach n cb n' sb s" "0 < n" "n \<le> 2 ^ 30" "0 < n'" "n' \<le> 2 ^ 30"
    and "sy_count s + 10 < 2 ^ 31"
  shows "\<exists>s' w v. (system_step cb sb)\<^sup>*\<^sup>* s s' \<and> sy_printed s' = sy_printed s @ received_line w v"
proof -
  have print: "\<exists>s' w v. (system_step cb sb)\<^sup>*\<^sup>* t s' \<and> sy_printed s' = sy_printed t @ received_line w v"
    if t: "system_reach n cb n' sb t" and on_wire: "sy_wire t \<noteq> []" for t
  proof -
    obtain db T ds ms ws where inv: "system_inv n cb n' sb t db T ds ms ws"
      using system_reach_inv [OF t assms(2-5)] by blast
    then obtain v ms' where "ms = v # ms'" using on_wire by (cases ms) (auto simp: system_inv_def)
    with server_can_print [of n cb n' sb t db T ds v ms' ws] inv assms(4,5) show ?thesis by blast
  qed
  have send: "\<exists>s' w v. (system_step cb sb)\<^sup>*\<^sup>* t s' \<and> sy_printed s' = sy_printed t @ received_line w v"
    if t: "system_reach n cb n' sb t" and unsent: "sy_sent t < n" for t
  proof -
    obtain db T ds ms ws where "system_inv n cb n' sb t db T ds ms ws"
      using system_reach_inv [OF t assms(2-5)] by blast
    from client_can_transmit [OF this unsent] obtain t'
      where t': "system_step cb sb t t'" "sy_wire t' \<noteq> []" "sy_printed t' = sy_printed t" by blast
    show ?thesis
      using print [OF system_reach.step [OF t t'(1)] t'(2)] t'(1,3) by (metis converse_rtranclp_into_rtranclp)
  qed
  obtain db T ds ms ws where inv: "system_inv n cb n' sb s db T ds ms ws"
    using system_reach_inv [OF assms(1-5)] by blast
  show ?thesis
  proof (cases "sy_sent s < n")
    case False
    then have "sy_sent s = n" using inv by (simp add: system_inv_def)
    from client_can_post [OF inv this assms(2,3,6)] obtain s'
      where s': "system_step cb sb s s'" "sy_sent s' < n" "sy_printed s' = sy_printed s" by blast
    show ?thesis
      using send [OF system_reach.step [OF assms(1) s'(1)] s'(2)] s'(1,3)
      by (metis converse_rtranclp_into_rtranclp)
  qed (rule send [OF assms(1)])
qed

theorem system_goes_on_witness:
  "\<exists>cb sb s s' w v. system_reach 2 cb 2 sb s \<and> (system_step cb sb)\<^sup>*\<^sup>* s s' \<and>
     sy_printed s' = sy_printed s @ received_line w v"
proof -
  obtain result cb c0 m' c where ready: "client_ready example_verbs 2 7 [] 5 result cb c0"
    and init: "init_buffers cb 0 (mem c0) = Some (2, m')"
    and post: "post_sends 0 0 (int 2) (c0\<lparr>mem := m'\<rparr>) = Ret 0 c"
    using example_client_start by blast
  obtain result' sb s0 sv where sready: "server_ready 2 result' sb s0"
    and spost: "post_recvs 0 0 (int 2) s0 = Ret 0 sv"
    using example_server_start by blast
  have "\<exists>s' w v. (system_step cb sb)\<^sup>*\<^sup>* s s' \<and> sy_printed s' = sy_printed s @ received_line w v"
    if "system_reach 2 cb 2 sb s" "sy_count s = 2" for s
    by (rule system_goes_on [OF that(1)]) (simp_all add: that(2))
  from this [OF system_reach.start [OF ready init post sready spost]] show ?thesis
    using system_reach.start [OF ready init post sready spost] by fastforce
qed

text \<open>The example programs with two buffers each: the first message is transmitted and delivered.\<close>

theorem server_prints_messages_in_order_witness:
  "\<exists>cb sb s vs ws. system_reach 2 cb 2 sb s \<and> sy_printed s \<noteq> [] \<and>
     length ws = length vs \<and> sy_printed s = concat (map2 received_line ws vs) \<and> vs = [0..<length vs]"
proof -
  obtain result cb c0 m' c where ready: "client_ready example_verbs 2 7 [] 5 result cb c0"
    and init: "init_buffers cb 0 (mem c0) = Some (2, m')"
    and post: "post_sends 0 0 (int 2) (c0\<lparr>mem := m'\<rparr>) = Ret 0 c" and qc: "nic_queue c = [0, 1]"
    using example_client_start by blast
  obtain result' sb s0 sv where sready: "server_ready 2 result' sb s0"
    and spost: "post_recvs 0 0 (int 2) s0 = Ret 0 sv" and qs: "nic_queue sv = [0, 1]"
    using example_server_start by blast
  let ?s0 = "\<lparr>sy_client = c, sy_count = 2, sy_sent = 0, sy_wire = [], sy_server = sv, sy_printed = [],
    sy_lost = False, sy_reordered = False\<rparr>"
  have r0: "system_reach 2 cb 2 sb ?s0"
    using system_reach.start [OF ready init post sready spost] .
  obtain db where cb: "cb = client_buffers db 2" and inv: "client_inv 2 db 2 c"
    using client_reach_inv [OF client_reach.start [OF ready init post]] by auto
  have d: "datagram cb (mem c) 0 = message_bytes 0"
    using client_datagram [OF inv, of 0] qc cb by simp
  have r1: "system_reach 2 cb 2 sb (?s0\<lparr>sy_sent := 1, sy_wire := [message_bytes 0]\<rparr>)"
    using system_reach.step [OF r0 system_step.transmit] qc d by simp
  define a :: recv_answer where "a = poll_answer.extend (example_poll\<lparr>p_ne := 1\<rparr>) \<lparr>p_mem = (\<lambda>_. 0)\<rparr>"
  have sel: "p_ne a = 1" "p_wcs a = map example_wc [0..<10]" "p_post a = 0" "p_mem a = (\<lambda>_. 0)"
    by (simp_all add: a_def poll_answer.defs example_poll_def)
  have wcs: "take 1 (p_wcs a) = [example_wc 0]" by (simp add: sel take_map upt_rec)
  have fifo: "fifo_poll (nic_queue sv) a"
    using wcs by (simp add: fifo_poll_def qs) (simp add: sel example_wc_def)
  have dels: "delivers sb (nic_queue sv) a [message_bytes 0]"
    by (simp add: delivers_def sel message_bytes_def)
  have sinv: "server_inv 2 sb sv"
    using server_reach_inv [OF server_reach.start [OF sready spost]] by simp
  obtain out sv' where iter: "server_iter sb a sv = Ret (None, out) sv'"
    using server_iter_cases [OF sinv fifo] wcs sel(1,3) by (auto simp: example_wc_def)
  let ?s2 = "?s0\<lparr>sy_sent := 1, sy_wire := [], sy_server := sv', sy_printed := out\<rparr>"
  have r2: "system_reach 2 cb 2 sb ?s2"
    using system_reach.step [OF r1 system_step.server [of _ a "[message_bytes 0]" "[]" sb out sv' cb]] fifo dels iter by simp
  have "out = message_line sb (p_mem a) (example_wc 0)"
    using server_iter_lines [OF iter] wcs sel(1) by simp
  then have "out \<noteq> []" by (simp add: message_line_def)
  moreover obtain vs ws where "length ws = length vs" "out = concat (map2 received_line ws vs)"
    "vs = [0..<length vs]"
    using server_prints_messages_in_order [OF r2] by auto
  ultimately show ?thesis
    using r2 by (intro exI [of _ cb] exI [of _ sb] exI [of _ ?s2] exI [of _ vs] exI [of _ ws]) simp
qed

end
