(* ===== verification/Spec2Isabelle.thy ===== *)
theory Spec2Isabelle
  imports Ib_Prelude Interruptible C_Library Crc32 Raw_Packet Lookup_Addr Fpga_Kernel Opencl_Host Sender_Loop Raw_Ibverbs
    Raw_Udp Udp Verbs Verbs_Flags Verbs_Layout Verbs_Structs Verbs_Ext Verbs_Driver Rdma Rdma_Destroy Rdma_Ring Rdma_Resources Rdma_Queue
    Rdma_Server Rdma_Client Rdma_System
begin

text \<open>
  Verification of the raw and FPGA InfiniBand prototype: five programs that send and receive numbered
  messages over UDP, over hand-built Ethernet frames, over hand-built RoCEv1 frames (from the host or
  from an FPGA kernel), and through the verbs library.

  \<^bold>\<open>Parts and theories.\<close> The programs share no process; they meet on the wire and in
  \<^verbatim>\<open>constants.h\<close>.

    \<^item> \<open>Ib_Prelude\<close>: integer types, little-endian object representation, byte order, the outcome
      type (value, exit status, undefined behaviour), shared lemmas. \<open>C_Library\<close>: the parts of the C
      library used on the programs' own data (number formatting, \<^verbatim>\<open>snprintf\<close>, \<^verbatim>\<open>atoi\<close>, truncating
      division, casts). \<open>Sender_Loop\<close>: the contract of a loop that numbers and sends messages. \<open>Interruptible\<close>: a
      \<^verbatim>\<open>while\<close> loop on a flag that a signal handler clears, also while the body waits in a system call, as a
      transition system over the program's own loop condition, handler and body, and its relation to
      the recursion the rest of the development uses for it.
    \<^item> \<open>Crc32\<close> (\<^verbatim>\<open>src/crc32.h\<close>), \<open>Raw_Packet\<close> (\<^verbatim>\<open>src/raw_packet.h\<close>, \<^verbatim>\<open>src/raw_packet.c\<close>),
      \<open>Lookup_Addr\<close> (\<^verbatim>\<open>src/lookup_addr.c\<close>), \<open>Fpga_Kernel\<close> (\<^verbatim>\<open>src/ibverbs.cl\<close>),
      \<open>Opencl_Host\<close> (\<^verbatim>\<open>src/fpga_host.cc\<close>, \<^verbatim>\<open>src/opencl_utils.cc\<close>, \<^verbatim>\<open>src/opencl_utils.hpp\<close>), \<open>Raw_Ibverbs\<close> (\<^verbatim>\<open>src/raw_ibverbs.c\<close>): the sender of hand-built InfiniBand
      frames. \<open>raw_main\<close> is composed of \<open>raw_args\<close>, \<open>init_invariant_headers\<close> and one of the two send
      loops, as the program is.
    \<^item> \<open>Raw_Udp\<close> (\<^verbatim>\<open>src/raw_udp.c\<close>) and \<open>Udp\<close> (\<^verbatim>\<open>src/udp.c\<close>): the UDP programs. The static buffers are byte
      lists, the header structs of the first are offsets into its buffer.
    \<^item> \<open>Verbs\<close> (\<^verbatim>\<open>src/sys/verbs.h\<close>: enumerations, masks and structs the programs use), \<open>Rdma\<close> (\<^verbatim>\<open>src/rdma.c\<close>, every function,
      label and exit; the static variables are the record \<open>rdma\<close>), \<open>Rdma_Destroy\<close> (runs in which a destroy
      call fails), \<open>Rdma_Ring\<close> (the request rings and
      \<^verbatim>\<open>post_sends\<close>, \<^verbatim>\<open>post_recvs\<close>), \<open>Rdma_Resources\<close> (what is held at every exit), \<open>Rdma_Queue\<close> (answers
      of the adapter, the poll-and-post cycle), \<open>Rdma_Server\<close> and \<open>Rdma_Client\<close> (the loops and
      \<^verbatim>\<open>main\<close> of \<^verbatim>\<open>src/rdma_server.c\<close> and \<^verbatim>\<open>src/rdma_client.c\<close>), \<open>Rdma_System\<close> (the two programs
      joined by a network).
    \<^item> \<open>Verbs_Flags\<close> (the other enumerations of \<^verbatim>\<open>src/sys/verbs.h\<close>: 30 of flags, 13 of values),
      \<open>Verbs_Structs\<close> (layouts of the structs its functions only pass on), \<open>Verbs_Layout\<close> (the layout of the structs of \<^verbatim>\<open>src/sys/verbs.h\<close>: C types as values, sizes and
      offsets computed by the rule of the ABI), \<open>Verbs_Ext\<close> (every inline function of the header, over
      a memory of scalar cells and tables of function pointers) and \<open>Verbs_Driver\<close> (drivers of older and
      newer versions of the extensible context, and what the inline functions promise for them).

  \<^bold>\<open>Interfaces.\<close> Locales state what one part relies on in another, each interpreted on the code's
  model: \<open>stream_checksum\<close> and \<open>detecting_checksum\<close> (\<open>crc\<close>, on the bitwise CRC-32 the table-driven code
  is proved equal to), \<open>wire_codec\<close> and \<open>codec_pair\<close> (one interpretation per packed struct, composed
  to the packet), \<open>counting_sender\<close> (the three datagram loops), \<open>request_ring\<close> (receive and send
  requests), \<open>interruptible_loop\<close> (the six endless loops), \<open>c_enum\<close> and \<open>flag_enum\<close> (one
  interpretation per enumeration), \<open>ring_post\<close> (\<^verbatim>\<open>post_recvs\<close> and \<^verbatim>\<open>post_sends\<close> under an in-order adapter).

  \<^bold>\<open>What is shown.\<close> For the checksums: the table-driven CRC equals the bitwise definition, its
  residue and burst detection; \<^verbatim>\<open>ipv4check\<close> equals the complement of the ones' complement sum and the
  completed header passes the receiver's test in network byte order. For the frames: layout round trip,
  the header bytes on the wire, the fields the invariant checksum covers, the frames each loop sends,
  the address of the checksum store and when it is undefined, equality of the frames of the host loop and
  of the FPGA when the headers reach the device first, acceptance and damage detection. For the FPGA host function:
  the objects and arguments it sets up, and a step relation over its two command queues in which the
  kernel can run before the headers have been copied. Sizes are preserved from the operating system's
  answers to the frames of the raw sender. For the RDMA library: posting
  implements a circular window and restores the ring, requests are conserved in every reachable state
  of both loops, no outstanding buffer is written, header and data slots are laid out without overlap, and for
  every behaviour of the verbs library the initialisation returns the state the loops need or ends the
  process with the failure status, and \<^verbatim>\<open>main\<close> follows it to its end; while destroy calls
  succeed everything is released in a legal order, up to leaks that the theorems name. For the two RDMA programs together: over a network that
  may lose and reorder datagrams, the server prints messages the client filled in, each at most once,
  all of them when nothing is lost, and in order when nothing is reordered; and
  from every reachable state the two programs and the network can go on to the next message. For the inline functions of the verbs header: with every version of the driver's
  context each function calls the operation the driver offers or takes its fallback, and never reads
  outside the driver's object; the structs that are cast to each other have compatible layouts; and
  the places where a guard is missing or a test is too weak. For the UDP programs: what is printed, what is sent, that
  address lists are freed. This theory adds the properties that span components: the raw frames fit the
  receive side of the RDMA server, what the server prints for them, the inline decision of
  \<^verbatim>\<open>rdma_init\<close>, host against FPGA frames, and what each endless loop has done when the interrupt ends it, with
  the handler running at any point.

  \<^bold>\<open>Undefined behaviour\<close> is a value (\<open>UB\<close>, \<open>Undef\<close>, \<open>Udp_undef\<close>), reached by an access outside an
  object, a null dereference, a read of an uninitialised value or a signed overflow, and theorems say
  when it is reached: the checksum store behind the raw packet, the terminator behind the UDP
  buffer, the lookup after a failing resolver, the device name after a failing open.

  \<^bold>\<open>Bounds and fuel.\<close> A loop that runs until SIGINT is a recursion over the finite list of the
  environment's answers before the signal, which the locale \<open>interruptible_loop\<close> justifies; theorems hold for every such list, up to the length at
  which the \<^verbatim>\<open>int\<close> counter overflows where one is kept. The walk along a chain of requests
  (\<open>wr_chain\<close>) has the array length as fuel, which a chain of distinct entries cannot exceed; a chain that
  does not end within it is undefined; \<open>posting_terminates\<close> shows that the uncut ring is such a chain for
  every fuel, and that the chains the code makes of it are not.

  \<^bold>\<open>Parameters and hypotheses.\<close> The operating system, the resolver, the text conversions of
  \<^verbatim>\<open>arpa/inet.h\<close>, the OpenCL runtime and the verbs library are parameters (\<open>raw_env\<close>, \<open>raw_udp_env\<close>,
  \<open>udp_env\<close>, \<open>cl_env\<close>, \<open>verbs_env\<close>, \<open>verbs_lib\<close>, the answers of polls). Named hypotheses on them: the allocator returns
  distinct blocks (\<open>allocator_ok\<close>), a queue
  completes its requests in the order of posting, at most ten per poll (\<open>fifo_poll\<close>), a driver's context
  has the layout of some version of the struct (\<open>lays_out\<close>). What a system call answers when a handler
  interrupts it is the documented -1. Concrete instances
  (\<open>example_env\<close>, \<open>example_udp_env\<close>, \<open>example_udp\<close>, \<open>example_cl\<close>, \<open>example_verbs\<close>, \<open>example_poll\<close>,
  \<open>example_lib\<close> with \<open>example_driver\<close>) satisfy them.

  \<^bold>\<open>Not modelled.\<close> The Makefile; messages to standard error,
  \<^verbatim>\<open>errno\<close> outside the inline functions of the verbs header, and \<^verbatim>\<open>sleep\<close>; the prototypes of
  \<^verbatim>\<open>src/sys/verbs.h\<close>, whose code is not part of the repository; alignment and aliasing rules for the
  overlaid headers; the freedom of a compiler to keep the loop flag, a plain \<^verbatim>\<open>int\<close>, in a register.
  In \<open>Rdma_System\<close> the network neither duplicates nor damages datagrams, and an iteration that leaves
  one of the loops is not a step.
\<close>

section \<open>Properties that span components\<close>

text \<open>What \<^verbatim>\<open>rdma_init\<close> leaves behind besides its resources: the attributes it gave the queue pair, and
  the two variables it derives from the answers of the library.\<close>

definition inline_flags :: "u32 \<Rightarrow> u32 \<Rightarrow> u32" where
  "inline_flags mtu limit =
     (if mtu \<le> limit then IBV_SEND_SIGNALED OR IBV_SEND_INLINE else IBV_SEND_SIGNALED)"

lemma inline_flags:
  "mtu \<le> limit \<Longrightarrow> inline_flags mtu limit = IBV_SEND_SIGNALED OR IBV_SEND_INLINE"
  "\<not> mtu \<le> limit \<Longrightarrow> inline_flags mtu limit = IBV_SEND_SIGNALED"
  by (simp_all add: inline_flags_def)

definition mtu_bytes :: "ibv_mtu \<Rightarrow> u32" where
  "mtu_bytes mtu = push_bit (ibv_mtu_value mtu + 7) 1"

lemma rdma_init_settings:
  assumes "rdma_init env dev n (rdma_start m) = Ret u st"
  shows "\<exists>q a0 attr. queue_pair st = Some q \<and>
    e_create_qp env (qp_init_attr (completion_queue st) n) = Some (q, a0) \<and>
    max_mtu st = mtu_bytes (active_mtu (snd (ibv_query_port (e_query_port env) (ctx st) IB_PORT (e_port_attr0 env)))) \<and>
    send_flags st = inline_flags (max_mtu st) (max_inline_data (cap (snd (e_query_qp env (e_qp_attr0 env) a0)))) \<and>
    qkey attr = 0x11111111 \<and> 6 < length (log st) \<and>
    log st ! 6 = Modified q attr (IBV_QP_STATE OR IBV_QP_PKEY_INDEX OR IBV_QP_PORT OR IBV_QP_QKEY) 0"
  using assms
  by (auto simp: rdma_init_def init_queue_pair_def rdma_start_def modify_qp_def record_call_def
      inline_flags cleanup_defs Let_def mtu_bytes_def [symmetric]
      simp del: push_bit_of_1 split: option.splits prod.splits if_splits)

lemma mtu_below_message: "unat (mtu_bytes mtu) \<le> 4096"
  by (cases mtu) (simp_all add: mtu_bytes_def)

text \<open>C21: the raw sender and the receive side of the RDMA server fit each other. When
  \<^verbatim>\<open>rdma_init_server\<close> returns, the queue pair was given the queue key that the frames of
  \<^verbatim>\<open>init_invariant_headers\<close> carry in network order; each receive request scatters into two slots whose
  sizes are those of the routing header and of the payload of a frame; and the length field of the
  frame counts exactly the transport headers, the payload and the checksum.\<close>

theorem raw_frames_fit_server:
  assumes "allocator_ok env" and "n * MSG_SIZE < 2 ^ 31"
    and "rdma_init_server env dev (int n) (rdma_start m) = Ret (result, bufs) st" and "i < n"
    and "wf_addr src" and "wf_addr dst"
    and "init_invariant_headers zero_packet src dst qp = Ok (p, header_crc)"
  shows "(\<exists>st0 q attr msk. rdma_init env dev (int n) (rdma_start m) = Ret () st0 \<and> queue_pair st0 = Some q \<and>
      Modified q attr msk 0 \<in> set (log st0) \<and> msk AND IBV_QP_QKEY \<noteq> 0 \<and>
      qkey attr = ntohl (queue_key (deth (ib_header p)))) \<and>
    (\<exists>sg sges rq reqs. scatter_gather st = Some (sg, sges) \<and> recv_requests st = Some (rq, reqs) \<and>
      map (unat \<circ> sge_length) (take (nat (rwr_num_sge (reqs ! i))) (drop (rwr_sg_list (reqs ! i)) sges)) =
        [length (grh_bytes (grh (ib_header p))), length (data p)]) \<and>
    unat (ntohs (payload_length (grh (ib_header p)))) =
      length (bth_bytes (bth (ib_header p))) + length (deth_bytes (deth (ib_header p))) + length (data p) + 4"
proof -
  have "p = headers_init zero_packet src dst qp"
    using assms(5-7) wf_zero_packet by (simp add: init_invariant_headers_eq)
  then have p: "wf_packet p" "queue_key (deth (ib_header p)) = htonl 0x11111111"
    "payload_length (grh (ib_header p)) = htons (ucast (word_of_nat MSG_SIZE + ib_transport_header_size + checksum_size))"
    using assms(5,6) wf_zero_packet
    by (simp_all add: wf_headers_init, simp_all add: headers_init_def init_deth_def init_grh_def)
  obtain st0 where init: "rdma_init env dev (int n) (rdma_start m) = Ret () st0"
    using assms(3) by (cases "rdma_init env dev (int n) (rdma_start m)") (auto simp: rdma_init_server_def)
  from rdma_init_settings [OF this] obtain q attr where q: "queue_pair st0 = Some q" "qkey attr = 0x11111111"
    "Modified q attr (IBV_QP_STATE OR IBV_QP_PKEY_INDEX OR IBV_QP_PORT OR IBV_QP_QKEY) 0 \<in> set (log st0)"
    by (metis nth_mem)
  have "(IBV_QP_STATE OR IBV_QP_PKEY_INDEX OR IBV_QP_PORT OR IBV_QP_QKEY) AND IBV_QP_QKEY \<noteq> 0"
    by (simp add: IBV_QP_STATE_def IBV_QP_PKEY_INDEX_def IBV_QP_PORT_def IBV_QP_QKEY_def)
  with init q p(2) have key: "\<exists>st0 q attr msk. rdma_init env dev (int n) (rdma_start m) = Ret () st0 \<and>
      queue_pair st0 = Some q \<and> Modified q attr msk 0 \<in> set (log st0) \<and> msk AND IBV_QP_QKEY \<noteq> 0 \<and>
      qkey attr = ntohl (queue_key (deth (ib_header p)))"
    by (metis ntohl_htonl)
  have "server_ready n result bufs st"
    using rdma_init_server_any [OF assms(1,2), of dev m] assms(3) by simp
  from server_ready_layout [OF this assms(2,4)] p(1)
  have slots: "\<exists>sg sges rq reqs. scatter_gather st = Some (sg, sges) \<and> recv_requests st = Some (rq, reqs) \<and>
      map (unat \<circ> sge_length) (take (nat (rwr_num_sge (reqs ! i))) (drop (rwr_sg_list (reqs ! i)) sges)) =
        [length (grh_bytes (grh (ib_header p))), length (data p)]"
    by (auto simp: wf_packet_def wf_headers_def grh_codec.enc_length MSG_SIZE_def)
  have "unat (ntohs (payload_length (grh (ib_header p)))) =
      length (bth_bytes (bth (ib_header p))) + length (deth_bytes (deth (ib_header p))) + length (data p) + 4"
    using p(1) by (simp add: p(3) layout_simps bth_codec.enc_length deth_codec.enc_length wf_packet_def)
  with key slots show ?thesis by blast
qed

theorem raw_frames_fit_server_witness:
  "\<exists>st0 q attr msk. rdma_init example_verbs ''mlx5_0'' (int 2) (rdma_start (\<lambda>_. 0)) = Ret () st0 \<and>
    queue_pair st0 = Some q \<and> Modified q attr msk 0 \<in> set (log st0) \<and> msk AND IBV_QP_QKEY \<noteq> 0 \<and>
    qkey attr = ntohl (queue_key (deth (ib_header (headers_init zero_packet zero_addr zero_addr 5))))"
proof -
  have wf: "wf_addr zero_addr" by (simp add: wf_addr_def zero_addr_def)
  have small: "2 * MSG_SIZE < 2 ^ 31" by (simp add: MSG_SIZE_def)
  obtain result bufs st where r: "rdma_init_server example_verbs ''mlx5_0'' (int 2) (rdma_start (\<lambda>_. 0))
      = Ret (result, bufs) st"
    using example_server_returns [of 2 "''mlx5_0''" "\<lambda>_. 0"] by (auto simp: MSG_SIZE_def)
  show ?thesis
    using raw_frames_fit_server [OF example_verbs_ok(2) small r _ wf wf
      init_invariant_headers_eq [OF wf_zero_packet wf wf], of 0] by simp
qed

text \<open>The part of a frame that the adapter writes into the data slot: what follows the Ethernet, routing
  and transport headers, without the checksum.\<close>

definition frame_payload :: "byte list \<Rightarrow> byte list" where
  "frame_payload frame = take MSG_SIZE (drop 74 frame)"

lemma frame_payload:
  assumes "wf_packet p" and "length bs = MSG_SIZE"
  shows "frame_payload (wire_frame p bs) = bs"
proof -
  have "length (eth_bytes (ether_header p) @ headers_bytes (ib_header p)) = 74"
    using assms(1) by (simp add: wf_packet_def eth_codec.enc_length headers_codec.enc_length)
  then show ?thesis
    using assms(2) unfolding frame_payload_def wire_frame_def by (simp add: take_drop flip: append_assoc)
qed


lemma message_fits: "k < 2 ^ 31 \<Longrightarrow> length (message_text (int k)) < MSG_SIZE"
  using length_message_text [of "int k"] by (simp add: MSG_SIZE_def)

lemma padded_message_head: "padded (message_text k) ! 0 = 77"
  by (simp add: padded_def message_text_def)

lemma raw_payloads:
  assumes "wf_addr src" "wf_addr dst" "sock \<noteq> -1" "4 \<le> length beyond" "length sends < 2 ^ 31" "-1 \<notin> set sends"
    and "init_invariant_headers zero_packet src dst qp = Ok (p, header_crc)"
    and "ib_host_send_loop ntop sock sends p beyond header_crc = Ok hs" and "frame \<in> set (h_sent hs)"
  shows "\<exists>k < length sends. frame_payload frame = padded (message_text (int k))"
proof -
  have p: "wf_packet p"
    using assms(1,2,7) wf_zero_packet by (auto simp: init_invariant_headers_eq wf_headers_init)
  have eq: "p = headers_init zero_packet src dst qp" "header_crc = icrc (ib_header p) []"
    using assms(1,2,7) wf_zero_packet by (auto simp: init_invariant_headers_eq)
  have "h_sent hs = map (\<lambda>k. wire_frame p (padded (message_text (int k)))) [0..<length sends]"
    using ib_host_send_loop_frames [OF assms(1-6) eq(1), of ntop] assms(8) by (auto simp: eq(2))
  then obtain k where k: "k < length sends" "frame = wire_frame p (padded (message_text (int k)))"
    using assms(9) by auto
  have "length (padded (message_text (int k))) = MSG_SIZE"
    using message_fits [of k] k(1) assms(5) by (intro length_padded) simp
  with k show ?thesis by (auto simp: frame_payload [OF p])
qed

text \<open>C22: the raw sender in front of the RDMA server. The README gives it the same functionality as
  \<^verbatim>\<open>rdma_client\<close>; both agree on the frames, but not on the contents of the payload. When the server's
  adapter delivers frames of the host send loop to a server in a reachable state, each buffer receives
  one whole payload, the text \<open>Message: k\<close> padded with zeros, and the server, which prints the
  first byte of the buffer as the index of the message, prints the index 77 (the letter \<open>M\<close>) for every
  one of them.\<close>

theorem raw_frames_print_same_index:
  assumes "wf_addr src" "wf_addr dst" "sock \<noteq> -1" "4 \<le> length beyond" "length sends < 2 ^ 31" "-1 \<notin> set sends"
    and "init_invariant_headers zero_packet src dst qp = Ok (p, header_crc)"
    and "ib_host_send_loop ntop sock sends p beyond header_crc = Ok hs" and "set frames \<subseteq> set (h_sent hs)"
    and "server_reach n sb sv" "0 < n" "n \<le> 2 ^ 30" and "fifo_poll (nic_queue sv) a"
    and "delivers sb (nic_queue sv) a (map frame_payload frames)"
    and "server_iter sb a sv = Ret (None, out) sv'"
  shows "(\<forall>j < length frames. \<exists>k < length sends. \<forall>x < MSG_SIZE.
      p_mem a (rb_data_buffer (sb ! (nic_queue sv ! j)) + x) = padded (message_text (int k)) ! x) \<and>
    out = concat (map (\<lambda>w. received_line w 77) (take (length frames) (p_wcs a)))"
proof -
  have pay: "\<exists>k < length sends. frame_payload (frames ! j) = padded (message_text (int k))"
    if "j < length frames" for j
    using raw_payloads [OF assms(1-8)] assms(9) that by (meson nth_mem subsetD)
  have mem: "p_mem a (rb_data_buffer (sb ! (nic_queue sv ! j)) + x) = frame_payload (frames ! j) ! x"
    if "j < length frames" "x < MSG_SIZE" for j x
    using assms(14) that by (simp add: delivers_def)
  have ne: "nat (p_ne a) = length frames" using assms(14) by (simp add: delivers_def)
  have "0 < MSG_SIZE" by (simp add: MSG_SIZE_def)
  then have head: "p_mem a (rb_data_buffer (sb ! (nic_queue sv ! j))) = 77" if "j < length frames" for j
    using mem [OF that, of 0] pay [OF that] padded_message_head by auto
  have line: "message_line sb (p_mem a) w = received_line w 77" if w: "w \<in> set (take (length frames) (p_wcs a))" for w
  proof -
    obtain j where j: "j < length (take (length frames) (p_wcs a))" "w = take (length frames) (p_wcs a) ! j"
      using w unfolding in_set_conv_nth by blast
    have "map (unat \<circ> wc_wr_id) (take (length frames) (p_wcs a)) ! j = take (length frames) (nic_queue sv) ! j"
      using assms(13) unfolding fifo_poll_def ne by (simp only:)
    then have "unat (wc_wr_id w) = nic_queue sv ! j" using j(1) unfolding j(2) by simp
    moreover have "j < length frames" using j(1) by simp
    ultimately have "p_mem a (rb_data_buffer (sb ! unat (wc_wr_id w))) = 77" by (simp only: head)
    then show ?thesis by (simp add: message_line_def received_line_def)
  qed
  have "out = concat (map (message_line sb (p_mem a)) (take (length frames) (p_wcs a)))"
    using server_iter_lines [OF assms(15)] ne by simp
  also have "\<dots> = concat (map (\<lambda>w. received_line w 77) (take (length frames) (p_wcs a)))"
    using line by (intro arg_cong [of _ _ concat] map_cong refl) simp
  finally have out: "out = concat (map (\<lambda>w. received_line w 77) (take (length frames) (p_wcs a)))" .
  have "\<exists>k < length sends. \<forall>x < MSG_SIZE.
      p_mem a (rb_data_buffer (sb ! (nic_queue sv ! j)) + x) = padded (message_text (int k)) ! x"
    if j: "j < length frames" for j
  proof -
    obtain k where "k < length sends" "frame_payload (frames ! j) = padded (message_text (int k))"
      using pay [OF j] by blast
    with mem [OF j] show ?thesis by auto
  qed
  with out show ?thesis by blast
qed

theorem raw_frames_print_same_index_witness:
  "\<exists>sb sv sv' a. server_reach 2 sb sv \<and>
     server_iter sb a sv = Ret (None, received_line (example_wc 0) 77) sv'"
proof -
  have wf: "wf_addr zero_addr" by (simp add: wf_addr_def zero_addr_def)
  obtain p c where i: "init_invariant_headers zero_packet zero_addr zero_addr 5 = Ok (p, c)"
    using wf wf_zero_packet by (simp add: init_invariant_headers_eq)
  have "p = headers_init zero_packet zero_addr zero_addr 5" "c = icrc (ib_header p) []"
    using i wf wf_zero_packet by (auto simp: init_invariant_headers_eq)
  then obtain hs where loop: "ib_host_send_loop (\<lambda>_. ''::'') 3 [9018] p [0, 0, 0, 0] c = Ok hs"
    and sent: "h_sent hs = [wire_frame p (padded (message_text 0))]"
    using ib_host_send_loop_frames [OF wf wf, of 3 "[0, 0, 0, 0]" "[9018]" p 5] by auto
  obtain sb sv where reach: "server_reach 2 sb sv" and q: "nic_queue sv = [0, 1]"
    using example_server_reach by blast
  let ?frame = "wire_frame p (padded (message_text 0))"
  let ?m = "\<lambda>x. frame_payload ?frame ! (x - rb_data_buffer (sb ! 0))"
  define a :: recv_answer where "a = poll_answer.extend (example_poll\<lparr>p_ne := 1\<rparr>) \<lparr>p_mem = ?m\<rparr>"
  have sel: "p_ne a = 1" "p_wcs a = map example_wc [0..<10]" "p_post a = 0" "p_mem a = ?m"
    by (simp_all add: a_def poll_answer.defs example_poll_def)
  have wcs: "take 1 (p_wcs a) = [example_wc 0]" by (simp add: sel take_map upt_rec)
  have fifo: "fifo_poll (nic_queue sv) a"
    using wcs by (simp add: fifo_poll_def q) (simp add: sel example_wc_def)
  have dels: "delivers sb (nic_queue sv) a (map frame_payload [?frame])"
    by (simp add: delivers_def sel q)
  have "server_inv 2 sb sv" using server_reach_inv [OF reach] by simp
  then obtain out sv' where iter: "server_iter sb a sv = Ret (None, out) sv'"
    using server_iter_cases [OF _ fifo] wcs sel(1,3) by (fastforce simp: example_wc_def)
  have "out = received_line (example_wc 0) 77"
    using raw_frames_print_same_index [OF wf wf _ _ _ _ i loop _ reach _ _ fifo dels iter] sent wcs by simp
  with reach iter show ?thesis by blast
qed

text \<open>The inline decision of \<^verbatim>\<open>rdma_init\<close>. After it returns, the send flags contain the inline flag
  exactly when the queue pair's inline limit reaches the port's MTU, which is at most 4096 bytes for
  every value of the enumeration. Each message is longer than that, so a limit between the MTU and the
  message size makes every send request carry the inline flag with more data than the limit.\<close>

theorem rdma_init_inline:
  assumes "rdma_init env dev n (rdma_start m) = Ret u st"
  shows "unat (max_mtu st) \<le> 4096 \<and> unat (max_mtu st) < MSG_SIZE \<and>
    (\<exists>q a0. e_create_qp env (qp_init_attr (completion_queue st) n) = Some (q, a0) \<and>
      (let limit = max_inline_data (cap (snd (e_query_qp env (e_qp_attr0 env) a0))) in
       send_flags st =
         (if max_mtu st \<le> limit then IBV_SEND_SIGNALED OR IBV_SEND_INLINE else IBV_SEND_SIGNALED)))"
proof -
  obtain q a0 where s: "e_create_qp env (qp_init_attr (completion_queue st) n) = Some (q, a0)"
    "max_mtu st = mtu_bytes (active_mtu (snd (ibv_query_port (e_query_port env) (ctx st) IB_PORT (e_port_attr0 env))))"
    "send_flags st = inline_flags (max_mtu st) (max_inline_data (cap (snd (e_query_qp env (e_qp_attr0 env) a0))))"
    using rdma_init_settings [OF assms] by blast
  have "unat (max_mtu st) \<le> 4096" unfolding s(2) by (rule mtu_below_message)
  moreover from this have "unat (max_mtu st) < MSG_SIZE" by (simp add: MSG_SIZE_def)
  ultimately show ?thesis using s(1,3) unfolding inline_flags_def Let_def by blast
qed

text \<open>A queue pair with room for 4096 inline bytes.\<close>

definition inline_verbs :: verbs_env where
  "inline_verbs = example_verbs\<lparr>e_create_qp :=
     (\<lambda>attr. Some (4, attr\<lparr>cap := (cap attr)\<lparr>max_inline_data := 4096\<rparr>\<rparr>))\<rparr>"

theorem rdma_init_inline_witness:
  "\<exists>st. rdma_init inline_verbs ''mlx5_0'' 2 (rdma_start (\<lambda>_. 0)) = Ret () st \<and>
    send_flags st = IBV_SEND_SIGNALED OR IBV_SEND_INLINE \<and> unat (max_mtu st) < MSG_SIZE"
proof -
  obtain st where r: "rdma_init inline_verbs ''mlx5_0'' 2 (rdma_start (\<lambda>_. 0)) = Ret () st"
    "max_mtu st = 4096"
    by (simp add: inline_verbs_def example_verbs_def example_port_def rdma_init_def init_queue_pair_def
      rdma_start_def modify_qp_def Let_def ibv_query_port_def)
  from rdma_init_inline [OF r(1)] r show ?thesis
    by (auto simp: inline_verbs_def example_verbs_def qp_init_attr_def Let_def)
qed

section \<open>Host and FPGA\<close>




section \<open>Interrupted loops\<close>



end
